(* ===== verification/Aem_Prelude.thy ===== *)
theory Aem_Prelude
  imports Main "HOL-Library.Word" "HOL-Library.Monad_Syntax"
begin

unbundle bit_operations_syntax

text \<open>
  Shared vocabulary of the development: the C types of the sources as words, memory objects as
  byte lists, and the few functions of the C standard library that the sources call
  (\<^verbatim>\<open>memcpy\<close>, \<^verbatim>\<open>memmove\<close>, \<^verbatim>\<open>strlen\<close>).

  A computation that C leaves undefined (an access outside its object, a division by zero, the use
  of a null pointer) has the value \<^term>\<open>None\<close>; every function that touches memory therefore
  returns an \<^typ>\<open>'a option\<close> and is written in the option monad. A theorem that a function
  returns \<^term>\<open>Some r\<close> says, beside what \<^term>\<open>r\<close> is, that the call is free of such
  undefined behaviour.
\<close>

section \<open>C types\<close>

type_synonym byte = "8 word"
type_synonym uint16 = "16 word"
type_synonym uint32 = "32 word"
type_synonym uint64 = "64 word"

text \<open>\<^verbatim>\<open>size_t\<close> of an LP64 target, the kind of host the continuous integration of the repository uses.\<close>

type_synonym size_t = "64 word"

text \<open>One memory object (an array of bytes).\<close>

type_synonym mem = "byte list"

text \<open>The rewrite rules for memory accesses that stay inside their object.\<close>

named_theorems c_mem
named_theorems unat_rules

section \<open>Word lemmas\<close>

lemma unat_add_size [unat_rules]:
  fixes a b :: size_t
  shows "unat a + unat b < 2 ^ 64 \<Longrightarrow> unat (a + b) = unat a + unat b"
  using unat_add_lem [of a b] by simp

lemma unat_diff_size [unat_rules]:
  fixes a b :: size_t
  shows "unat b \<le> unat a \<Longrightarrow> unat (a - b) = unat a - unat b"
  by (simp add: unat_sub word_le_nat_alt)

lemma unat_of_nat_size [unat_rules]: "n < 2 ^ 64 \<Longrightarrow> unat (of_nat n :: size_t) = n"
  by (simp add: unat_of_nat)

lemma unat_lt_size: "unat (a :: size_t) < 2 ^ 64"
  using unsigned_less [of a] by simp

lemma unat_byte_lt: "unat (b :: byte) < 256"
  using unsigned_less [of b] by simp

lemma unat_uint16_lt: "unat (b :: uint16) < 65536"
  using unsigned_less [of b] by simp

lemma unat_uint32_lt: "unat (b :: uint32) < 2 ^ 32"
  using unsigned_less [of b] by simp

lemma unat_ucast_uint32: "unat (ucast r :: size_t) = unat (r :: uint32)"
  using unat_uint32_lt [of r] by (simp add: unsigned_ucast_eq take_bit_eq_mod)

lemma unat_ucast_byte: "unat (ucast b :: size_t) = unat (b :: byte)"
  using unat_byte_lt [of b] by (simp add: unsigned_ucast_eq take_bit_eq_mod)

lemma unat_inc_size [unat_rules]:
  fixes i n :: size_t
  shows "i < n \<Longrightarrow> unat (i + 1) = unat i + 1"
  using unat_lt_size [of n] by (subst unat_add_size) (simp_all add: word_less_nat_alt)

section \<open>Memory objects\<close>

definition mem_read :: "mem \<Rightarrow> nat \<Rightarrow> byte option" where
  "mem_read m i = (if i < length m then Some (m ! i) else None)"

definition mem_write :: "mem \<Rightarrow> nat \<Rightarrow> byte \<Rightarrow> mem option" where
  "mem_write m i v = (if i < length m then Some (m[i := v]) else None)"

text \<open>
  \<^verbatim>\<open>memcpy(&dst[d], &src[s], n)\<close> between two distinct objects, and
  \<^verbatim>\<open>memmove(&m[d], &m[s], n)\<close> inside one object, whose ranges may overlap.
\<close>

definition mem_copy :: "mem \<Rightarrow> nat \<Rightarrow> mem \<Rightarrow> nat \<Rightarrow> nat \<Rightarrow> mem option" where
  "mem_copy dst d src s n =
     (if d + n \<le> length dst \<and> s + n \<le> length src
      then Some (take d dst @ take n (drop s src) @ drop (d + n) dst) else None)"

definition mem_move :: "mem \<Rightarrow> nat \<Rightarrow> nat \<Rightarrow> nat \<Rightarrow> mem option" where
  "mem_move m d s n = mem_copy m d m s n"

text \<open>A pointer to a byte string: the string ends at the first NUL of the object.\<close>

fun strlen_from :: "mem \<Rightarrow> nat option" where
  "strlen_from [] = None"
| "strlen_from (b # bs) = (if b = 0 then Some 0 else map_option Suc (strlen_from bs))"

definition strlen :: "mem \<Rightarrow> size_t option" where
  "strlen s = map_option of_nat (strlen_from s)"

definition cstring :: "byte list \<Rightarrow> mem" where
  "cstring s = s @ [0]"

text \<open>\<^verbatim>\<open>a % b\<close> on \<^verbatim>\<open>size_t\<close>; a zero divisor is undefined.\<close>

definition size_mod :: "size_t \<Rightarrow> size_t \<Rightarrow> size_t option" where
  "size_mod a b = (if b = 0 then None else Some (a mod b))"

lemma mem_read_ok [c_mem]: "i < length m \<Longrightarrow> mem_read m i = Some (m ! i)"
  by (simp add: mem_read_def)

lemma mem_write_ok [c_mem]: "i < length m \<Longrightarrow> mem_write m i v = Some (m[i := v])"
  by (simp add: mem_write_def)

lemma mem_copy_ok [c_mem]:
  "d + n \<le> length dst \<Longrightarrow> s + n \<le> length src \<Longrightarrow>
   mem_copy dst d src s n = Some (take d dst @ take n (drop s src) @ drop (d + n) dst)"
  by (simp add: mem_copy_def)

lemma mem_move_ok [c_mem]:
  "d + n \<le> length m \<Longrightarrow> s + n \<le> length m \<Longrightarrow>
   mem_move m d s n = Some (take d m @ take n (drop s m) @ drop (d + n) m)"
  by (simp add: mem_move_def mem_copy_def)

lemma length_mem_write: "mem_write m i v = Some m' \<Longrightarrow> length m' = length m"
  by (auto simp: mem_write_def split: if_splits)

lemma length_mem_copy: "mem_copy dst d src s n = Some m \<Longrightarrow> length m = length dst"
  by (auto simp: mem_copy_def split: if_splits)

lemma length_mem_move: "mem_move m d s n = Some m' \<Longrightarrow> length m' = length m"
  by (auto simp: mem_move_def dest: length_mem_copy)

lemmas length_mem = length_mem_write length_mem_copy length_mem_move

lemma strlen_from_append: "0 \<notin> set s \<Longrightarrow> strlen_from (s @ 0 # r) = Some (length s)"
  by (induction s) auto

lemma strlen_cstring [simp]: "0 \<notin> set s \<Longrightarrow> strlen (cstring s) = Some (of_nat (length s))"
  by (simp add: strlen_def cstring_def strlen_from_append)

lemma length_cstring [simp]: "length (cstring s) = Suc (length s)"
  by (simp add: cstring_def)

lemma take_cstring [simp]: "n \<le> length s \<Longrightarrow> take n (cstring s) = take n s"
  by (simp add: cstring_def)

section \<open>Lists and the option monad\<close>

lemma bind_option_fundef_cong [fundef_cong]:
  "x = x' \<Longrightarrow> (\<And>a. x' = Some a \<Longrightarrow> f a = f' a) \<Longrightarrow> Option.bind x f = Option.bind x' f'"
  by (cases x) auto

text \<open>Overwriting a range: how every buffer store of the development is stated.\<close>

definition overwrite :: "nat \<Rightarrow> 'a list \<Rightarrow> 'a list \<Rightarrow> 'a list" where
  "overwrite d xs m = take d m @ xs @ drop (d + length xs) m"

lemma length_overwrite [simp]: "d + length xs \<le> length m \<Longrightarrow> length (overwrite d xs m) = length m"
  by (simp add: overwrite_def)

lemma overwrite_Nil [simp]: "overwrite d [] m = m"
  by (simp add: overwrite_def)

lemma overwrite_Cons: "d < length m \<Longrightarrow> overwrite (Suc d) xs (m[d := x]) = overwrite d (x # xs) m"
  by (simp add: overwrite_def take_Suc_conv_app_nth)

lemma update_overwrite: "d < length m \<Longrightarrow> m[d := x] = overwrite d [x] m"
  using overwrite_Cons [of d m "[]" x] by simp

lemma update2_overwrite: "Suc d < length m \<Longrightarrow> m[d := x, Suc d := y] = overwrite d [x, y] m"
  using overwrite_Cons [of d m "[y]" x] update_overwrite [of "Suc d" "m[d := x]" y] by simp

lemma overwrite_overwrite:
  "d + length xs \<le> length m \<Longrightarrow> overwrite (d + length xs) ys (overwrite d xs m) = overwrite d (xs @ ys) m"
  by (simp add: overwrite_def ac_simps)

lemma overwrite_before:
  "d + length xs + length ys \<le> length m \<Longrightarrow>
   overwrite d xs (overwrite (d + length xs) ys m) = overwrite d (xs @ ys) m"
  by (simp add: overwrite_def add.assoc)

lemma take_overwrite [simp]: "d + length xs \<le> length m \<Longrightarrow> take (d + length xs) (overwrite d xs m) = take d m @ xs"
  by (simp add: overwrite_def)

lemma mem_copy_overwrite:
  "d + n \<le> length dst \<Longrightarrow> s + n \<le> length src \<Longrightarrow>
   mem_copy dst d src s n = Some (overwrite d (take n (drop s src)) dst)"
  by (simp add: mem_copy_def overwrite_def min_absorb2)

lemma mem_move_overwrite:
  "d + n \<le> length m \<Longrightarrow> s + n \<le> length m \<Longrightarrow>
   mem_move m d s n = Some (overwrite d (take n (drop s m)) m)"
  by (simp add: mem_move_def mem_copy_overwrite)

lemma take_update_snoc: "i < length m \<Longrightarrow> take (Suc i) (m[i := v]) = take i m @ [v]"
  by (simp add: take_Suc_conv_app_nth)

lemma bind_Some_iff:
  "Option.bind x f = Some r \<longleftrightarrow> (\<exists>a. x = Some a \<and> f a = Some r)"
  by (cases x) auto

end
