(* ===== verification/Aem_Status.thy ===== *)
theory Aem_Status
  imports Aem_Prelude
begin

text \<open>
  Status values (\<^verbatim>\<open>include/aemlib/status.h\<close>, \<^verbatim>\<open>core/status.c\<close>): a 32-bit word that packs a layer in
  its upper and a code in its lower half, the macros that build and take it apart, and the
  early-return macro. The lemmas make status comparisons decidable by rewriting, which every later
  theory relies on.
\<close>

section \<open>Layers and codes\<close>

datatype aemlib_status_layer =
    AEMLIB_LAYER_GENERAL
  | AEMLIB_LAYER_SYSTEM
  | AEMLIB_LAYER_IO
  | AEMLIB_LAYER_PROTOCOL
  | AEMLIB_LAYER_USER

datatype aemlib_status_code =
    AEMLIB_CODE_OK
  | AEMLIB_CODE_UNKNOWN
  | AEMLIB_CODE_INVALID_ARG
  | AEMLIB_CODE_NOT_INITIALIZED
  | AEMLIB_CODE_OUT_OF_MEMORY
  | AEMLIB_CODE_BUFFER_TOO_SMALL
  | AEMLIB_CODE_NOT_SUPPORTED
  | AEMLIB_CODE_STATE_INVALID
  | AEMLIB_CODE_WOULD_BLOCK
  | AEMLIB_CODE_INTERNAL
  | AEMLIB_CODE_CLOSED
  | AEMLIB_CODE_IO
  | AEMLIB_CODE_TIMEOUT
  | AEMLIB_CODE_CONNECT
  | AEMLIB_CODE_PROTOCOL
  | AEMLIB_CODE_MALFORMED
  | AEMLIB_CODE_UNSUPPORTED
  | AEMLIB_CODE_UNEXPECTED
  | AEMLIB_CODE_UNAVAILABLE

type_synonym aemlib_status_t = uint32

text \<open>The enumerators' integer values, as the conversion to \<^verbatim>\<open>uint32_t\<close> in the macros reads them.\<close>

fun layer_val :: "aemlib_status_layer \<Rightarrow> uint32" where
  "layer_val AEMLIB_LAYER_GENERAL = 0x0001"
| "layer_val AEMLIB_LAYER_SYSTEM = 0x0002"
| "layer_val AEMLIB_LAYER_IO = 0x0003"
| "layer_val AEMLIB_LAYER_PROTOCOL = 0x0004"
| "layer_val AEMLIB_LAYER_USER = 0x00FF"

fun code_val :: "aemlib_status_code \<Rightarrow> uint32" where
  "code_val AEMLIB_CODE_OK = 0"
| "code_val AEMLIB_CODE_UNKNOWN = 1"
| "code_val AEMLIB_CODE_INVALID_ARG = 2"
| "code_val AEMLIB_CODE_NOT_INITIALIZED = 3"
| "code_val AEMLIB_CODE_OUT_OF_MEMORY = 4"
| "code_val AEMLIB_CODE_BUFFER_TOO_SMALL = 5"
| "code_val AEMLIB_CODE_NOT_SUPPORTED = 6"
| "code_val AEMLIB_CODE_STATE_INVALID = 7"
| "code_val AEMLIB_CODE_WOULD_BLOCK = 8"
| "code_val AEMLIB_CODE_INTERNAL = 9"
| "code_val AEMLIB_CODE_CLOSED = 10"
| "code_val AEMLIB_CODE_IO = 11"
| "code_val AEMLIB_CODE_TIMEOUT = 12"
| "code_val AEMLIB_CODE_CONNECT = 13"
| "code_val AEMLIB_CODE_PROTOCOL = 14"
| "code_val AEMLIB_CODE_MALFORMED = 15"
| "code_val AEMLIB_CODE_UNSUPPORTED = 16"
| "code_val AEMLIB_CODE_UNEXPECTED = 17"
| "code_val AEMLIB_CODE_UNAVAILABLE = 18"

section \<open>The combined status word\<close>

definition AEMLIB_STATUS :: "aemlib_status_layer \<Rightarrow> aemlib_status_code \<Rightarrow> aemlib_status_t" where
  "AEMLIB_STATUS layer code =
     push_bit 16 (layer_val layer AND 0xFFFF) OR (code_val code AND 0xFFFF)"

definition AEMLIB_STATUS_LAYER :: "aemlib_status_t \<Rightarrow> uint32" where
  "AEMLIB_STATUS_LAYER status = drop_bit 16 status AND 0xFFFF"

definition AEMLIB_STATUS_CODE :: "aemlib_status_t \<Rightarrow> uint32" where
  "AEMLIB_STATUS_CODE status = status AND 0xFFFF"

definition AEMLIB_STATUS_OK :: aemlib_status_t where
  "AEMLIB_STATUS_OK = AEMLIB_STATUS AEMLIB_LAYER_GENERAL AEMLIB_CODE_OK"

text \<open>
  \<^verbatim>\<open>AEMLIB_CHECK_STATUS(status)\<close>: leave the function with \<^term>\<open>early\<close> when the status is not OK,
  go on with \<^term>\<open>rest\<close> otherwise.
\<close>

definition AEMLIB_CHECK_STATUS :: "aemlib_status_t \<Rightarrow> 'r \<Rightarrow> 'r \<Rightarrow> 'r" where
  "AEMLIB_CHECK_STATUS status early rest = (if status \<noteq> AEMLIB_STATUS_OK then early else rest)"

definition aemlib_status_str :: "aemlib_status_t \<Rightarrow> string" where
  "aemlib_status_str status = ''UNKNOWN''"

section \<open>Deciding status comparisons\<close>

lemma layer_val_inject [simp]: "layer_val l = layer_val l' \<longleftrightarrow> l = l'"
  by (cases l; cases l') simp_all

lemma code_val_inject [simp]: "code_val c = code_val c' \<longleftrightarrow> c = c'"
  by (cases c; cases c') simp_all

lemma AEMLIB_STATUS_CODE_STATUS [simp]: "AEMLIB_STATUS_CODE (AEMLIB_STATUS l c) = code_val c"
  by (cases l; cases c) (simp_all add: AEMLIB_STATUS_CODE_def AEMLIB_STATUS_def)

lemma AEMLIB_STATUS_LAYER_STATUS [simp]: "AEMLIB_STATUS_LAYER (AEMLIB_STATUS l c) = layer_val l"
  by (cases l; cases c) (simp_all add: AEMLIB_STATUS_LAYER_def AEMLIB_STATUS_def)

lemma AEMLIB_STATUS_inject [simp]: "AEMLIB_STATUS l c = AEMLIB_STATUS l' c' \<longleftrightarrow> l = l' \<and> c = c'"
  by (metis AEMLIB_STATUS_CODE_STATUS AEMLIB_STATUS_LAYER_STATUS code_val_inject layer_val_inject)

lemma AEMLIB_STATUS_eq_OK [simp]:
  "AEMLIB_STATUS l c = AEMLIB_STATUS_OK \<longleftrightarrow> l = AEMLIB_LAYER_GENERAL \<and> c = AEMLIB_CODE_OK"
  "AEMLIB_STATUS_OK = AEMLIB_STATUS l c \<longleftrightarrow> l = AEMLIB_LAYER_GENERAL \<and> c = AEMLIB_CODE_OK"
  by (auto simp: AEMLIB_STATUS_OK_def)

lemma AEMLIB_STATUS_CODE_OK [simp]: "AEMLIB_STATUS_CODE AEMLIB_STATUS_OK = code_val AEMLIB_CODE_OK"
  by (simp add: AEMLIB_STATUS_OK_def)

lemma AEMLIB_CHECK_STATUS_OK [simp]: "AEMLIB_CHECK_STATUS AEMLIB_STATUS_OK early rest = rest"
  by (simp add: AEMLIB_CHECK_STATUS_def)

lemma AEMLIB_CHECK_STATUS_err [simp]: "st \<noteq> AEMLIB_STATUS_OK \<Longrightarrow> AEMLIB_CHECK_STATUS st early rest = early"
  by (simp add: AEMLIB_CHECK_STATUS_def)

text \<open>A function that passes the status of a call on returns OK only behind the check.\<close>

lemma AEMLIB_CHECK_STATUS_returns_OK:
  "AEMLIB_CHECK_STATUS st (Some (st, x)) r = Some (AEMLIB_STATUS_OK, y) \<longleftrightarrow> st = AEMLIB_STATUS_OK \<and> r = Some (AEMLIB_STATUS_OK, y)"
  by (auto simp: AEMLIB_CHECK_STATUS_def)

lemma AEMLIB_CHECK_STATUS_cong [fundef_cong]:
  "st = st' \<Longrightarrow> (st' \<noteq> AEMLIB_STATUS_OK \<Longrightarrow> e = e') \<Longrightarrow> (st' = AEMLIB_STATUS_OK \<Longrightarrow> r = r') \<Longrightarrow>
   AEMLIB_CHECK_STATUS st e r = AEMLIB_CHECK_STATUS st' e' r'"
  by (simp add: AEMLIB_CHECK_STATUS_def)

text \<open>The status values the library returns, by the name the development uses for them.\<close>

abbreviation invalid_arg :: aemlib_status_t where
  "invalid_arg \<equiv> AEMLIB_STATUS AEMLIB_LAYER_GENERAL AEMLIB_CODE_INVALID_ARG"

abbreviation state_invalid :: aemlib_status_t where
  "state_invalid \<equiv> AEMLIB_STATUS AEMLIB_LAYER_GENERAL AEMLIB_CODE_STATE_INVALID"

abbreviation buffer_too_small :: aemlib_status_t where
  "buffer_too_small \<equiv> AEMLIB_STATUS AEMLIB_LAYER_PROTOCOL AEMLIB_CODE_BUFFER_TOO_SMALL"

abbreviation protocol_error :: aemlib_status_t where
  "protocol_error \<equiv> AEMLIB_STATUS AEMLIB_LAYER_PROTOCOL AEMLIB_CODE_PROTOCOL"

abbreviation malformed :: aemlib_status_t where
  "malformed \<equiv> AEMLIB_STATUS AEMLIB_LAYER_PROTOCOL AEMLIB_CODE_MALFORMED"

abbreviation io_would_block :: aemlib_status_t where
  "io_would_block \<equiv> AEMLIB_STATUS AEMLIB_LAYER_IO AEMLIB_CODE_WOULD_BLOCK"

abbreviation io_closed :: aemlib_status_t where
  "io_closed \<equiv> AEMLIB_STATUS AEMLIB_LAYER_IO AEMLIB_CODE_CLOSED"

abbreviation io_invalid_arg :: aemlib_status_t where
  "io_invalid_arg \<equiv> AEMLIB_STATUS AEMLIB_LAYER_IO AEMLIB_CODE_INVALID_ARG"

text \<open>\<^verbatim>\<open>AEMLIB_STATUS_CODE(status) == AEMLIB_CODE_WOULD_BLOCK\<close>, whatever the layer.\<close>

abbreviation would_block :: "aemlib_status_t \<Rightarrow> bool" where
  "would_block status \<equiv> AEMLIB_STATUS_CODE status = code_val AEMLIB_CODE_WOULD_BLOCK"

lemma would_block_not_OK: "would_block st \<Longrightarrow> st \<noteq> AEMLIB_STATUS_OK"
  by auto

end
