(* ===== verification/Aem_Platform.thy ===== *)
theory Aem_Platform
  imports Aem_Status
begin

text \<open>
  The interfaces the library is built on (\<^verbatim>\<open>include/aemlib/aemlib.h\<close>, \<^verbatim>\<open>platform/transport.h\<close>,
  \<^verbatim>\<open>platform/time_iface.h\<close>, \<^verbatim>\<open>platform/storage.h\<close>): structures of function pointers, the inline wrappers
  that call them, and their validation.

  A function pointer with its \<^verbatim>\<open>ctx\<close> is a function on a world \<open>'w\<close>, the state of everything behind the
  interfaces; a null pointer is \<^term>\<open>None\<close>. A buffer that is passed by pointer and length is passed as
  the rest of its object from that pointer on (\<open>mem\<close>) and the length: what the callee leaves of it is
  returned. A transport function itself may run into undefined behaviour, hence the options.
\<close>

section \<open>Structures\<close>

record 'w aemlib_transport =
  t_connect :: "('w \<Rightarrow> (aemlib_status_t \<times> 'w) option) option"
  t_disconnect :: "('w \<Rightarrow> (aemlib_status_t \<times> 'w) option) option"
  t_read :: "('w \<Rightarrow> mem \<Rightarrow> size_t \<Rightarrow> size_t \<Rightarrow> (aemlib_status_t \<times> mem \<times> size_t \<times> 'w) option) option"
  t_write :: "('w \<Rightarrow> mem \<Rightarrow> size_t \<Rightarrow> size_t \<Rightarrow> (aemlib_status_t \<times> size_t \<times> 'w) option) option"

record 'w aemlib_time =
  now_ms :: "('w \<Rightarrow> uint64 \<times> 'w) option"

record 'w aemlib_storage =
  write_record :: "('w \<Rightarrow> mem \<Rightarrow> size_t \<Rightarrow> aemlib_status_t \<times> 'w) option"
  read_record :: "('w \<Rightarrow> mem \<Rightarrow> size_t \<Rightarrow> size_t \<Rightarrow> aemlib_status_t \<times> mem \<times> size_t \<times> 'w) option"
  delete_record :: "('w \<Rightarrow> aemlib_status_t \<times> 'w) option"

text \<open>The message callback gets the topic and the payload bytes it may read.\<close>

type_synonym message = "byte list \<times> byte list"

type_synonym 'w aemlib_message_fn = "byte list \<Rightarrow> byte list \<Rightarrow> 'w \<Rightarrow> 'w"

section \<open>Transport wrappers\<close>

definition aemlib_transport_connect :: "'w aemlib_transport \<Rightarrow> 'w \<Rightarrow> (aemlib_status_t \<times> 'w) option" where
  "aemlib_transport_connect t w =
     (case t_connect t of None \<Rightarrow> Some (io_invalid_arg, w) | Some f \<Rightarrow> f w)"

definition aemlib_transport_disconnect :: "'w aemlib_transport \<Rightarrow> 'w \<Rightarrow> (aemlib_status_t \<times> 'w) option" where
  "aemlib_transport_disconnect t w =
     (case t_disconnect t of None \<Rightarrow> Some (io_invalid_arg, w) | Some f \<Rightarrow> f w)"

definition aemlib_transport_read ::
    "'w aemlib_transport \<Rightarrow> mem \<Rightarrow> size_t \<Rightarrow> size_t \<Rightarrow> 'w \<Rightarrow> (aemlib_status_t \<times> mem \<times> size_t \<times> 'w) option" where
  "aemlib_transport_read t buf buf_len out_len w =
     (case t_read t of None \<Rightarrow> Some (io_invalid_arg, buf, out_len, w) | Some f \<Rightarrow> f w buf buf_len out_len)"

definition aemlib_transport_write ::
    "'w aemlib_transport \<Rightarrow> mem \<Rightarrow> size_t \<Rightarrow> size_t \<Rightarrow> 'w \<Rightarrow> (aemlib_status_t \<times> size_t \<times> 'w) option" where
  "aemlib_transport_write t buf len out_len w =
     (case t_write t of None \<Rightarrow> Some (io_invalid_arg, out_len, w) | Some f \<Rightarrow> f w buf len out_len)"

definition aemlib_transport_validate :: "'w aemlib_transport option \<Rightarrow> aemlib_status_t" where
  "aemlib_transport_validate t =
     (case t of
        None \<Rightarrow> io_invalid_arg
      | Some t \<Rightarrow>
          if t_connect t = None \<or> t_disconnect t = None \<or> t_read t = None \<or> t_write t = None
          then io_invalid_arg else AEMLIB_STATUS_OK)"

section \<open>Time wrappers\<close>

definition aemlib_time_validate :: "'w aemlib_time option \<Rightarrow> aemlib_status_t" where
  "aemlib_time_validate t =
     (case t of
        None \<Rightarrow> AEMLIB_STATUS AEMLIB_LAYER_SYSTEM AEMLIB_CODE_INVALID_ARG
      | Some t \<Rightarrow>
          if now_ms t = None then AEMLIB_STATUS AEMLIB_LAYER_SYSTEM AEMLIB_CODE_INVALID_ARG
          else AEMLIB_STATUS_OK)"

definition aemlib_time_now :: "'w aemlib_time \<Rightarrow> 'w \<Rightarrow> uint64 \<times> 'w" where
  "aemlib_time_now t w = (case now_ms t of None \<Rightarrow> (0, w) | Some f \<Rightarrow> f w)"

section \<open>Storage wrappers\<close>

definition aemlib_storage_validate :: "'w aemlib_storage option \<Rightarrow> aemlib_status_t" where
  "aemlib_storage_validate s =
     (case s of
        None \<Rightarrow> io_invalid_arg
      | Some s \<Rightarrow>
          if write_record s \<noteq> None \<or> read_record s \<noteq> None \<or> delete_record s \<noteq> None
          then if write_record s = None \<or> read_record s = None \<or> delete_record s = None
               then io_invalid_arg else AEMLIB_STATUS_OK
          else AEMLIB_STATUS_OK)"

definition aemlib_storage_write :: "'w aemlib_storage option \<Rightarrow> mem \<Rightarrow> size_t \<Rightarrow> 'w \<Rightarrow> aemlib_status_t \<times> 'w" where
  "aemlib_storage_write s data len w =
     (case Option.bind s write_record of None \<Rightarrow> (io_invalid_arg, w) | Some f \<Rightarrow> f w data len)"

definition aemlib_storage_read ::
    "'w aemlib_storage option \<Rightarrow> mem \<Rightarrow> size_t \<Rightarrow> size_t \<Rightarrow> 'w \<Rightarrow> aemlib_status_t \<times> mem \<times> size_t \<times> 'w" where
  "aemlib_storage_read s buf buf_len out_len w =
     (case Option.bind s read_record of
        None \<Rightarrow> (io_invalid_arg, buf, out_len, w) | Some f \<Rightarrow> f w buf buf_len out_len)"

definition aemlib_storage_delete :: "'w aemlib_storage option \<Rightarrow> 'w \<Rightarrow> aemlib_status_t \<times> 'w" where
  "aemlib_storage_delete s w =
     (case Option.bind s delete_record of None \<Rightarrow> (io_invalid_arg, w) | Some f \<Rightarrow> f w)"

section \<open>Client and configuration\<close>

text \<open>The enumerators, and one more constructor for a stray value of the field.\<close>

datatype aemlib_state =
    AEMLIB_STATE_DISCONNECTED
  | AEMLIB_STATE_CONNECTING
  | AEMLIB_STATE_MQTT_CONNECT_SENT
  | AEMLIB_STATE_MQTT_CONNECTED
  | AEMLIB_STATE_MQTT_DISCONNECTING
  | AEMLIB_STATE_STRAY int

record 'w aemlib_client =
  c_state :: aemlib_state
  c_transport :: "'w aemlib_transport"
  c_time :: "'w aemlib_time"
  c_storage :: "'w aemlib_storage"
  c_tx_buffer :: "mem option"
  c_tx_buffer_size :: size_t
  c_rx_buffer :: "mem option"
  c_rx_buffer_size :: size_t
  c_last_activity_ms :: uint64
  c_keepalive_interval_ms :: uint64
  c_packet_id :: uint16
  c_connect_sent :: byte
  c_tx_pending_len :: size_t
  c_rx_len :: size_t
  c_on_message :: "'w aemlib_message_fn option"

record 'w aemlib_config =
  cfg_tx_buffer :: "mem option"
  cfg_tx_buffer_size :: size_t
  cfg_rx_buffer :: "mem option"
  cfg_rx_buffer_size :: size_t
  cfg_transport :: "'w aemlib_transport"
  cfg_time :: "'w aemlib_time"
  cfg_storage :: "'w aemlib_storage"
  cfg_keepalive_interval_ms :: uint64
  cfg_on_message :: "'w aemlib_message_fn option"

section \<open>The contract of a transport, a clock and a callback\<close>

text \<open>
  What the core and the client rely on. In worlds that satisfy \<open>inv\<close> no call runs into undefined
  behaviour and every call keeps \<open>inv\<close>. A read stores at most \<^verbatim>\<open>len\<close> bytes, changes nothing behind them
  and takes the bytes it reports from the front of \<open>inq\<close>, the bytes that have arrived; a write reports
  how many bytes from the front of its data it has appended to \<open>outq\<close>, the bytes accepted for the peer.
  A read or write that reports an error or WOULD_BLOCK moves nothing. Opening and closing the connection may
  replace the incoming bytes: a new connection has a stream of its own, and what a closed one had not delivered
  may be lost. Bytes that arrive while a call is running count as arriving after it.
\<close>

definition transport_of ::
    "('w \<Rightarrow> (aemlib_status_t \<times> 'w) option) \<Rightarrow> ('w \<Rightarrow> (aemlib_status_t \<times> 'w) option) \<Rightarrow>
     ('w \<Rightarrow> mem \<Rightarrow> size_t \<Rightarrow> size_t \<Rightarrow> (aemlib_status_t \<times> mem \<times> size_t \<times> 'w) option) \<Rightarrow>
     ('w \<Rightarrow> mem \<Rightarrow> size_t \<Rightarrow> size_t \<Rightarrow> (aemlib_status_t \<times> size_t \<times> 'w) option) \<Rightarrow> 'w aemlib_transport" where
  "transport_of conn disc rd wr =
     \<lparr>t_connect = Some conn, t_disconnect = Some disc, t_read = Some rd, t_write = Some wr\<rparr>"

locale transport_impl =
  fixes conn :: "'w \<Rightarrow> (aemlib_status_t \<times> 'w) option"
    and disc :: "'w \<Rightarrow> (aemlib_status_t \<times> 'w) option"
    and rd :: "'w \<Rightarrow> mem \<Rightarrow> size_t \<Rightarrow> size_t \<Rightarrow> (aemlib_status_t \<times> mem \<times> size_t \<times> 'w) option"
    and wr :: "'w \<Rightarrow> mem \<Rightarrow> size_t \<Rightarrow> size_t \<Rightarrow> (aemlib_status_t \<times> size_t \<times> 'w) option"
    and inv :: "'w \<Rightarrow> bool"
    and inq :: "'w \<Rightarrow> byte list"
    and outq :: "'w \<Rightarrow> byte list"
  assumes conn_ok: "inv w \<Longrightarrow> \<exists>st w'. conn w = Some (st, w') \<and> inv w' \<and> outq w' = outq w"
    and disc_ok: "inv w \<Longrightarrow> \<exists>st w'. disc w = Some (st, w') \<and> inv w' \<and> outq w' = outq w"
    and rd_ok: "inv w \<Longrightarrow> unat len \<le> length buf \<Longrightarrow> length buf < 2 ^ 63 \<Longrightarrow>
      \<exists>st buf' n w'. rd w buf len n0 = Some (st, buf', n, w') \<and> inv w' \<and> outq w' = outq w
        \<and> length buf' = length buf \<and> drop (unat len) buf' = drop (unat len) buf
        \<and> (if st = AEMLIB_STATUS_OK
           then unat n \<le> unat len \<and> unat n \<le> length (inq w)
             \<and> take (unat n) buf' = take (unat n) (inq w) \<and> inq w' = drop (unat n) (inq w)
           else inq w' = inq w)"
    and wr_ok: "inv w \<Longrightarrow> unat len \<le> length data \<Longrightarrow> length data < 2 ^ 63 \<Longrightarrow>
      \<exists>st n w'. wr w data len n0 = Some (st, n, w') \<and> inv w' \<and> inq w' = inq w
        \<and> (if st = AEMLIB_STATUS_OK then unat n \<le> unat len \<and> outq w' = outq w @ take (unat n) data
           else outq w' = outq w)"
begin

lemma wrappers:
  "aemlib_transport_connect (transport_of conn disc rd wr) w = conn w"
  "aemlib_transport_disconnect (transport_of conn disc rd wr) w = disc w"
  "aemlib_transport_read (transport_of conn disc rd wr) buf len n w = rd w buf len n"
  "aemlib_transport_write (transport_of conn disc rd wr) buf len n w = wr w buf len n"
  by (simp_all add: transport_of_def aemlib_transport_connect_def aemlib_transport_disconnect_def
        aemlib_transport_read_def aemlib_transport_write_def)

end

text \<open>
  The transport together with the clock and the message callback of a client. \<open>seen\<close> is the sequence of
  messages the callback has been given; only the callback adds to it.
\<close>

locale platform = transport_impl conn disc rd wr inv inq outq
  for conn :: "'w \<Rightarrow> (aemlib_status_t \<times> 'w) option" and disc and rd and wr and inv and inq and outq +
  fixes now :: "'w \<Rightarrow> uint64 \<times> 'w"
    and deliver :: "'w aemlib_message_fn"
    and seen :: "'w \<Rightarrow> message list"
  assumes now_ok: "inv w \<Longrightarrow> inv (snd (now w)) \<and> inq (snd (now w)) = inq w \<and> outq (snd (now w)) = outq w
      \<and> seen (snd (now w)) = seen w"
    and deliver_ok: "inv w \<Longrightarrow> inv (deliver topic payload w)
      \<and> inq (deliver topic payload w) = inq w \<and> outq (deliver topic payload w) = outq w
      \<and> seen (deliver topic payload w) = seen w @ [(topic, payload)]"
    and conn_seen: "inv w \<Longrightarrow> conn w = Some (st, w') \<Longrightarrow> seen w' = seen w"
    and disc_seen: "inv w \<Longrightarrow> disc w = Some (st, w') \<Longrightarrow> seen w' = seen w"
    and rd_seen: "inv w \<Longrightarrow> rd w buf len n0 = Some (st, buf', n, w') \<Longrightarrow> seen w' = seen w"
    and wr_seen: "inv w \<Longrightarrow> wr w data len n0 = Some (st, n, w') \<Longrightarrow> seen w' = seen w"

begin

lemma conn_keeps: "inv w \<Longrightarrow> \<exists>st w'. conn w = Some (st, w') \<and> inv w' \<and> outq w' = outq w \<and> seen w' = seen w"
  using conn_ok conn_seen by blast

lemma disc_keeps: "inv w \<Longrightarrow> \<exists>st w'. disc w = Some (st, w') \<and> inv w' \<and> outq w' = outq w \<and> seen w' = seen w"
  using disc_ok disc_seen by blast

lemma rd_keeps:
  assumes "inv w" "unat len \<le> length buf" "length buf < 2 ^ 63"
  shows "\<exists>st buf' n w'. rd w buf len n0 = Some (st, buf', n, w') \<and> inv w' \<and> outq w' = outq w \<and> seen w' = seen w
    \<and> length buf' = length buf
    \<and> (if st = AEMLIB_STATUS_OK
       then unat n \<le> unat len \<and> unat n \<le> length (inq w)
         \<and> take (unat n) buf' = take (unat n) (inq w) \<and> inq w' = drop (unat n) (inq w)
       else inq w' = inq w)"
  using rd_ok [OF assms, of n0] rd_seen [OF assms(1), of buf len n0] by blast

lemma wr_keeps:
  assumes "inv w" "unat len \<le> length data" "length data < 2 ^ 63"
  shows "\<exists>st n w'. wr w data len n0 = Some (st, n, w') \<and> inv w' \<and> inq w' = inq w \<and> seen w' = seen w
    \<and> (if st = AEMLIB_STATUS_OK then unat n \<le> unat len \<and> outq w' = outq w @ take (unat n) data
       else outq w' = outq w)"
  using wr_ok [OF assms, of n0] wr_seen [OF assms(1), of data len n0] by blast

end

end
