(* ===== verification/Aem_Mqtt_Constants.thy ===== *)
theory Aem_Mqtt_Constants
  imports Aem_Prelude
begin

text \<open>
  The constants of \<^verbatim>\<open>proto/proto.h\<close>. A macro that is an operand of word arithmetic takes the width of the
  place where it is used, as the integer constant does in C; shift widths and indices into a buffer are natural numbers.
\<close>

abbreviation (input) AEMLIB_MQTT_REMAINING_LENGTH_BASE :: "'a::len word" where
  "AEMLIB_MQTT_REMAINING_LENGTH_BASE \<equiv> 128"

abbreviation (input) AEMLIB_MQTT_REMAINING_LENGTH_MASK :: "'a::len word" where
  "AEMLIB_MQTT_REMAINING_LENGTH_MASK \<equiv> 0x7F"

abbreviation (input) AEMLIB_MQTT_REMAINING_LENGTH_CONTINUATION :: "'a::len word" where
  "AEMLIB_MQTT_REMAINING_LENGTH_CONTINUATION \<equiv> 0x80"

abbreviation (input) AEMLIB_MQTT_FIXED_HEADER_MIN_SIZE :: "'a::len word" where
  "AEMLIB_MQTT_FIXED_HEADER_MIN_SIZE \<equiv> 2"

abbreviation (input) AEMLIB_MQTT_FLAGS_MASK :: "'a::len word" where
  "AEMLIB_MQTT_FLAGS_MASK \<equiv> 0x0F"

abbreviation (input) AEMLIB_MQTT_UTF8_LENGTH_PREFIX_SIZE :: "'a::len word" where
  "AEMLIB_MQTT_UTF8_LENGTH_PREFIX_SIZE \<equiv> 2"

abbreviation (input) AEMLIB_MQTT_PROTOCOL_LEVEL :: "'a::len word" where
  "AEMLIB_MQTT_PROTOCOL_LEVEL \<equiv> 4"

abbreviation (input) AEMLIB_MQTT_CONNECT_CLEAN_SESSION :: "'a::len word" where
  "AEMLIB_MQTT_CONNECT_CLEAN_SESSION \<equiv> 0x02"

abbreviation (input) AEMLIB_MQTT_LOW_BYTE_MASK :: "'a::len word" where
  "AEMLIB_MQTT_LOW_BYTE_MASK \<equiv> 0xFF"

abbreviation (input) AEMLIB_MQTT_PINGREQ_LENGTH :: "'a::len word" where
  "AEMLIB_MQTT_PINGREQ_LENGTH \<equiv> 2"

abbreviation (input) AEMLIB_MQTT_PINGREQ_REMAINING_LENGTH :: "'a::len word" where
  "AEMLIB_MQTT_PINGREQ_REMAINING_LENGTH \<equiv> 0"

abbreviation (input) AEMLIB_MQTT_DISCONNECT_LENGTH :: "'a::len word" where
  "AEMLIB_MQTT_DISCONNECT_LENGTH \<equiv> 2"

abbreviation (input) AEMLIB_MQTT_DISCONNECT_REMAINING_LENGTH :: "'a::len word" where
  "AEMLIB_MQTT_DISCONNECT_REMAINING_LENGTH \<equiv> 0"

abbreviation (input) AEMLIB_MQTT_PUBLISH_FLAGS_QOS0 :: "'a::len word" where
  "AEMLIB_MQTT_PUBLISH_FLAGS_QOS0 \<equiv> 0x00"

abbreviation (input) AEMLIB_MQTT_SUBSCRIBE_FLAGS :: "'a::len word" where
  "AEMLIB_MQTT_SUBSCRIBE_FLAGS \<equiv> 0x02"

abbreviation (input) AEMLIB_MQTT_SUBSCRIBE_PAYLOAD_QOS :: "'a::len word" where
  "AEMLIB_MQTT_SUBSCRIBE_PAYLOAD_QOS \<equiv> 0"

abbreviation (input) AEMLIB_MQTT_CONNACK_MIN_SIZE :: "'a::len word" where
  "AEMLIB_MQTT_CONNACK_MIN_SIZE \<equiv> 4"

abbreviation (input) AEMLIB_MQTT_CONNACK_SESSION_PRESENT_MASK :: "'a::len word" where
  "AEMLIB_MQTT_CONNACK_SESSION_PRESENT_MASK \<equiv> 0x01"

abbreviation (input) AEMLIB_MQTT_SUBACK_MIN_SIZE :: "'a::len word" where
  "AEMLIB_MQTT_SUBACK_MIN_SIZE \<equiv> 5"

abbreviation (input) AEMLIB_MQTT_PACKET_TYPE_SHIFT :: nat where
  "AEMLIB_MQTT_PACKET_TYPE_SHIFT \<equiv> 4"

abbreviation (input) AEMLIB_MQTT_BYTE_SHIFT :: nat where
  "AEMLIB_MQTT_BYTE_SHIFT \<equiv> 8"

abbreviation (input) AEMLIB_MQTT_CONNACK_SESSION_BYTE_INDEX :: nat where
  "AEMLIB_MQTT_CONNACK_SESSION_BYTE_INDEX \<equiv> 2"

abbreviation (input) AEMLIB_MQTT_CONNACK_RETURN_CODE_INDEX :: nat where
  "AEMLIB_MQTT_CONNACK_RETURN_CODE_INDEX \<equiv> 3"

abbreviation (input) AEMLIB_MQTT_SUBACK_PACKET_ID_BYTE_1 :: nat where
  "AEMLIB_MQTT_SUBACK_PACKET_ID_BYTE_1 \<equiv> 2"

abbreviation (input) AEMLIB_MQTT_SUBACK_PACKET_ID_BYTE_2 :: nat where
  "AEMLIB_MQTT_SUBACK_PACKET_ID_BYTE_2 \<equiv> 3"

abbreviation (input) AEMLIB_MQTT_SUBACK_GRANTED_QOS_INDEX :: nat where
  "AEMLIB_MQTT_SUBACK_GRANTED_QOS_INDEX \<equiv> 4"

abbreviation (input) AEMLIB_MQTT_MAX_REMAINING_LENGTH_MULTIPLIER :: uint32 where
  "AEMLIB_MQTT_MAX_REMAINING_LENGTH_MULTIPLIER \<equiv>
     AEMLIB_MQTT_REMAINING_LENGTH_BASE * AEMLIB_MQTT_REMAINING_LENGTH_BASE * AEMLIB_MQTT_REMAINING_LENGTH_BASE"

abbreviation (input) AEMLIB_MQTT_REMAINING_LENGTH_MAX_BYTES :: size_t where
  "AEMLIB_MQTT_REMAINING_LENGTH_MAX_BYTES \<equiv> 4"

end
