(* ===== verification/Aem_Remaining_Length.thy ===== *)
theory Aem_Remaining_Length
  imports Aem_Status Aem_Mqtt_Constants
begin

text \<open>
  The variable-length integer of the MQTT fixed header (\<^verbatim>\<open>proto/proto.c\<close>, REMAINING LENGTH): the
  encoder and the decoder as the loops of the source, and their specifications on natural numbers,
  \<^verbatim>\<open>rl_bytes\<close> (the minimal base-128 digits) and \<^verbatim>\<open>rl_parse\<close> (at most four digits).
\<close>

section \<open>The loops of the source\<close>

text \<open>The do-while loop; \<^verbatim>\<open>*out_len\<close> is written only when the whole value has been stored.\<close>

function encode_remaining_length_loop ::
    "uint32 \<Rightarrow> mem \<Rightarrow> size_t \<Rightarrow> size_t \<Rightarrow> size_t \<Rightarrow> (aemlib_status_t \<times> mem \<times> size_t) option" where
  "encode_remaining_length_loop value buf buf_len out_len i =
     (if i \<ge> buf_len then Some (buffer_too_small, buf, out_len)
      else
        let encoded = (ucast (value mod AEMLIB_MQTT_REMAINING_LENGTH_BASE) :: byte);
            value = value div AEMLIB_MQTT_REMAINING_LENGTH_BASE;
            encoded = (if value > 0 then encoded OR AEMLIB_MQTT_REMAINING_LENGTH_CONTINUATION else encoded)
        in do {
          buf \<leftarrow> mem_write buf (unat i) encoded;
          if value > 0 then encode_remaining_length_loop value buf buf_len out_len (i + 1)
          else Some (AEMLIB_STATUS_OK, buf, i + 1)
        })"
  by pat_completeness auto
termination
proof (relation "measure (\<lambda>(value, _). unat value)", goal_cases)
  case (2 v buf buf_len out_len i)
  then show ?case
    by (simp add: unat_div word_less_nat_alt)
qed simp

definition aemlib_proto_encode_remaining_length ::
    "uint32 \<Rightarrow> mem \<Rightarrow> size_t \<Rightarrow> size_t \<Rightarrow> (aemlib_status_t \<times> mem \<times> size_t) option" where
  "aemlib_proto_encode_remaining_length value buf buf_len out_len =
     encode_remaining_length_loop value buf buf_len out_len 0"

text \<open>The while loop; \<^verbatim>\<open>*value\<close> and \<^verbatim>\<open>*consumed\<close> are written on success only.\<close>

function decode_remaining_length_loop ::
    "mem \<Rightarrow> size_t \<Rightarrow> uint32 \<Rightarrow> size_t \<Rightarrow> size_t \<Rightarrow> uint32 \<Rightarrow> uint32 \<Rightarrow>
     (aemlib_status_t \<times> uint32 \<times> size_t) option" where
  "decode_remaining_length_loop buf buf_len value consumed i multiplier result =
     (if i < buf_len then do {
        byte \<leftarrow> mem_read buf (unat i);
        let i' = i + 1;
            result' = result + ucast (byte AND AEMLIB_MQTT_REMAINING_LENGTH_MASK) * multiplier
        in if multiplier > AEMLIB_MQTT_MAX_REMAINING_LENGTH_MULTIPLIER
           then Some (protocol_error, value, consumed)
           else if byte AND AEMLIB_MQTT_REMAINING_LENGTH_CONTINUATION = 0 then Some (AEMLIB_STATUS_OK, result', i')
           else decode_remaining_length_loop buf buf_len value consumed i' (multiplier * AEMLIB_MQTT_REMAINING_LENGTH_BASE) result'
      }
      else Some (buffer_too_small, value, consumed))"
  by pat_completeness auto
termination
  by (relation "measure (\<lambda>(buf, buf_len, value, consumed, i, _). unat buf_len - unat i)")
     (auto simp: unat_rules word_less_nat_alt)

definition aemlib_proto_decode_remaining_length ::
    "mem \<Rightarrow> size_t \<Rightarrow> uint32 \<Rightarrow> size_t \<Rightarrow> (aemlib_status_t \<times> uint32 \<times> size_t) option" where
  "aemlib_proto_decode_remaining_length buf buf_len value consumed =
     decode_remaining_length_loop buf buf_len value consumed 0 1 0"

declare encode_remaining_length_loop.simps [simp del]
declare decode_remaining_length_loop.simps [simp del]

section \<open>Specification on natural numbers\<close>

fun rl_bytes :: "nat \<Rightarrow> byte list" where
  "rl_bytes n = (if n < 128 then [of_nat n] else of_nat (n mod 128 + 128) # rl_bytes (n div 128))"

declare rl_bytes.simps [simp del]

datatype rl_result = RL_Incomplete | RL_Overlong | RL_Done nat nat

fun rl_parse :: "nat \<Rightarrow> nat \<Rightarrow> byte list \<Rightarrow> rl_result" where
  "rl_parse k acc [] = RL_Incomplete"
| "rl_parse k acc (b # bs) =
     (if 4 \<le> k then RL_Overlong
      else if unat b < 128 then RL_Done (acc + unat b * 128 ^ k) (Suc k)
      else rl_parse (Suc k) (acc + (unat b mod 128) * 128 ^ k) bs)"

lemma length_rl_bytes_pos [simp]: "0 < length (rl_bytes n)" "rl_bytes n \<noteq> []"
  by (subst rl_bytes.simps, simp)+

lemma length_rl_bytes_le: "length (rl_bytes n) \<le> Suc k \<longleftrightarrow> n < 128 ^ Suc k"
proof (induction k arbitrary: n)
  case 0
  then show ?case by (subst rl_bytes.simps) simp
next
  case (Suc k)
  show ?case
  proof (cases "n < 128")
    case True
    then have "n < 128 ^ Suc (Suc k)"
      by (rule less_le_trans) simp
    with True show ?thesis by (subst rl_bytes.simps) simp
  next
    case False
    then have "length (rl_bytes n) = Suc (length (rl_bytes (n div 128)))"
      by (subst rl_bytes.simps) simp
    moreover have "n div 128 < 128 ^ Suc k \<longleftrightarrow> n < 128 ^ Suc (Suc k)"
      by (simp add: div_less_iff_less_mult mult.commute)
    ultimately show ?thesis by (simp add: Suc.IH)
  qed
qed

lemma rl_parse_bytes:
  assumes "k + length (rl_bytes n) \<le> 4"
  shows "rl_parse k acc (rl_bytes n @ rest) = RL_Done (acc + n * 128 ^ k) (k + length (rl_bytes n))"
  using assms
proof (induction n arbitrary: k acc rule: rl_bytes.induct)
  case (1 n)
  show ?case
  proof (cases "n < 128")
    case True
    then have "unat (of_nat n :: byte) = n" by (simp add: unat_of_nat)
    with True "1.prems" show ?thesis
      by (subst rl_bytes.simps, subst (asm) rl_bytes.simps, subst rl_bytes.simps) simp
  next
    case False
    then have unfold: "rl_bytes n = of_nat (n mod 128 + 128) # rl_bytes (n div 128)"
      by (subst rl_bytes.simps) simp
    have byte: "unat (of_nat (n mod 128 + 128) :: byte) = n mod 128 + 128"
      by (simp only: unat_of_nat) simp
    have "acc + n mod 128 * 128 ^ k + (n div 128) * 128 ^ Suc k = acc + n * 128 ^ k"
    proof -
      have "n mod 128 * 128 ^ k + (n div 128) * 128 ^ Suc k = (n mod 128 + 128 * (n div 128)) * 128 ^ k"
        by (simp only: distrib_right distrib_left power_Suc mult_ac)
      then show ?thesis by simp
    qed
    moreover from unfold "1.prems" have "Suc k + length (rl_bytes (n div 128)) \<le> 4" by simp
    ultimately show ?thesis
      using "1.IH" [OF False] "1.prems" unfold byte by (simp add: unfold)
  qed
qed

lemma rl_parse_bound:
  "rl_parse k acc bs = RL_Done v u \<Longrightarrow> acc < 128 ^ k \<Longrightarrow> k < u \<and> u \<le> 4 \<and> v < 128 ^ u \<and> u \<le> k + length bs"
proof (induction k acc bs rule: rl_parse.induct)
  case (2 k acc b bs)
  have step: "acc + m * 128 ^ k < 128 ^ Suc k" if "m < 128" for m
  proof -
    from "2.prems"(2) have "acc + m * 128 ^ k < Suc m * 128 ^ k" by simp
    also from that have "\<dots> \<le> 128 * 128 ^ k" by (intro mult_right_mono) auto
    finally show ?thesis by simp
  qed
  show ?case
  proof (cases "unat b < 128")
    case True
    with "2.prems" step [of "unat b"] show ?thesis by (auto split: if_splits)
  next
    case False
    with "2.prems" have "rl_parse (Suc k) (acc + (unat b mod 128) * 128 ^ k) bs = RL_Done v u" "\<not> 4 \<le> k"
      by (auto split: if_splits)
    with "2.IH" False step [of "unat b mod 128"] show ?thesis by fastforce
  qed
qed simp

text \<open>Bytes beyond the ones used do not matter, and a decided prefix stays decided.\<close>

lemma rl_parse_append: "rl_parse k acc bs \<noteq> RL_Incomplete \<Longrightarrow> rl_parse k acc (bs @ cs) = rl_parse k acc bs"
  by (induction k acc bs rule: rl_parse.induct) auto

section \<open>Bytes of the encoding\<close>

lemma byte_low_bits: "unat (b AND 0x7F :: byte) = unat b mod 128"
proof -
  have "b AND 0x7F = take_bit 7 b" by (simp add: take_bit_eq_mask mask_eq_exp_minus_1)
  then show ?thesis by (simp add: take_bit_eq_mod unat_mod)
qed

lemma byte_continuation: "b AND 0x80 = (0 :: byte) \<longleftrightarrow> unat b < 128"
proof -
  have "b AND 0x80 = 0 \<longleftrightarrow> \<not> bit b 7"
    using and_exp_eq_0_iff_not_bit [of b 7] by simp
  also have "\<dots> \<longleftrightarrow> \<not> bit (unat b) 7" by (simp add: bit_unsigned_iff)
  also have "\<dots> \<longleftrightarrow> even (unat b div 128)" by (simp add: bit_iff_odd)
  also have "\<dots> \<longleftrightarrow> unat b < 128"
  proof -
    have "unat b div 128 < 2" using unat_byte_lt [of b] by simp
    then show ?thesis by (auto simp: less_2_cases_iff div_eq_0_iff)
  qed
  finally show ?thesis .
qed

lemma encoded_byte: "(ucast (v mod 128 :: uint32) :: byte) = of_nat (unat v mod 128)"
  by (rule word_unat_eq_iff [THEN iffD2]) (simp add: unsigned_ucast_eq take_bit_eq_mod unat_mod unat_of_nat)


lemma encoded_byte_more: "(of_nat (n mod 128) :: byte) OR 0x80 = of_nat (n mod 128 + 128)"
proof -
  have "n mod 128 < 128" by simp
  then have "(of_nat (n mod 128) :: byte) AND 0x80 = 0"
    by (simp add: byte_continuation unat_of_nat)
  then show ?thesis by (simp add: disjunctive_add_eq_or [symmetric])
qed

section \<open>The loops compute the specification\<close>

lemma rl_bytes_word:
  "rl_bytes (unat v) =
     (if v div 128 > 0 then of_nat (unat v mod 128 + 128) # rl_bytes (unat (v div 128)) else [of_nat (unat v)])"
  for v :: uint32
  by (subst rl_bytes.simps) (auto simp: word_less_nat_alt unat_div div_eq_0_iff)

lemma encode_remaining_length_loop_spec:
  assumes "unat i \<le> unat buf_len" "unat buf_len \<le> length buf"
  shows "encode_remaining_length_loop v buf buf_len out_len i =
    (let bs = rl_bytes (unat v); fits = unat i + length bs \<le> unat buf_len in
    Some (if fits then AEMLIB_STATUS_OK else buffer_too_small,
          overwrite (unat i) (take (unat buf_len - unat i) bs) buf,
          if fits then i + of_nat (length bs) else out_len))"
  using assms
proof (induction "unat v" arbitrary: v buf i rule: less_induct)
  case less
  show ?case
  proof (cases "i \<ge> buf_len")
    case True
    then have "\<not> length (rl_bytes (unat v)) \<le> unat buf_len - unat i"
      using length_rl_bytes_pos(1) [of "unat v"] by (simp add: word_le_nat_alt)
    with True less.prems show ?thesis
      by (subst encode_remaining_length_loop.simps) (simp add: word_le_nat_alt)
  next
    case False
    then have lt: "unat i < unat buf_len" and inc: "unat (i + 1) = unat i + 1"
      using unat_inc_size [of i buf_len] by (simp_all add: word_le_nat_alt word_less_nat_alt)
    then obtain m where m: "unat buf_len - unat i = Suc m" "unat buf_len - unat (i + 1) = m"
      by (cases "unat buf_len - unat i") auto
    show ?thesis
    proof (cases "v div 128 > 0")
      case True
      let ?b = "of_nat (unat v mod 128 + 128) :: byte"
      have "encode_remaining_length_loop v buf buf_len out_len i =
            encode_remaining_length_loop (v div 128) (buf[unat i := ?b]) buf_len out_len (i + 1)"
        using False True lt less.prems
        by (subst encode_remaining_length_loop.simps) (simp add: c_mem encoded_byte encoded_byte_more)
      moreover have "unat (v div 128) < unat v"
        using True by (simp add: unat_div word_less_nat_alt)
      moreover have "rl_bytes (unat v) = ?b # rl_bytes (unat (v div 128))"
        using True by (simp add: rl_bytes_word)
      ultimately show ?thesis
        using less.hyps [of "v div 128" "i + 1" "buf[unat i := ?b]"] less.prems lt m inc
        by (simp add: Let_def overwrite_Cons add.assoc)
    next
      case f: False
      then have "unat v < 128"
        by (simp add: word_less_nat_alt unat_div div_eq_0_iff)
      with False f lt m less.prems show ?thesis
        by (subst encode_remaining_length_loop.simps)
           (simp add: c_mem encoded_byte rl_bytes_word update_overwrite Let_def)
    qed
  qed
qed

text \<open>The status and the outputs of the decoder, for each outcome of the specification.\<close>

fun rl_outcome :: "uint32 \<Rightarrow> size_t \<Rightarrow> rl_result \<Rightarrow> aemlib_status_t \<times> uint32 \<times> size_t" where
  "rl_outcome v c RL_Incomplete = (buffer_too_small, v, c)"
| "rl_outcome v c RL_Overlong = (protocol_error, v, c)"
| "rl_outcome v c (RL_Done n u) = (AEMLIB_STATUS_OK, of_nat n, of_nat u)"

lemma rl_multiplier_check: "k \<le> 4 \<Longrightarrow> (2097152 :: uint32) < 128 ^ k \<longleftrightarrow> 4 \<le> k"
  by (cases "k = 0 \<or> k = 1 \<or> k = 2 \<or> k = 3 \<or> k = 4") auto

lemma ucast_low_bits: "(ucast (b AND 0x7F :: byte) :: uint32) = of_nat (unat b mod 128)"
  by (metis byte_low_bits of_nat_unat)

lemma decode_remaining_length_loop_spec:
  assumes "unat buf_len \<le> length buf" "unat i = k" "k \<le> 4" "k \<le> unat buf_len"
  shows "decode_remaining_length_loop buf buf_len v c i (128 ^ k) (of_nat acc) =
    Some (rl_outcome v c (rl_parse k acc (drop k (take (unat buf_len) buf))))"
  using assms
proof (induction "unat buf_len - k" arbitrary: k i acc)
  case 0
  then show ?case by (subst decode_remaining_length_loop.simps) (simp add: word_less_nat_alt)
next
  case (Suc n)
  then have lt: "i < buf_len" and k: "k < length buf" "k < unat buf_len" by (simp_all add: word_less_nat_alt)
  have drop: "drop k (take (unat buf_len) buf) = buf ! k # drop (Suc k) (take (unat buf_len) buf)"
    using k by (simp add: Cons_nth_drop_Suc [symmetric])
  have step: "decode_remaining_length_loop buf buf_len v c (i + 1) (128 ^ Suc k) (of_nat (acc + (unat (buf ! k) mod 128) * 128 ^ k))
     = Some (rl_outcome v c (rl_parse (Suc k) (acc + (unat (buf ! k) mod 128) * 128 ^ k) (drop (Suc k) (take (unat buf_len) buf))))" if "k < 4"
    using Suc lt that by (intro Suc.hyps(1)) (simp_all add: unat_rules)
  show ?case
    using lt k Suc.prems step
    by (subst decode_remaining_length_loop.simps)
       (auto simp: c_mem drop rl_multiplier_check byte_continuation ucast_low_bits unat_rules Let_def mult.commute)
qed

lemma encode_remaining_length_spec:
  assumes "unat buf_len \<le> length buf"
  shows "aemlib_proto_encode_remaining_length v buf buf_len out_len =
    (let bs = rl_bytes (unat v) in
     if length bs \<le> unat buf_len
     then Some (AEMLIB_STATUS_OK, overwrite 0 bs buf, of_nat (length bs))
     else Some (buffer_too_small, overwrite 0 (take (unat buf_len) bs) buf, out_len))"
  using encode_remaining_length_loop_spec [of 0 buf_len buf v out_len] assms
  by (simp add: aemlib_proto_encode_remaining_length_def Let_def)

lemma decode_remaining_length_spec:
  assumes "unat buf_len \<le> length buf"
  shows "aemlib_proto_decode_remaining_length buf buf_len v c =
    Some (rl_outcome v c (rl_parse 0 0 (take (unat buf_len) buf)))"
  using decode_remaining_length_loop_spec [of buf_len buf 0 0 v c 0] assms
  by (simp add: aemlib_proto_decode_remaining_length_def)

text \<open>Whatever the buffer, a successful decoding uses one to four bytes.\<close>

lemma decode_remaining_length_loop_used:
  assumes "decode_remaining_length_loop buf buf_len v c i (128 ^ k) acc = Some (AEMLIB_STATUS_OK, v', u)"
    and "unat i = k" "k \<le> 4"
  shows "k < unat u \<and> unat u \<le> 4"
  using assms
proof (induction "4 - k" arbitrary: k i acc)
  case 0
  then have "k = 4" by simp
  then show ?case
    using "0.prems"(1) by (subst (asm) decode_remaining_length_loop.simps) (auto simp: bind_Some_iff split: if_splits)
next
  case (Suc m)
  then have inc: "unat (i + 1) = k + 1" by (subst unat_add_size) simp_all
  have "u = i + 1 \<or> decode_remaining_length_loop buf buf_len v c (i + 1) (128 ^ Suc k) acc' = Some (AEMLIB_STATUS_OK, v', u)"
    if "acc' = acc + ucast (buf ! unat i AND 0x7F) * 128 ^ k" for acc'
    using Suc.prems(1) that
    by (subst (asm) decode_remaining_length_loop.simps)
       (auto simp: bind_Some_iff mem_read_def mult.commute Let_def split: if_splits)
  then show ?case using Suc.hyps(1) [of "Suc k" "i + 1"] Suc.hyps(2) Suc.prems inc by fastforce
qed

lemma decode_remaining_length_used:
  assumes "aemlib_proto_decode_remaining_length buf buf_len v c = Some (AEMLIB_STATUS_OK, v', u)"
  shows "0 < unat u \<and> unat u \<le> 4"
  using assms decode_remaining_length_loop_used [of buf buf_len v c 0 0 0]
  by (simp add: aemlib_proto_decode_remaining_length_def)

lemma length_rl_bytes_4: "length (rl_bytes n) \<le> 4 \<longleftrightarrow> n < 2 ^ 28"
  using length_rl_bytes_le [of n 3] by simp

section \<open>Properties\<close>

text \<open>
  C25: whatever a value below \<open>2 ^ 28\<close> and the bytes that follow it, the decoder reads back exactly
  the value the encoder stored and reports exactly the number of bytes the encoder used (one to
  four); neither leaves its buffer. The bytes after the encoding are left as they were.
\<close>

theorem remaining_length_roundtrip:
  assumes "unat v < 2 ^ 28" "4 \<le> unat buf_len" "unat buf_len \<le> length buf"
  shows "\<exists>buf' n. aemlib_proto_encode_remaining_length v buf buf_len out_len = Some (AEMLIB_STATUS_OK, buf', n)
    \<and> 1 \<le> unat n \<and> unat n \<le> 4 \<and> drop (unat n) buf' = drop (unat n) buf
    \<and> aemlib_proto_decode_remaining_length buf' buf_len v0 c0 = Some (AEMLIB_STATUS_OK, v, n)"
proof -
  let ?bs = "rl_bytes (unat v)"
  have len: "length ?bs \<le> 4" using assms(1) by (simp add: length_rl_bytes_4)
  then have n: "unat (of_nat (length ?bs) :: size_t) = length ?bs" by (simp add: unat_rules)
  have "take (unat buf_len) (overwrite 0 ?bs buf) = ?bs @ take (unat buf_len - length ?bs) (drop (length ?bs) buf)"
    using len assms by (simp add: overwrite_def)
  then have "rl_parse 0 0 (take (unat buf_len) (overwrite 0 ?bs buf)) = RL_Done (unat v) (length ?bs)"
    using len by (simp add: rl_parse_bytes)
  then show ?thesis
    using assms len n
    by (auto simp: encode_remaining_length_spec decode_remaining_length_spec Let_def overwrite_def Suc_leI)
qed

theorem remaining_length_roundtrip_witness:
  "\<exists>buf' n. aemlib_proto_encode_remaining_length 321 [7, 7, 7, 7, 9] 5 0 = Some (AEMLIB_STATUS_OK, buf', n)
    \<and> 1 \<le> unat n \<and> unat n \<le> 4 \<and> drop (unat n) buf' = drop (unat n) [7, 7, 7, 7, 9]
    \<and> aemlib_proto_decode_remaining_length buf' 5 0 0 = Some (AEMLIB_STATUS_OK, 321, n)"
  by (rule remaining_length_roundtrip) simp_all

text \<open>
  With the four-byte scratch buffer of the packet encoders, the remaining length is encoded
  exactly when it is below \<open>2 ^ 28\<close>; otherwise the call reports BUFFER_TOO_SMALL and leaves
  \<^verbatim>\<open>*out_len\<close> alone. No value of the 32-bit argument makes it write out of bounds.
\<close>

lemma encode_remaining_length_four_bytes:
  assumes "length buf = 4"
  shows "(unat v < 2 ^ 28 \<longrightarrow> aemlib_proto_encode_remaining_length v buf 4 out_len
       = Some (AEMLIB_STATUS_OK, rl_bytes (unat v) @ drop (length (rl_bytes (unat v))) buf, of_nat (length (rl_bytes (unat v)))))
    \<and> (\<not> unat v < 2 ^ 28 \<longrightarrow> aemlib_proto_encode_remaining_length v buf 4 out_len
       = Some (buffer_too_small, take 4 (rl_bytes (unat v)), out_len))"
proof -
  have "length (rl_bytes (unat v)) \<le> 4 \<longleftrightarrow> unat v < 2 ^ 28" by (rule length_rl_bytes_4)
  with assms show ?thesis
    by (auto simp: encode_remaining_length_spec Let_def overwrite_def)
qed

lemma encode_remaining_length_four_bytes_witness:
  "aemlib_proto_encode_remaining_length 0x0FFFFFFF [0, 0, 0, 0] 4 0 = Some (AEMLIB_STATUS_OK, [0xFF, 0xFF, 0xFF, 0x7F], 4)
   \<and> aemlib_proto_encode_remaining_length 0x10000000 [0, 0, 0, 0] 4 0 = Some (buffer_too_small, [0x80, 0x80, 0x80, 0x80], 0)"
  using encode_remaining_length_four_bytes [of "[0, 0, 0, 0]" "0x0FFFFFFF" 0]
    encode_remaining_length_four_bytes [of "[0, 0, 0, 0]" "0x10000000" 0]
  by (simp add: rl_bytes.simps)

text \<open>
  C26: the decoder never reads outside the first \<^verbatim>\<open>buf_len\<close> bytes, and what it accepts is a value
  below \<open>2 ^ 28\<close> in at most four bytes, all of them inside the buffer; in particular its 32-bit
  accumulator has not wrapped, because the value is the one the specification computes on naturals.
\<close>

theorem decode_remaining_length_bounds:
  assumes "unat buf_len \<le> length buf"
  shows "(\<exists>st v' c'. aemlib_proto_decode_remaining_length buf buf_len v c = Some (st, v', c')
      \<and> st \<in> {AEMLIB_STATUS_OK, buffer_too_small, protocol_error})
    \<and> (\<forall>v' c'. aemlib_proto_decode_remaining_length buf buf_len v c = Some (AEMLIB_STATUS_OK, v', c') \<longrightarrow>
      rl_parse 0 0 (take (unat buf_len) buf) = RL_Done (unat v') (unat c')
      \<and> unat v' < 2 ^ 28 \<and> 1 \<le> unat c' \<and> unat c' \<le> 4 \<and> unat c' \<le> unat buf_len)"
proof (cases "rl_parse 0 0 (take (unat buf_len) buf)")
  case (RL_Done n u)
  then have b: "0 < u" "u \<le> 4" "n < 128 ^ u" "u \<le> unat buf_len"
    using rl_parse_bound [of 0 0 "take (unat buf_len) buf" n u] by simp_all
  moreover have "n < 2 ^ 28"
    using b(3) power_increasing [OF b(2), of "128 :: nat"] by simp
  ultimately show ?thesis
    using assms RL_Done by (auto simp: decode_remaining_length_spec unat_of_nat Suc_leI)
qed (simp_all add: decode_remaining_length_spec assms)

theorem decode_remaining_length_bounds_witness:
  "rl_parse 0 0 [0xC1, 0x02] = RL_Done 321 2 \<and> unat (321 :: uint32) < 2 ^ 28 \<and> 1 \<le> unat (2 :: size_t)"
proof -
  have "aemlib_proto_decode_remaining_length [0xC1, 0x02, 0xFF] 2 0 0 = Some (AEMLIB_STATUS_OK, 321, 2)"
    by (simp add: decode_remaining_length_spec)
  then show ?thesis
    using decode_remaining_length_bounds [of 2 "[0xC1, 0x02, 0xFF]" 0 0] by simp
qed

end
