(* ===== verification/Aem_Proto.thy ===== *)
theory Aem_Proto
  imports Aem_Remaining_Length
begin

text \<open>
  The packet layer (\<^verbatim>\<open>proto/proto.h\<close>, \<^verbatim>\<open>proto/proto.c\<close>): the internal append helpers, the flag check,
  the UTF-8 string writer, the fixed header decoder, the five encoders and the three packet decoders,
  each as one definition. An encoder takes the output buffer, its length and the old value of
  \<^verbatim>\<open>*out_len\<close> and returns the status, the buffer as it is left and the new \<^verbatim>\<open>*out_len\<close>; a failed
  call may have overwritten part of the buffer, and the model keeps that.
\<close>

section \<open>Internal helpers\<close>

definition ensure_space :: "size_t \<Rightarrow> size_t \<Rightarrow> size_t \<Rightarrow> aemlib_status_t" where
  "ensure_space needed offset buf_len =
     (if offset + needed > buf_len then buffer_too_small else AEMLIB_STATUS_OK)"

definition reserve_space :: "size_t \<Rightarrow> size_t \<Rightarrow> size_t \<Rightarrow> aemlib_status_t \<times> size_t" where
  "reserve_space offset sz buf_len =
     (let status = ensure_space sz offset buf_len in
      AEMLIB_CHECK_STATUS status (status, offset) (AEMLIB_STATUS_OK, offset + sz))"

definition append_byte :: "mem \<Rightarrow> size_t \<Rightarrow> size_t \<Rightarrow> byte \<Rightarrow> (aemlib_status_t \<times> mem \<times> size_t) option" where
  "append_byte buf offset buf_len v =
     (let status = ensure_space 1 offset buf_len in
      AEMLIB_CHECK_STATUS status (Some (status, buf, offset)) (do {
        buf \<leftarrow> mem_write buf (unat offset) v;
        Some (AEMLIB_STATUS_OK, buf, offset + 1)
      }))"

definition append_uint16_be :: "mem \<Rightarrow> size_t \<Rightarrow> size_t \<Rightarrow> uint16 \<Rightarrow> (aemlib_status_t \<times> mem \<times> size_t) option" where
  "append_uint16_be buf offset buf_len v =
     (let status = ensure_space 2 offset buf_len in
      AEMLIB_CHECK_STATUS status (Some (status, buf, offset)) (do {
        buf \<leftarrow> mem_write buf (unat offset) (ucast (drop_bit AEMLIB_MQTT_BYTE_SHIFT v));
        buf \<leftarrow> mem_write buf (unat (offset + 1)) (ucast (v AND AEMLIB_MQTT_LOW_BYTE_MASK));
        Some (AEMLIB_STATUS_OK, buf, offset + 1 + 1)
      }))"

section \<open>Packet types and flags\<close>

text \<open>The enumerators, and one more constructor for a value the enumeration does not list.\<close>

datatype aemlib_mqtt_packet_type =
    AEMLIB_MQTT_PKT_CONNECT
  | AEMLIB_MQTT_PKT_CONNACK
  | AEMLIB_MQTT_PKT_PUBLISH
  | AEMLIB_MQTT_PKT_PUBACK
  | AEMLIB_MQTT_PKT_SUBSCRIBE
  | AEMLIB_MQTT_PKT_SUBACK
  | AEMLIB_MQTT_PKT_PINGREQ
  | AEMLIB_MQTT_PKT_PINGRESP
  | AEMLIB_MQTT_PKT_DISCONNECT
  | AEMLIB_MQTT_PKT_UNLISTED byte

fun packet_type_val :: "aemlib_mqtt_packet_type \<Rightarrow> byte" where
  "packet_type_val AEMLIB_MQTT_PKT_CONNECT = 1"
| "packet_type_val AEMLIB_MQTT_PKT_CONNACK = 2"
| "packet_type_val AEMLIB_MQTT_PKT_PUBLISH = 3"
| "packet_type_val AEMLIB_MQTT_PKT_PUBACK = 4"
| "packet_type_val AEMLIB_MQTT_PKT_SUBSCRIBE = 8"
| "packet_type_val AEMLIB_MQTT_PKT_SUBACK = 9"
| "packet_type_val AEMLIB_MQTT_PKT_PINGREQ = 12"
| "packet_type_val AEMLIB_MQTT_PKT_PINGRESP = 13"
| "packet_type_val AEMLIB_MQTT_PKT_DISCONNECT = 14"
| "packet_type_val (AEMLIB_MQTT_PKT_UNLISTED b) = b"

text \<open>The cast \<^verbatim>\<open>(aemlib_mqtt_packet_type_t)b\<close>.\<close>

definition packet_type_of :: "byte \<Rightarrow> aemlib_mqtt_packet_type" where
  "packet_type_of b =
     (if b = 1 then AEMLIB_MQTT_PKT_CONNECT
      else if b = 2 then AEMLIB_MQTT_PKT_CONNACK
      else if b = 3 then AEMLIB_MQTT_PKT_PUBLISH
      else if b = 4 then AEMLIB_MQTT_PKT_PUBACK
      else if b = 8 then AEMLIB_MQTT_PKT_SUBSCRIBE
      else if b = 9 then AEMLIB_MQTT_PKT_SUBACK
      else if b = 12 then AEMLIB_MQTT_PKT_PINGREQ
      else if b = 13 then AEMLIB_MQTT_PKT_PINGRESP
      else if b = 14 then AEMLIB_MQTT_PKT_DISCONNECT
      else AEMLIB_MQTT_PKT_UNLISTED b)"

fun validate_mqtt_flags :: "aemlib_mqtt_packet_type \<Rightarrow> byte \<Rightarrow> aemlib_status_t" where
  "validate_mqtt_flags AEMLIB_MQTT_PKT_PUBLISH flags =
     (let qos = drop_bit 1 flags AND 0x03 in
      if qos = 0x03 then protocol_error else AEMLIB_STATUS_OK)"
| "validate_mqtt_flags AEMLIB_MQTT_PKT_SUBSCRIBE flags =
     (if flags \<noteq> 0x02 then protocol_error else AEMLIB_STATUS_OK)"
| "validate_mqtt_flags (AEMLIB_MQTT_PKT_UNLISTED b) flags = protocol_error"
| "validate_mqtt_flags _ flags =
     (if flags \<noteq> 0x00 then protocol_error else AEMLIB_STATUS_OK)"

section \<open>UTF-8 strings\<close>

definition aemlib_proto_write_utf8 ::
    "mem \<Rightarrow> size_t \<Rightarrow> size_t \<Rightarrow> mem \<Rightarrow> (aemlib_status_t \<times> mem \<times> size_t) option" where
  "aemlib_proto_write_utf8 buf buf_len offset str = do {
     len \<leftarrow> strlen str;
     let status = ensure_space (AEMLIB_MQTT_UTF8_LENGTH_PREFIX_SIZE + len) offset buf_len in
     AEMLIB_CHECK_STATUS status (Some (status, buf, offset)) (do {
       buf \<leftarrow> mem_write buf (unat (offset + 0)) (ucast (drop_bit AEMLIB_MQTT_BYTE_SHIFT len AND AEMLIB_MQTT_LOW_BYTE_MASK));
       buf \<leftarrow> mem_write buf (unat (offset + 1)) (ucast (len AND AEMLIB_MQTT_LOW_BYTE_MASK));
       buf \<leftarrow> mem_copy buf (unat (offset + AEMLIB_MQTT_UTF8_LENGTH_PREFIX_SIZE)) str 0 (unat len);
       Some (AEMLIB_STATUS_OK, buf, offset + (AEMLIB_MQTT_UTF8_LENGTH_PREFIX_SIZE + len))
     })
   }"

section \<open>Fixed header\<close>

record aemlib_mqtt_fixed_header =
  header_type :: aemlib_mqtt_packet_type
  header_flags :: byte
  header_remaining_length :: uint32
  header_size :: size_t

text \<open>
  The callers pass a header that is not initialised. The value below stands for its bytes; the
  decoder's specification shows that nothing of it reaches a successful result.
\<close>

definition uninit_header :: aemlib_mqtt_fixed_header where
  "uninit_header = \<lparr>header_type = AEMLIB_MQTT_PKT_UNLISTED 0, header_flags = 0,
     header_remaining_length = 0, header_size = 0\<rparr>"

definition aemlib_proto_decode_fixed_header ::
    "mem \<Rightarrow> size_t \<Rightarrow> aemlib_mqtt_fixed_header \<Rightarrow> (aemlib_status_t \<times> aemlib_mqtt_fixed_header) option" where
  "aemlib_proto_decode_fixed_header buf buf_len out =
     (if buf_len < AEMLIB_MQTT_FIXED_HEADER_MIN_SIZE then Some (buffer_too_small, out)
      else do {
        header_byte \<leftarrow> mem_read buf 0;
        let out = out\<lparr>header_type := packet_type_of (drop_bit AEMLIB_MQTT_PACKET_TYPE_SHIFT header_byte),
                      header_flags := header_byte AND AEMLIB_MQTT_FLAGS_MASK\<rparr>;
            status = validate_mqtt_flags (header_type out) (header_flags out)
        in AEMLIB_CHECK_STATUS status (Some (status, out)) (do {
          (status, remaining_len, consumed) \<leftarrow>
            aemlib_proto_decode_remaining_length (drop 1 buf) (buf_len - 1) 0 0;
          AEMLIB_CHECK_STATUS status (Some (status, out))
            (Some (AEMLIB_STATUS_OK,
                   out\<lparr>header_remaining_length := remaining_len, header_size := 1 + consumed\<rparr>))
        })
      })"

section \<open>Encoders\<close>

text \<open>
  The block that ends the CONNECT, PUBLISH and SUBSCRIBE encoders: compute the remaining length,
  encode it into a four-byte scratch array, close the gap in front of the body and store the length
  bytes. Only the bytes of the scratch array that the encoder wrote are read.
\<close>

definition insert_remaining_length ::
    "mem \<Rightarrow> size_t \<Rightarrow> size_t \<Rightarrow> size_t \<Rightarrow> (aemlib_status_t \<times> mem \<times> size_t) option" where
  "insert_remaining_length buf out_len rl_pos offset =
     (let rl = (ucast (offset - (rl_pos + AEMLIB_MQTT_REMAINING_LENGTH_MAX_BYTES)) :: uint32) in do {
        (status, rl_buf, rl_len) \<leftarrow>
          aemlib_proto_encode_remaining_length rl [0, 0, 0, 0] AEMLIB_MQTT_REMAINING_LENGTH_MAX_BYTES 0;
        AEMLIB_CHECK_STATUS status (Some (status, buf, out_len)) (do {
          buf \<leftarrow> mem_move buf (unat (rl_pos + rl_len))
                   (unat (rl_pos + AEMLIB_MQTT_REMAINING_LENGTH_MAX_BYTES)) (unat rl);
          buf \<leftarrow> mem_copy buf (unat rl_pos) rl_buf 0 (unat rl_len);
          Some (AEMLIB_STATUS_OK, buf, rl_pos + rl_len + ucast rl)
        })
      })"

definition aemlib_proto_encode_connect ::
    "mem \<Rightarrow> size_t \<Rightarrow> size_t \<Rightarrow> mem \<Rightarrow> uint16 \<Rightarrow> (aemlib_status_t \<times> mem \<times> size_t) option" where
  "aemlib_proto_encode_connect buf buf_len out_len client_id keepalive_sec = do {
     (status, buf, offset) \<leftarrow> append_byte buf 0 buf_len (push_bit AEMLIB_MQTT_PACKET_TYPE_SHIFT (packet_type_val AEMLIB_MQTT_PKT_CONNECT));
     AEMLIB_CHECK_STATUS status (Some (status, buf, out_len)) (
     let rl_pos = offset;
         (status, offset) = reserve_space offset AEMLIB_MQTT_REMAINING_LENGTH_MAX_BYTES buf_len in
     AEMLIB_CHECK_STATUS status (Some (status, buf, out_len)) (do {
     (status, buf, offset) \<leftarrow> aemlib_proto_write_utf8 buf buf_len offset (cstring [0x4D, 0x51, 0x54, 0x54]);
     AEMLIB_CHECK_STATUS status (Some (status, buf, out_len)) (do {
     (status, buf, offset) \<leftarrow> append_byte buf offset buf_len AEMLIB_MQTT_PROTOCOL_LEVEL;
     AEMLIB_CHECK_STATUS status (Some (status, buf, out_len)) (do {
     (status, buf, offset) \<leftarrow> append_byte buf offset buf_len AEMLIB_MQTT_CONNECT_CLEAN_SESSION;
     AEMLIB_CHECK_STATUS status (Some (status, buf, out_len)) (do {
     (status, buf, offset) \<leftarrow> append_uint16_be buf offset buf_len keepalive_sec;
     AEMLIB_CHECK_STATUS status (Some (status, buf, out_len)) (do {
     (status, buf, offset) \<leftarrow> aemlib_proto_write_utf8 buf buf_len offset client_id;
     AEMLIB_CHECK_STATUS status (Some (status, buf, out_len))
       (insert_remaining_length buf out_len rl_pos offset)
     })})})})}))}"

definition aemlib_proto_encode_pingreq ::
    "mem \<Rightarrow> size_t \<Rightarrow> size_t \<Rightarrow> (aemlib_status_t \<times> mem \<times> size_t) option" where
  "aemlib_proto_encode_pingreq buf buf_len out_len =
     (if buf_len < AEMLIB_MQTT_PINGREQ_LENGTH then Some (buffer_too_small, buf, out_len)
      else do {
        buf \<leftarrow> mem_write buf 0 (push_bit AEMLIB_MQTT_PACKET_TYPE_SHIFT (packet_type_val AEMLIB_MQTT_PKT_PINGREQ));
        buf \<leftarrow> mem_write buf 1 AEMLIB_MQTT_PINGREQ_REMAINING_LENGTH;
        Some (AEMLIB_STATUS_OK, buf, AEMLIB_MQTT_PINGREQ_LENGTH)
      })"

definition aemlib_proto_encode_disconnect ::
    "mem \<Rightarrow> size_t \<Rightarrow> size_t \<Rightarrow> (aemlib_status_t \<times> mem \<times> size_t) option" where
  "aemlib_proto_encode_disconnect buf buf_len out_len =
     (if buf_len < AEMLIB_MQTT_DISCONNECT_LENGTH then Some (buffer_too_small, buf, out_len)
      else do {
        buf \<leftarrow> mem_write buf 0 (push_bit AEMLIB_MQTT_PACKET_TYPE_SHIFT (packet_type_val AEMLIB_MQTT_PKT_DISCONNECT));
        buf \<leftarrow> mem_write buf 1 AEMLIB_MQTT_DISCONNECT_REMAINING_LENGTH;
        Some (AEMLIB_STATUS_OK, buf, AEMLIB_MQTT_DISCONNECT_LENGTH)
      })"

definition aemlib_proto_encode_publish ::
    "mem \<Rightarrow> size_t \<Rightarrow> size_t \<Rightarrow> mem \<Rightarrow> mem \<Rightarrow> size_t \<Rightarrow> (aemlib_status_t \<times> mem \<times> size_t) option" where
  "aemlib_proto_encode_publish buf buf_len out_len topic payload payload_len = do {
     (status, buf, offset) \<leftarrow>
       append_byte buf 0 buf_len (push_bit AEMLIB_MQTT_PACKET_TYPE_SHIFT (packet_type_val AEMLIB_MQTT_PKT_PUBLISH) OR AEMLIB_MQTT_PUBLISH_FLAGS_QOS0);
     AEMLIB_CHECK_STATUS status (Some (status, buf, out_len)) (
     let rl_pos = offset;
         (status, offset) = reserve_space offset AEMLIB_MQTT_REMAINING_LENGTH_MAX_BYTES buf_len in
     AEMLIB_CHECK_STATUS status (Some (status, buf, out_len)) (do {
     (status, buf, offset) \<leftarrow> aemlib_proto_write_utf8 buf buf_len offset topic;
     AEMLIB_CHECK_STATUS status (Some (status, buf, out_len)) (
     let status = ensure_space payload_len offset buf_len in
     AEMLIB_CHECK_STATUS status (Some (status, buf, out_len)) (do {
       buf \<leftarrow> mem_copy buf (unat offset) payload 0 (unat payload_len);
       insert_remaining_length buf out_len rl_pos (offset + payload_len)
     }))}))}"

definition aemlib_proto_encode_subscribe ::
    "mem \<Rightarrow> size_t \<Rightarrow> size_t \<Rightarrow> uint16 \<Rightarrow> mem \<Rightarrow> (aemlib_status_t \<times> mem \<times> size_t) option" where
  "aemlib_proto_encode_subscribe buf buf_len out_len packet_id topic = do {
     (status, buf, offset) \<leftarrow>
       append_byte buf 0 buf_len (push_bit AEMLIB_MQTT_PACKET_TYPE_SHIFT (packet_type_val AEMLIB_MQTT_PKT_SUBSCRIBE) OR AEMLIB_MQTT_SUBSCRIBE_FLAGS);
     AEMLIB_CHECK_STATUS status (Some (status, buf, out_len)) (
     let rl_pos = offset;
         (status, offset) = reserve_space offset AEMLIB_MQTT_REMAINING_LENGTH_MAX_BYTES buf_len in
     AEMLIB_CHECK_STATUS status (Some (status, buf, out_len)) (do {
     (status, buf, offset) \<leftarrow> append_uint16_be buf offset buf_len packet_id;
     AEMLIB_CHECK_STATUS status (Some (status, buf, out_len)) (do {
     (status, buf, offset) \<leftarrow> aemlib_proto_write_utf8 buf buf_len offset topic;
     AEMLIB_CHECK_STATUS status (Some (status, buf, out_len)) (do {
     (status, buf, offset) \<leftarrow> append_byte buf offset buf_len AEMLIB_MQTT_SUBSCRIBE_PAYLOAD_QOS;
     AEMLIB_CHECK_STATUS status (Some (status, buf, out_len))
       (insert_remaining_length buf out_len rl_pos offset)
     })})}))}"

section \<open>Decoders\<close>

text \<open>
  What \<^verbatim>\<open>aemlib_proto_decode_publish\<close> stores through its four out pointers: the two result pointers
  point into \<^verbatim>\<open>buf\<close> and are kept as indices into it. The four pointers travel together, a null one
  makes the argument \<^term>\<open>None\<close>.
\<close>

record publish_view =
  view_topic :: size_t
  view_topic_len :: size_t
  view_payload :: size_t
  view_payload_len :: size_t

text \<open>The out variables as the callers initialise them: null pointers and zero lengths.\<close>

definition null_view :: publish_view where
  "null_view = \<lparr>view_topic = 0, view_topic_len = 0, view_payload = 0, view_payload_len = 0\<rparr>"

definition aemlib_proto_decode_publish ::
    "mem option \<Rightarrow> size_t \<Rightarrow> aemlib_mqtt_fixed_header option \<Rightarrow> publish_view option \<Rightarrow>
     (aemlib_status_t \<times> publish_view option) option" where
  "aemlib_proto_decode_publish buf buf_len header out =
     (case (buf, header, out) of
        (Some buf, Some header, Some view) \<Rightarrow>
          let qos = drop_bit 1 (header_flags header) AND 0x03 in
          if qos \<noteq> 0 then Some (AEMLIB_STATUS AEMLIB_LAYER_PROTOCOL AEMLIB_CODE_UNSUPPORTED, out)
          else
            let offset = header_size header;
                packet_end = header_size header + ucast (header_remaining_length header)
            in if packet_end > buf_len then Some (buffer_too_small, out)
            else if offset + AEMLIB_MQTT_UTF8_LENGTH_PREFIX_SIZE > packet_end then Some (malformed, out)
            else do {
              hi \<leftarrow> mem_read buf (unat offset);
              lo \<leftarrow> mem_read buf (unat (offset + 1));
              let topic_length = push_bit AEMLIB_MQTT_BYTE_SHIFT (ucast hi) OR ucast lo;
                  offset = offset + AEMLIB_MQTT_UTF8_LENGTH_PREFIX_SIZE
              in if offset + topic_length > packet_end then Some (malformed, out)
              else
                let view = view\<lparr>view_topic := offset, view_topic_len := topic_length\<rparr>;
                    offset = offset + topic_length;
                    view = view\<lparr>view_payload := offset, view_payload_len := packet_end - offset\<rparr>
                in Some (AEMLIB_STATUS_OK, Some view)
            }
      | _ \<Rightarrow> Some (invalid_arg, out))"

definition aemlib_proto_decode_connack ::
    "mem \<Rightarrow> size_t \<Rightarrow> byte \<Rightarrow> byte \<Rightarrow> (aemlib_status_t \<times> byte \<times> byte) option" where
  "aemlib_proto_decode_connack buf buf_len session_present return_code =
     (if buf_len < AEMLIB_MQTT_CONNACK_MIN_SIZE then Some (buffer_too_small, session_present, return_code)
      else do {
        s \<leftarrow> mem_read buf AEMLIB_MQTT_CONNACK_SESSION_BYTE_INDEX;
        r \<leftarrow> mem_read buf AEMLIB_MQTT_CONNACK_RETURN_CODE_INDEX;
        Some (AEMLIB_STATUS_OK, s AND AEMLIB_MQTT_CONNACK_SESSION_PRESENT_MASK, r)
      })"

definition aemlib_proto_decode_suback ::
    "mem \<Rightarrow> size_t \<Rightarrow> uint16 \<Rightarrow> byte \<Rightarrow> (aemlib_status_t \<times> uint16 \<times> byte) option" where
  "aemlib_proto_decode_suback buf buf_len packet_id granted_qos =
     (if buf_len < AEMLIB_MQTT_SUBACK_MIN_SIZE then Some (buffer_too_small, packet_id, granted_qos)
      else do {
        hi \<leftarrow> mem_read buf AEMLIB_MQTT_SUBACK_PACKET_ID_BYTE_1;
        lo \<leftarrow> mem_read buf AEMLIB_MQTT_SUBACK_PACKET_ID_BYTE_2;
        q \<leftarrow> mem_read buf AEMLIB_MQTT_SUBACK_GRANTED_QOS_INDEX;
        Some (AEMLIB_STATUS_OK, push_bit AEMLIB_MQTT_BYTE_SHIFT (ucast hi) OR ucast lo, q)
      })"

end
