(* ===== verification/Aem_Proto_Encode.thy ===== *)
theory Aem_Proto_Encode
  imports Aem_Proto
begin

text \<open>
  Correctness of the encoders of \<^verbatim>\<open>proto/proto.c\<close>: each of them either stores exactly the MQTT 3.1.1
  packet of its arguments at the start of the buffer or reports BUFFER_TOO_SMALL, and it never
  accesses memory outside the buffer. The proofs follow the write position through the append
  helpers with the predicate \<^verbatim>\<open>enc_at\<close>; the locale \<^verbatim>\<open>packet_encoder\<close> is the contract the client layer
  relies on, interpreted for every encoder.
\<close>

section \<open>Packets as byte lists\<close>

definition uint16_be :: "uint16 \<Rightarrow> byte list" where
  "uint16_be v = [ucast (drop_bit 8 v), ucast v]"

text \<open>A length-prefixed string: the prefix has sixteen bits, whatever the length.\<close>

definition utf8 :: "byte list \<Rightarrow> byte list" where
  "utf8 s = uint16_be (of_nat (length s)) @ s"

definition mqtt_packet :: "byte \<Rightarrow> byte list \<Rightarrow> byte list" where
  "mqtt_packet h body = h # rl_bytes (length body) @ body"

definition connect_body :: "byte list \<Rightarrow> uint16 \<Rightarrow> byte list" where
  "connect_body client_id keepalive_sec =
     utf8 [0x4D, 0x51, 0x54, 0x54] @ [4, 2] @ uint16_be keepalive_sec @ utf8 client_id"

definition publish_body :: "byte list \<Rightarrow> byte list \<Rightarrow> byte list" where
  "publish_body topic payload = utf8 topic @ payload"

definition subscribe_body :: "uint16 \<Rightarrow> byte list \<Rightarrow> byte list" where
  "subscribe_body packet_id topic = uint16_be packet_id @ utf8 topic @ [0]"

lemma length_uint16_be [simp]: "length (uint16_be v) = 2"
  by (simp add: uint16_be_def)

lemma length_utf8 [simp]: "length (utf8 s) = length s + 2"
  by (simp add: utf8_def)

lemma length_bodies [simp]:
  "length (connect_body i k) = length i + 12"
  "length (publish_body t p) = length t + length p + 2"
  "length (subscribe_body pid t) = length t + 5"
  by (simp_all add: connect_body_def publish_body_def subscribe_body_def)

lemma length_mqtt_packet: "length (mqtt_packet h body) = 1 + length (rl_bytes (length body)) + length body"
  by (simp add: mqtt_packet_def)

lemma ucast_low_byte:
  "ucast (v AND 0xFF :: uint16) = (ucast v :: byte)"
  "ucast (n AND 0xFF :: size_t) = (ucast n :: byte)"
proof -
  have "(0xFF :: uint16) = mask 8" "(0xFF :: size_t) = mask 8" by (simp_all add: mask_eq_exp_minus_1)
  then have "bit (0xFF :: uint16) k" "bit (0xFF :: size_t) k" if "k < 8" for k
    using that by (simp_all only: bit_mask_iff) (simp_all add: possible_bit_word)
  then show "ucast (v AND 0xFF) = (ucast v :: byte)" "ucast (n AND 0xFF) = (ucast n :: byte)"
    by (auto intro!: bit_word_eqI simp: bit_simps)
qed

lemma utf8_prefix:
  "[ucast (drop_bit 8 (of_nat n :: size_t) AND 0xFF), ucast (of_nat n AND 0xFF :: size_t)] = uint16_be (of_nat n)"
  unfolding uint16_be_def ucast_low_byte
  by (auto intro!: bit_word_eqI simp: bit_simps)

section \<open>The write position\<close>

text \<open>
  \<open>enc_at B n buf off pre\<close>: in a buffer object of \<open>B\<close> bytes of which the encoder may use \<open>n\<close>,
  the bytes before the offset are \<open>pre\<close>. An object is smaller than \<open>2 ^ 63\<close> bytes.
\<close>

definition enc_at :: "nat \<Rightarrow> size_t \<Rightarrow> mem \<Rightarrow> size_t \<Rightarrow> byte list \<Rightarrow> bool" where
  "enc_at B buf_len buf off pre \<longleftrightarrow>
     length buf = B \<and> unat off = length pre \<and> take (length pre) buf = pre \<and>
     length pre \<le> unat buf_len \<and> unat buf_len \<le> B \<and> B < 2 ^ 63"

text \<open>A step that should leave \<open>pre\<close> in front of the offset, or report that it does not fit.\<close>

definition enc_step :: "nat \<Rightarrow> size_t \<Rightarrow> byte list \<Rightarrow> (aemlib_status_t \<times> mem \<times> size_t) option \<Rightarrow> bool" where
  "enc_step B buf_len pre r \<longleftrightarrow>
     (\<exists>st buf off. r = Some (st, buf, off) \<and> length buf = B \<and>
        (if length pre \<le> unat buf_len then st = AEMLIB_STATUS_OK \<and> enc_at B buf_len buf off pre
         else st = buffer_too_small))"

lemma ensure_space_spec:
  assumes "enc_at B buf_len buf off pre" "unat n < 2 ^ 63"
  shows "ensure_space n off buf_len = (if length pre + unat n \<le> unat buf_len then AEMLIB_STATUS_OK else buffer_too_small)"
    and "length pre + unat n \<le> unat buf_len \<Longrightarrow> unat (off + n) = length pre + unat n"
  using assms unat_add_size [of off n]
  by (auto simp: ensure_space_def enc_at_def word_less_nat_alt)

lemma enc_at_write:
  assumes at: "enc_at B buf_len buf off pre" and fit: "length pre + length xs \<le> unat buf_len"
  shows "enc_at B buf_len (overwrite (length pre) xs buf) (off + of_nat (length xs)) (pre @ xs)"
proof -
  have n: "unat (of_nat (length xs) :: size_t) = length xs"
    using assms by (simp add: enc_at_def unat_rules)
  then have "unat (off + of_nat (length xs)) = length pre + length xs"
    using ensure_space_spec(2) [OF at, of "of_nat (length xs)"] fit at by (simp add: enc_at_def)
  then show ?thesis
    using at fit by (simp add: enc_at_def overwrite_def)
qed

lemma enc_step_written: "enc_at B buf_len buf off pre \<Longrightarrow> enc_step B buf_len pre (Some (AEMLIB_STATUS_OK, buf, off))"
  by (simp add: enc_step_def enc_at_def)

lemma append_byte_step:
  assumes at: "enc_at B buf_len buf off pre"
  shows "enc_step B buf_len (pre @ [v]) (append_byte buf off buf_len v)"
  using ensure_space_spec [OF at, of 1] enc_at_write [OF at, of "[v]"] at
  by (auto simp: append_byte_def enc_step_def Let_def c_mem enc_at_def update_overwrite)

lemma append_uint16_be_step:
  assumes at: "enc_at B buf_len buf off pre"
  shows "enc_step B buf_len (pre @ uint16_be v) (append_uint16_be buf off buf_len v)"
proof (cases "length pre + 2 \<le> unat buf_len")
  case True
  then have "unat (off + 1) = Suc (length pre)" using ensure_space_spec(2) [OF at, of 1] by simp
  then show ?thesis
    using ensure_space_spec(1) [OF at, of 2] enc_at_write [OF at, of "uint16_be v"] at True
    by (simp add: append_uint16_be_def enc_step_def c_mem enc_at_def uint16_be_def update2_overwrite
          ucast_low_byte add.assoc)
next
  case False
  then show ?thesis
    using ensure_space_spec(1) [OF at, of 2] at
    by (simp add: append_uint16_be_def enc_step_def enc_at_def)
qed

lemma write_utf8_step:
  assumes at: "enc_at B buf_len buf off pre" and str: "0 \<notin> set s" "length s < 2 ^ 62"
  shows "enc_step B buf_len (pre @ utf8 s) (aemlib_proto_write_utf8 buf buf_len off (cstring s))"
proof -
  let ?n = "of_nat (length s) :: size_t"
  have n: "unat ?n = length s" "unat (2 + ?n) = 2 + length s"
    using str(2) unat_add_size [of 2 ?n] by (simp_all add: unat_rules)
  note space = ensure_space_spec(1) [OF at, of "2 + ?n"]
  show ?thesis
  proof (cases "length pre + (2 + length s) \<le> unat buf_len")
    case True
    then have off: "unat (off + 1) = length pre + 1" "unat (off + 2) = length pre + 2"
      using ensure_space_spec(2) [OF at, of 1] ensure_space_spec(2) [OF at, of 2] by simp_all
    have "aemlib_proto_write_utf8 buf buf_len off (cstring s)
        = Some (AEMLIB_STATUS_OK, overwrite (length pre) (utf8 s) buf, off + (2 + ?n))"
      using True at str n off space overwrite_overwrite [of "length pre" "uint16_be (of_nat (length s))" buf s]
      by (simp add: aemlib_proto_write_utf8_def mem_write_ok enc_at_def mem_copy_overwrite
            update2_overwrite utf8_prefix utf8_def)
    moreover have "off + of_nat (length (utf8 s)) = off + (2 + ?n)" by simp
    ultimately show ?thesis
      using True enc_step_written [OF enc_at_write [OF at, of "utf8 s"]] by simp
  next
    case False
    then show ?thesis
      using space str at n by (simp add: aemlib_proto_write_utf8_def enc_step_def enc_at_def)
  qed
qed

section \<open>Closing a packet\<close>

text \<open>
  What a call of an encoder establishes: either the packet is at the start of the buffer and
  \<^verbatim>\<open>*out_len\<close> is its length, or the status is BUFFER_TOO_SMALL and \<^verbatim>\<open>*out_len\<close> is unchanged.
\<close>

definition encodes ::
    "nat \<Rightarrow> size_t \<Rightarrow> size_t \<Rightarrow> bool \<Rightarrow> byte list \<Rightarrow> (aemlib_status_t \<times> mem \<times> size_t) option \<Rightarrow> bool" where
  "encodes B buf_len out_len fits pkt r \<longleftrightarrow>
     (\<exists>st buf n. r = Some (st, buf, n) \<and> length buf = B \<and>
        (if fits
         then st = AEMLIB_STATUS_OK \<and> unat n = length pkt \<and> length pkt \<le> unat buf_len \<and> take (length pkt) buf = pkt
         else st = buffer_too_small \<and> n = out_len))"

lemma encodesD:
  "encodes B buf_len out_len fits pkt r \<Longrightarrow>
   \<exists>st buf n. r = Some (st, buf, n) \<and> length buf = B \<and>
     (if fits then st = AEMLIB_STATUS_OK \<and> take (unat n) buf = pkt else st = buffer_too_small \<and> n = out_len)"
  by (cases fits) (auto simp: encodes_def)

lemma insert_remaining_length_spec:
  assumes at: "enc_at B buf_len buf off (h # gap @ body)" and "length gap = 4" "unat rl_pos = 1"
    and small: "length body < 2 ^ 32"
  shows "encodes B buf_len out_len (length body < 2 ^ 28) (mqtt_packet h body)
           (insert_remaining_length buf out_len rl_pos off)"
proof -
  let ?bs = "rl_bytes (length body)" and ?rl = "ucast (off - (rl_pos + 4)) :: uint32"
  have pos: "unat (rl_pos + 4) = 5" using assms(3) unat_add_size [of rl_pos 4] by simp
  have off: "unat off = 5 + length body" using at assms(2) by (simp add: enc_at_def)
  have rl: "unat ?rl = length body"
    using off pos small by (simp add: unsigned_ucast_eq unat_diff_size take_bit_eq_mod)
  have body: "take (length body) (drop 5 buf) = body" and h: "take 1 buf = [h]"
    and room: "5 + length body \<le> unat buf_len" "unat buf_len \<le> length buf" "length buf = B" "B < 2 ^ 63"
  proof -
    have pre: "take (5 + length body) buf = h # gap @ body"
      using at assms(2) by (simp add: enc_at_def)
    then show "take (length body) (drop 5 buf) = body"
      using assms(2) by (metis append_Cons append_eq_conv_conj drop_take length_Cons add_diff_cancel_left' numeral_nat(3) plus_1_eq_Suc)
    have "take 1 (take (5 + length body) buf) = [h]" by (simp add: pre)
    then show "take 1 buf = [h]" by (simp add: min_def)
  qed (use at assms(2) in \<open>simp_all add: enc_at_def\<close>)
  show ?thesis
  proof (cases "length body < 2 ^ 28")
    case True
    then have len: "length ?bs \<le> 4" by (simp add: length_rl_bytes_4)
    then have n: "unat (of_nat (length ?bs) :: size_t) = length ?bs"
      and start: "unat (rl_pos + of_nat (length ?bs)) = 1 + length ?bs"
      using assms(3) by (simp_all add: unat_rules)
    moreover have "unat (ucast ?rl :: size_t) = length body"
      by (simp only: unat_ucast_uint32 rl)
    ultimately have total: "unat (rl_pos + of_nat (length ?bs) + ucast ?rl) = length (mqtt_packet h body)"
      using len small unat_add_size [of "rl_pos + of_nat (length ?bs)" "ucast ?rl"]
      by (simp add: length_mqtt_packet)
    let ?buf = "overwrite 1 (?bs @ body) buf"
    have "insert_remaining_length buf out_len rl_pos off
        = Some (AEMLIB_STATUS_OK, ?buf, rl_pos + of_nat (length ?bs) + ucast ?rl)"
      using len n rl pos start room body assms(3) overwrite_before [of 1 ?bs body buf]
      by (simp add: insert_remaining_length_def encode_remaining_length_spec mem_move_overwrite
            mem_copy_overwrite Let_def overwrite_def [of 0])
    then show ?thesis
      using True total room len h by (simp add: encodes_def length_mqtt_packet mqtt_packet_def overwrite_def)
  next
    case False
    then show ?thesis
      using rl room length_rl_bytes_4 [of "length body"]
      by (simp add: encodes_def insert_remaining_length_def encode_remaining_length_spec)
  qed
qed


section \<open>The encoders\<close>

text \<open>The early-return pattern of the encoders, in one rule.\<close>

lemma enc_seq:
  assumes "enc_step B buf_len pre r"
    and "\<And>buf off. enc_at B buf_len buf off pre \<Longrightarrow> encodes B buf_len out_len fits pkt (k buf off)"
    and "\<And>buf. length buf = B \<Longrightarrow> unat buf_len < length pre \<Longrightarrow> encodes B buf_len out_len fits pkt (Some (buffer_too_small, buf, out_len))"
  shows "encodes B buf_len out_len fits pkt (r \<bind> (\<lambda>(st, buf, off). AEMLIB_CHECK_STATUS st (Some (st, buf, out_len)) (k buf off)))"
  using assms by (auto simp: enc_step_def not_le split: if_splits)

lemma enc_reserve:
  assumes "enc_at B buf_len buf off pre"
    and "\<And>off' gap. enc_at B buf_len buf off' (pre @ gap) \<Longrightarrow> length gap = 4 \<Longrightarrow> encodes B buf_len out_len fits pkt (k off')"
    and "unat buf_len < length pre + 4 \<Longrightarrow> encodes B buf_len out_len fits pkt (Some (buffer_too_small, buf, out_len))"
  shows "encodes B buf_len out_len fits pkt (case reserve_space off 4 buf_len of (st, off') \<Rightarrow>
              AEMLIB_CHECK_STATUS st (Some (st, buf, out_len)) (k off'))"
proof (cases "length pre + 4 \<le> unat buf_len")
  case True
  let ?gap = "take 4 (drop (length pre) buf)"
  have "unat (off + 4) = length pre + 4"
    using True ensure_space_spec(2) [OF assms(1), of 4] by simp
  then have "enc_at B buf_len buf (off + 4) (pre @ ?gap)" "length ?gap = 4"
    using True assms(1) by (auto simp: enc_at_def take_add)
  then show ?thesis
    using True ensure_space_spec(1) [OF assms(1), of 4] assms(2)
    by (simp add: reserve_space_def)
next
  case False
  then show ?thesis
    using ensure_space_spec(1) [OF assms(1), of 4] assms(3) by (simp add: reserve_space_def not_le)
qed

text \<open>The last step of a packet encoder, and its failures.\<close>

lemma enc_close:
  assumes "enc_at B buf_len buf off pre" "pre = h # gap @ body" "length gap = 4"
    and "enc_at B buf_len buf0 rl_pos [h']" and "length body < 2 ^ 32"
  shows "encodes B buf_len out_len (5 + length body \<le> unat buf_len \<and> length body < 2 ^ 28) (mqtt_packet h body)
           (insert_remaining_length buf out_len rl_pos off)"
proof -
  have "5 + length body \<le> unat buf_len" "unat rl_pos = 1"
    using assms by (simp_all add: enc_at_def)
  then show ?thesis
    using insert_remaining_length_spec [of B buf_len buf off h gap body rl_pos out_len] assms by simp
qed

lemma enc_fail: "length buf = B \<Longrightarrow> \<not> fits \<Longrightarrow> encodes B buf_len out_len fits pkt (Some (buffer_too_small, buf, out_len))"
  by (simp add: encodes_def)

lemma enc_start: "unat buf_len \<le> length buf \<Longrightarrow> length buf < 2 ^ 63 \<Longrightarrow> enc_at (length buf) buf_len buf 0 []"
  by (simp add: enc_at_def)

lemma enc_at_length: "enc_at B buf_len buf off pre \<Longrightarrow> length buf = B"
  by (simp add: enc_at_def)

lemmas enc_rules =
  append_byte_step [OF enc_start, THEN enc_seq] append_byte_step [THEN enc_seq]
  append_uint16_be_step [THEN enc_seq] write_utf8_step [THEN enc_seq] enc_reserve enc_close enc_fail

lemma encode_connect_spec:
  assumes "unat buf_len \<le> length buf" "length buf < 2 ^ 63" "0 \<notin> set client_id" "length client_id + 12 < 2 ^ 32"
  shows "encodes (length buf) buf_len out_len
     (5 + length (connect_body client_id k) \<le> unat buf_len \<and> length (connect_body client_id k) < 2 ^ 28)
     (mqtt_packet 0x10 (connect_body client_id k))
     (aemlib_proto_encode_connect buf buf_len out_len (cstring client_id) k)"
  unfolding aemlib_proto_encode_connect_def Let_def
  using assms
  by - (rule enc_rules | assumption | (simp add: connect_body_def enc_at_length; fail))+

lemma encode_subscribe_spec:
  assumes "unat buf_len \<le> length buf" "length buf < 2 ^ 63" "0 \<notin> set topic" "length topic + 5 < 2 ^ 32"
  shows "encodes (length buf) buf_len out_len
     (5 + length (subscribe_body packet_id topic) \<le> unat buf_len \<and> length (subscribe_body packet_id topic) < 2 ^ 28)
     (mqtt_packet 0x82 (subscribe_body packet_id topic))
     (aemlib_proto_encode_subscribe buf buf_len out_len packet_id (cstring topic))"
  unfolding aemlib_proto_encode_subscribe_def Let_def
  using assms
  by - (rule enc_rules | assumption | (simp add: subscribe_body_def enc_at_length; fail))+

lemma enc_payload:
  assumes at: "enc_at B buf_len buf off pre"
    and n: "unat n \<le> length payload" "length payload < 2 ^ 63"
    and "\<And>buf off. enc_at B buf_len buf off (pre @ take (unat n) payload) \<Longrightarrow> encodes B buf_len out_len fits pkt (insert_remaining_length buf out_len rl_pos off)"
    and "unat buf_len < length pre + unat n \<Longrightarrow> encodes B buf_len out_len fits pkt (Some (buffer_too_small, buf, out_len))"
  shows "encodes B buf_len out_len fits pkt (AEMLIB_CHECK_STATUS (ensure_space n off buf_len) (Some (ensure_space n off buf_len, buf, out_len))
             (mem_copy buf (unat off) payload 0 (unat n) \<bind> (\<lambda>buf. insert_remaining_length buf out_len rl_pos (off + n))))"
proof (cases "length pre + unat n \<le> unat buf_len")
  case True
  then have "enc_at B buf_len (overwrite (length pre) (take (unat n) payload) buf) (off + n) (pre @ take (unat n) payload)"
    using enc_at_write [OF at, of "take (unat n) payload"] n by (simp add: min_absorb2)
  then show ?thesis
    using True at n ensure_space_spec(1) [OF at, of n] assms(4)
    by (simp add: enc_at_def mem_copy_overwrite)
next
  case False
  then show ?thesis
    using n ensure_space_spec(1) [OF at, of n] assms(5) by simp
qed

lemma encode_publish_spec:
  assumes "unat buf_len \<le> length buf" "length buf < 2 ^ 63" "0 \<notin> set topic"
    and "unat payload_len \<le> length payload" "length payload < 2 ^ 63" "length topic + unat payload_len + 2 < 2 ^ 32"
  shows "encodes (length buf) buf_len out_len
     (5 + length (publish_body topic (take (unat payload_len) payload)) \<le> unat buf_len
       \<and> length (publish_body topic (take (unat payload_len) payload)) < 2 ^ 28)
     (mqtt_packet 0x30 (publish_body topic (take (unat payload_len) payload)))
     (aemlib_proto_encode_publish buf buf_len out_len (cstring topic) payload payload_len)"
  unfolding aemlib_proto_encode_publish_def Let_def
  using assms
  by - (rule enc_rules enc_payload | assumption | (simp add: publish_body_def enc_at_length; fail))+

lemma encode_two_byte_spec:
  assumes "unat buf_len \<le> length buf"
  shows "encodes (length buf) buf_len out_len (2 \<le> unat buf_len) [0xC0, 0] (aemlib_proto_encode_pingreq buf buf_len out_len)"
    and "encodes (length buf) buf_len out_len (2 \<le> unat buf_len) [0xE0, 0] (aemlib_proto_encode_disconnect buf buf_len out_len)"
proof -
  have "mem_write buf 0 x \<bind> (\<lambda>b. mem_write b 1 0 \<bind> k) = k (overwrite 0 [x, 0] buf)"
    if "2 \<le> unat buf_len" for x and k :: "mem \<Rightarrow> (aemlib_status_t \<times> mem \<times> size_t) option"
  proof -
    from that assms have "0 < length buf" "1 < length buf" by linarith+
    then show ?thesis using update2_overwrite [of 0 buf x 0] by (simp add: mem_write_def)
  qed
  then show "encodes (length buf) buf_len out_len (2 \<le> unat buf_len) [0xC0, 0] (aemlib_proto_encode_pingreq buf buf_len out_len)"
    and "encodes (length buf) buf_len out_len (2 \<le> unat buf_len) [0xE0, 0] (aemlib_proto_encode_disconnect buf buf_len out_len)"
    using assms
    by (auto simp: encodes_def aemlib_proto_encode_pingreq_def aemlib_proto_encode_disconnect_def
          word_less_nat_alt overwrite_def)
qed

section \<open>The contract of an encoder\<close>

text \<open>
  An encoder of arguments \<open>'a\<close>: on admissible arguments and a buffer that really has the announced
  length, it stores \<open>packet a\<close> when \<open>fits a buf_len\<close> and reports BUFFER_TOO_SMALL otherwise.
\<close>

locale packet_encoder =
  fixes enc :: "'a \<Rightarrow> mem \<Rightarrow> size_t \<Rightarrow> size_t \<Rightarrow> (aemlib_status_t \<times> mem \<times> size_t) option"
    and arg_ok :: "'a \<Rightarrow> bool"
    and fits :: "'a \<Rightarrow> size_t \<Rightarrow> bool"
    and packet :: "'a \<Rightarrow> byte list"
  assumes enc_correct: "arg_ok a \<Longrightarrow> unat buf_len \<le> length buf \<Longrightarrow> length buf < 2 ^ 63 \<Longrightarrow>
      encodes (length buf) buf_len out_len (fits a buf_len) (packet a) (enc a buf buf_len out_len)"
    and packet_nonempty: "packet a \<noteq> []"
begin

lemma enc_no_ub:
  assumes "arg_ok a" "unat buf_len \<le> length buf" "length buf < 2 ^ 63"
  shows "\<exists>st buf' n. enc a buf buf_len out_len = Some (st, buf', n) \<and> length buf' = length buf"
  using enc_correct [OF assms, of out_len] by (auto simp: encodes_def)

lemma enc_fits:
  assumes "arg_ok a" "unat buf_len \<le> length buf" "length buf < 2 ^ 63" "fits a buf_len"
  shows "\<exists>buf' n. enc a buf buf_len out_len = Some (AEMLIB_STATUS_OK, buf', n)
    \<and> length buf' = length buf \<and> unat n = length (packet a) \<and> length (packet a) \<le> unat buf_len
    \<and> take (length (packet a)) buf' = packet a \<and> n \<noteq> 0"
proof -
  obtain buf' n where r: "enc a buf buf_len out_len = Some (AEMLIB_STATUS_OK, buf', n)"
    "length buf' = length buf" "unat n = length (packet a)" "length (packet a) \<le> unat buf_len"
    "take (length (packet a)) buf' = packet a"
    using enc_correct [OF assms(1-3), of out_len] assms(4) by (auto simp: encodes_def)
  moreover from r(3) packet_nonempty have "n \<noteq> 0" by (metis length_0_conv unat_0)
  ultimately show ?thesis by blast
qed

lemma enc_not_fits:
  assumes "arg_ok a" "unat buf_len \<le> length buf" "length buf < 2 ^ 63" "\<not> fits a buf_len"
  shows "\<exists>buf'. enc a buf buf_len out_len = Some (buffer_too_small, buf', out_len) \<and> length buf' = length buf"
  using enc_correct [OF assms(1-3), of out_len] assms(4) by (auto simp: encodes_def)

end

text \<open>The space check of the three encoders that reserve four length bytes before the body.\<close>

definition body_fits :: "byte list \<Rightarrow> size_t \<Rightarrow> bool" where
  "body_fits body buf_len \<longleftrightarrow> 5 + length body \<le> unat buf_len \<and> length body < 2 ^ 28"

definition connect_packet :: "byte list \<times> uint16 \<Rightarrow> byte list" where
  "connect_packet = (\<lambda>(client_id, k). mqtt_packet 0x10 (connect_body client_id k))"

definition publish_packet :: "byte list \<times> byte list \<Rightarrow> byte list" where
  "publish_packet = (\<lambda>(topic, payload). mqtt_packet 0x30 (publish_body topic payload))"

definition subscribe_packet :: "uint16 \<times> byte list \<Rightarrow> byte list" where
  "subscribe_packet = (\<lambda>(packet_id, topic). mqtt_packet 0x82 (subscribe_body packet_id topic))"

text \<open>Admissible arguments: proper C strings, a payload object of the announced length, a body below \<open>2 ^ 32\<close> bytes.\<close>

definition publish_arg_ok :: "byte list \<times> mem \<times> size_t \<Rightarrow> bool" where
  "publish_arg_ok = (\<lambda>(topic, payload, n). 0 \<notin> set topic \<and> unat n \<le> length payload \<and>
     length payload < 2 ^ 63 \<and> length topic + unat n + 2 < 2 ^ 32)"

definition topic_ok :: "byte list \<Rightarrow> bool" where
  "topic_ok topic \<longleftrightarrow> 0 \<notin> set topic \<and> length topic + 5 < 2 ^ 32"

lemma mqtt_packet_nonempty [simp]: "mqtt_packet h body \<noteq> []"
  by (simp add: mqtt_packet_def)

interpretation connect_enc: packet_encoder
  "\<lambda>(client_id, k) buf n out. aemlib_proto_encode_connect buf n out (cstring client_id) k"
  "\<lambda>(client_id, k). 0 \<notin> set client_id \<and> length client_id + 12 < 2 ^ 32"
  "\<lambda>(client_id, k). body_fits (connect_body client_id k)" connect_packet
  by unfold_locales (auto simp: body_fits_def connect_packet_def intro: encode_connect_spec [simplified])

interpretation publish_enc: packet_encoder
  "\<lambda>(topic, payload, n) buf bl out. aemlib_proto_encode_publish buf bl out (cstring topic) payload n"
  publish_arg_ok
  "\<lambda>(topic, payload, n). body_fits (publish_body topic (take (unat n) payload))"
  "\<lambda>(topic, payload, n). publish_packet (topic, take (unat n) payload)"
proof (unfold_locales, goal_cases)
  case (1 a buf_len buf out_len)
  then show ?case
    using encode_publish_spec [of buf_len buf "fst a" "snd (snd a)" "fst (snd a)" out_len]
    by (cases a) (simp add: body_fits_def publish_packet_def publish_arg_ok_def)
qed (auto simp: publish_packet_def)

interpretation subscribe_enc: packet_encoder
  "\<lambda>(packet_id, topic) buf n out. aemlib_proto_encode_subscribe buf n out packet_id (cstring topic)"
  "\<lambda>(packet_id, topic). topic_ok topic"
  "\<lambda>(packet_id, topic). body_fits (subscribe_body packet_id topic)" subscribe_packet
  by unfold_locales
     (auto simp: body_fits_def subscribe_packet_def topic_ok_def intro: encode_subscribe_spec [simplified])

interpretation pingreq_enc: packet_encoder
  "\<lambda>_ :: unit. aemlib_proto_encode_pingreq" "\<lambda>_. True" "\<lambda>_ n. 2 \<le> unat n" "\<lambda>_. [0xC0, 0]"
  by unfold_locales (auto intro: encode_two_byte_spec)

interpretation disconnect_enc: packet_encoder
  "\<lambda>_ :: unit. aemlib_proto_encode_disconnect" "\<lambda>_. True" "\<lambda>_ n. 2 \<le> unat n" "\<lambda>_. [0xE0, 0]"
  by unfold_locales (auto intro: encode_two_byte_spec)

end
