(* ===== verification/Aem_Proto_Decode.thy ===== *)
theory Aem_Proto_Decode
  imports Aem_Proto_Encode
begin

text \<open>
  Correctness of the decoders of \<^verbatim>\<open>proto/proto.c\<close> against specifications on byte lists: \<^verbatim>\<open>fh_parse\<close>
  for the fixed header and \<^verbatim>\<open>publish_parse\<close> for the body of a PUBLISH packet, and the round trips
  between the encoders and the decoders.
\<close>

section \<open>The fixed header\<close>

datatype fh_result =
    FH_Incomplete
  | FH_Invalid
  | FH_Ok aemlib_mqtt_packet_type byte nat nat

text \<open>\<open>FH_Ok t f n s\<close>: packet type, flags, remaining length and size of the header.\<close>

fun fh_parse :: "byte list \<Rightarrow> fh_result" where
  "fh_parse (b # c # bs) =
     (let t = packet_type_of (drop_bit 4 b); f = b AND 0x0F in
      if validate_mqtt_flags t f \<noteq> AEMLIB_STATUS_OK then FH_Invalid
      else case rl_parse 0 0 (c # bs) of
        RL_Incomplete \<Rightarrow> FH_Incomplete
      | RL_Overlong \<Rightarrow> FH_Invalid
      | RL_Done n u \<Rightarrow> FH_Ok t f n (Suc u))"
| "fh_parse _ = FH_Incomplete"

fun fh_status :: "fh_result \<Rightarrow> aemlib_status_t" where
  "fh_status FH_Incomplete = buffer_too_small"
| "fh_status FH_Invalid = protocol_error"
| "fh_status (FH_Ok t f n s) = AEMLIB_STATUS_OK"

fun fh_header :: "fh_result \<Rightarrow> aemlib_mqtt_fixed_header \<Rightarrow> bool" where
  "fh_header (FH_Ok t f n s) h \<longleftrightarrow>
     h = \<lparr>header_type = t, header_flags = f, header_remaining_length = of_nat n, header_size = of_nat s\<rparr>"
| "fh_header _ h \<longleftrightarrow> True"

lemma validate_status: "validate_mqtt_flags t f = AEMLIB_STATUS_OK \<or> validate_mqtt_flags t f = protocol_error"
  by (cases "(t, f)" rule: validate_mqtt_flags.cases) (auto simp: Let_def)

lemma decode_fixed_header_spec:
  assumes "unat buf_len \<le> length buf"
  obtains h where "aemlib_proto_decode_fixed_header buf buf_len out = Some (fh_status (fh_parse (take (unat buf_len) buf)), h)"
    "fh_header (fh_parse (take (unat buf_len) buf)) h"
proof (cases "unat buf_len < 2")
  case True
  then have "fh_parse (take (unat buf_len) buf) = FH_Incomplete"
    by (cases "take (unat buf_len) buf" rule: fh_parse.cases) (auto dest: arg_cong [where f = length])
  with True that [of out] show ?thesis
    by (simp add: aemlib_proto_decode_fixed_header_def word_less_nat_alt)
next
  case False
  then obtain b c bs where buf: "buf = b # c # bs"
    using assms by (cases buf rule: fh_parse.cases) auto
  obtain n where n: "unat buf_len = Suc (Suc n)"
    using False by (metis add_2_eq_Suc le_Suc_ex not_less)
  have len: "unat (buf_len - 1) = Suc n" using n unat_diff_size [of 1 buf_len] by simp
  have pre: "take (unat buf_len) buf = b # c # take n bs" by (simp add: buf n)
  have dec: "aemlib_proto_decode_remaining_length (drop 1 buf) (buf_len - 1) 0 0
      = Some (rl_outcome 0 0 (rl_parse 0 0 (c # take n bs)))"
    using decode_remaining_length_spec [of "buf_len - 1" "drop 1 buf" 0 0] assms n len
    by (simp add: buf)
  have "\<exists>h. aemlib_proto_decode_fixed_header buf buf_len out = Some (fh_status (fh_parse (take (unat buf_len) buf)), h)
      \<and> fh_header (fh_parse (take (unat buf_len) buf)) h"
    using False validate_status [of "packet_type_of (drop_bit 4 b)" "b AND 0x0F"]
    unfolding pre aemlib_proto_decode_fixed_header_def dec
    by (cases "rl_parse 0 0 (c # take n bs)"; cases out)
       (auto simp: word_less_nat_alt mem_read_def buf Let_def simp del: rl_parse.simps)
  with that show ?thesis by blast
qed

text \<open>Whatever the buffer, a decoded header announces a packet of at least two bytes.\<close>

lemma decode_fixed_header_len:
  assumes "aemlib_proto_decode_fixed_header buf buf_len out = Some (AEMLIB_STATUS_OK, h)"
  shows "2 \<le> unat (header_size h + ucast (header_remaining_length h))"
proof -
  obtain u where u: "header_size h = 1 + u" "0 < unat u" "unat u \<le> 4"
    using assms decode_remaining_length_used [of "drop 1 buf" "buf_len - 1" 0 0]
    by (auto simp: aemlib_proto_decode_fixed_header_def bind_Some_iff AEMLIB_CHECK_STATUS_returns_OK Let_def split: if_splits)
  then have "unat (header_size h) = 1 + unat u" by (simp add: unat_add_size)
  then show ?thesis
    using u unat_uint32_lt [of "header_remaining_length h"] by (simp add: unat_add_size unat_ucast_uint32)
qed

lemma fh_parse_bounds:
  assumes "fh_parse bs = FH_Ok t f n s"
  shows "n < 2 ^ 28" "2 \<le> s" "s \<le> 5" "s \<le> length bs"
proof -
  obtain b c cs where bs: "bs = b # c # cs" using assms by (cases bs rule: fh_parse.cases) auto
  obtain u where u: "rl_parse 0 0 (c # cs) = RL_Done n u" "s = Suc u"
    using assms unfolding bs by (auto simp: Let_def simp del: rl_parse.simps split: if_splits rl_result.splits)
  then have "0 < u" "u \<le> 4" "n < 128 ^ u" "u \<le> length (c # cs)"
    using rl_parse_bound [OF u(1)] by simp_all
  moreover from this have "n < 2 ^ 28" using power_increasing [of u 4 "128 :: nat"] by simp
  ultimately show "n < 2 ^ 28" "2 \<le> s" "s \<le> 5" "s \<le> length bs" using u(2) bs by simp_all
qed

text \<open>A decided prefix stays decided when more bytes arrive.\<close>

lemma fh_parse_append:
  assumes "fh_parse bs \<noteq> FH_Incomplete"
  shows "fh_parse (bs @ cs) = fh_parse bs"
proof -
  obtain b c bs' where bs: "bs = b # c # bs'" using assms by (cases bs rule: fh_parse.cases) auto
  show ?thesis
  proof (cases "validate_mqtt_flags (packet_type_of (drop_bit 4 b)) (b AND 0x0F) = AEMLIB_STATUS_OK")
    case True
    then have "rl_parse 0 0 (c # bs') \<noteq> RL_Incomplete" using assms unfolding bs
      by (auto simp: Let_def simp del: rl_parse.simps)
    then have "rl_parse 0 0 (c # bs' @ cs) = rl_parse 0 0 (c # bs')"
      using rl_parse_append [of 0 0 "c # bs'" cs] by simp
    then show ?thesis by (simp add: bs Let_def del: rl_parse.simps)
  qed (simp add: bs Let_def)
qed

text \<open>The header of an encoded packet is decided by the first byte and the length of the body.\<close>

lemma fh_parse_packet:
  assumes "length body < 2 ^ 28"
    and "validate_mqtt_flags (packet_type_of (drop_bit 4 h)) (h AND 0x0F) = AEMLIB_STATUS_OK"
  shows "fh_parse (mqtt_packet h body @ rest) =
    FH_Ok (packet_type_of (drop_bit 4 h)) (h AND 0x0F) (length body) (1 + length (rl_bytes (length body)))"
proof -
  let ?bs = "rl_bytes (length body)"
  have "length ?bs \<le> 4" using assms(1) by (simp add: length_rl_bytes_4)
  then have "rl_parse 0 0 (?bs @ body @ rest) = RL_Done (length body) (length ?bs)"
    by (simp add: rl_parse_bytes)
  moreover obtain c cs where "?bs = c # cs" using length_rl_bytes_pos(2) by (meson neq_Nil_conv)
  ultimately show ?thesis
    using assms(2) by (simp add: mqtt_packet_def Let_def del: rl_parse.simps)
qed

section \<open>The body of a PUBLISH packet\<close>

fun publish_parse :: "byte list \<Rightarrow> (byte list \<times> byte list) option" where
  "publish_parse (hi # lo # bs) =
     (let n = 256 * unat hi + unat lo in
      if n \<le> length bs then Some (take n bs, drop n bs) else None)"
| "publish_parse _ = None"

definition view_topic_bytes :: "mem \<Rightarrow> publish_view \<Rightarrow> byte list" where
  "view_topic_bytes buf v = take (unat (view_topic_len v)) (drop (unat (view_topic v)) buf)"

definition view_payload_bytes :: "mem \<Rightarrow> publish_view \<Rightarrow> byte list" where
  "view_payload_bytes buf v = take (unat (view_payload_len v)) (drop (unat (view_payload v)) buf)"

lemma unat_topic_length: "unat (push_bit 8 (ucast hi) OR ucast lo :: size_t) = 256 * unat hi + unat lo"
  for hi lo :: byte
proof -
  have "push_bit 8 (ucast hi) OR ucast lo = (push_bit 8 (ucast hi) + ucast lo :: size_t)"
    using bit_imp_le_length [of lo]
    by (intro disjunctive_add_eq_or [symmetric] bit_word_eqI) (fastforce simp: bit_simps)
  moreover have "unat (push_bit 8 (ucast hi) :: size_t) = 256 * unat hi"
    using unat_mult_lem [of "256 :: size_t" "ucast hi"] unat_byte_lt [of hi]
    by (simp add: push_bit_eq_mult unat_ucast_byte mult.commute)
  ultimately show ?thesis
    using unat_byte_lt [of hi] unat_byte_lt [of lo] by (simp add: unat_add_size unat_ucast_byte)
qed

text \<open>The two-byte prefix written by the encoder is the length the decoder reads, below \<open>2 ^ 16\<close>.\<close>

lemma uint16_prefix_mod:
  "256 * unat (ucast (drop_bit 8 (of_nat n :: uint16)) :: byte) + unat (ucast (of_nat n :: uint16) :: byte) = n mod 2 ^ 16"
proof -
  have "n mod 65536 div 256 < 256" using less_mult_imp_div_less [of "n mod 65536" 256 256] by simp
  moreover have "n mod 65536 mod 256 = n mod 256" using mod_mod_cancel [of 256 65536 n] by simp
  ultimately show ?thesis
    using div_mult_mod_eq [of "n mod 65536" 256]
    by (simp add: unsigned_ucast_eq unsigned_drop_bit_eq drop_bit_eq_div take_bit_eq_mod unat_of_nat unat_div mult.commute)
qed

lemma uint16_prefix:
  assumes "n < 2 ^ 16"
  shows "256 * unat (ucast (drop_bit 8 (of_nat n :: uint16)) :: byte) + unat (ucast (of_nat n :: uint16) :: byte) = n"
  using uint16_prefix_mod [of n] assms by simp

lemma uint16_be_of_nat: "uint16_be (of_nat n) = [of_nat (n mod 2 ^ 16 div 256), of_nat (n mod 256)]"
proof -
  have "n mod 65536 div 256 < 256" using less_mult_imp_div_less [of "n mod 65536" 256 256] by simp
  moreover have "n mod 65536 mod 256 = n mod 256" using mod_mod_cancel [of 256 65536 n] by simp
  ultimately show ?thesis
    by (simp add: uint16_be_def word_unat_eq_iff unsigned_ucast_eq unsigned_drop_bit_eq drop_bit_eq_div take_bit_eq_mod unat_of_nat unat_div)
qed

lemma publish_parse_body_mod:
  "publish_parse (publish_body topic payload) =
     Some (take (length topic mod 2 ^ 16) topic, drop (length topic mod 2 ^ 16) topic @ payload)"
proof -
  have "length topic mod 2 ^ 16 \<le> length topic" by (rule mod_less_eq_dividend)
  then show ?thesis using uint16_prefix_mod [of "length topic"] by (simp add: publish_body_def utf8_def uint16_be_def Let_def)
qed

lemma publish_parse_body:
  assumes "length topic < 2 ^ 16"
  shows "publish_parse (publish_body topic payload) = Some (topic, payload)"
  using assms by (simp add: publish_parse_body_mod)

definition header_qos :: "byte \<Rightarrow> byte" where
  "header_qos flags = drop_bit 1 flags AND 0x03"

text \<open>The topic length at offset \<open>s\<close> and the ranges that \<^verbatim>\<open>decode_publish\<close> returns for it.\<close>

definition topic_length_at :: "mem \<Rightarrow> nat \<Rightarrow> size_t" where
  "topic_length_at buf s = push_bit 8 (ucast (buf ! s)) OR ucast (buf ! Suc s)"

definition publish_ranges :: "mem \<Rightarrow> aemlib_mqtt_fixed_header \<Rightarrow> publish_view" where
  "publish_ranges buf h =
     (let tn = topic_length_at buf (unat (header_size h)); p = header_size h + 2 + tn in
      \<lparr>view_topic = header_size h + 2, view_topic_len = tn, view_payload = p,
       view_payload_len = header_size h + ucast (header_remaining_length h) - p\<rparr>)"

definition packet_inside :: "mem \<Rightarrow> size_t \<Rightarrow> aemlib_mqtt_fixed_header \<Rightarrow> bool" where
  "packet_inside buf buf_len h \<longleftrightarrow> unat buf_len \<le> length buf \<and> length buf < 2 ^ 63 \<and>
     unat (header_size h) + unat (header_remaining_length h) \<le> unat buf_len"

lemma packet_inside_end:
  assumes "packet_inside buf buf_len h" "k \<le> 65537"
  shows "unat (header_size h + ucast (header_remaining_length h)) = unat (header_size h) + unat (header_remaining_length h)"
    and "unat (header_size h + of_nat k) = unat (header_size h) + k"
  using assms by (simp_all add: packet_inside_def unat_rules unat_ucast_uint32)

lemma unat_topic_length_at: "unat (topic_length_at buf s) = 256 * unat (buf ! s) + unat (buf ! Suc s)"
  by (simp add: topic_length_at_def unat_topic_length)

lemma unat_publish_ranges:
  assumes "packet_inside buf buf_len h"
  defines "s \<equiv> unat (header_size h)" and "n \<equiv> unat (header_remaining_length h)"
  defines "tn \<equiv> unat (topic_length_at buf (unat (header_size h)))"
  shows "unat (view_topic (publish_ranges buf h)) = s + 2"
    and "unat (view_topic_len (publish_ranges buf h)) = tn"
    and "unat (view_payload (publish_ranges buf h)) = s + 2 + tn"
    and "tn + 2 \<le> n \<Longrightarrow> unat (view_payload_len (publish_ranges buf h)) = n - (tn + 2)"
proof -
  have tn: "tn < 65536"
    using unat_byte_lt [of "buf ! s"] unat_byte_lt [of "buf ! Suc s"]
    by (simp add: tn_def s_def unat_topic_length_at)
  have o2: "unat (header_size h + 2) = s + 2"
    using packet_inside_end(2) [OF assms(1), of 2] by (simp add: s_def)
  then show "unat (view_topic (publish_ranges buf h)) = s + 2"
    by (simp add: publish_ranges_def Let_def)
  show "unat (view_topic_len (publish_ranges buf h)) = tn"
    by (simp add: publish_ranges_def Let_def tn_def)
  have p: "unat (header_size h + 2 + topic_length_at buf (unat (header_size h))) = s + 2 + tn"
    using assms(1) tn o2 by (subst unat_add_size) (simp_all add: packet_inside_def s_def tn_def)
  then show "unat (view_payload (publish_ranges buf h)) = s + 2 + tn"
    by (simp add: publish_ranges_def Let_def)
  show "unat (view_payload_len (publish_ranges buf h)) = n - (tn + 2)" if "tn + 2 \<le> n"
  proof -
    have "unat (header_size h + ucast (header_remaining_length h)
        - (header_size h + 2 + topic_length_at buf (unat (header_size h)))) = n - (tn + 2)"
      using that p packet_inside_end(1) [OF assms(1), of 0]
      by (subst unat_diff_size) (simp_all add: s_def n_def)
    then show ?thesis by (simp only: publish_ranges_def Let_def publish_view.select_convs)
  qed
qed

text \<open>
  On a header that announces a packet inside the first \<^verbatim>\<open>buf_len\<close> bytes, \<^verbatim>\<open>decode_publish\<close> returns
  these ranges when the announced topic fits in the packet, and MALFORMED otherwise.
\<close>

lemma decode_publish_eq:
  assumes "packet_inside buf buf_len h" "header_qos (header_flags h) = 0"
  shows "aemlib_proto_decode_publish (Some buf) buf_len (Some h) (Some v) =
    (if unat (topic_length_at buf (unat (header_size h))) + 2 \<le> unat (header_remaining_length h)
     then Some (AEMLIB_STATUS_OK, Some (publish_ranges buf h))
     else Some (malformed, Some v))"
proof -
  let ?s = "unat (header_size h)" and ?n = "unat (header_remaining_length h)"
  let ?tn = "topic_length_at buf ?s"
  have qos: "drop_bit 1 (header_flags h) AND 3 = 0" using assms(2) by (simp add: header_qos_def)
  have pe: "unat (header_size h + ucast (header_remaining_length h)) = ?s + ?n"
    and o1: "unat (header_size h + 1) = ?s + 1" and o2: "unat (header_size h + 2) = ?s + 2"
    using packet_inside_end [OF assms(1), of 1] packet_inside_end(2) [OF assms(1), of 2] by simp_all
  have p: "unat (header_size h + 2 + ?tn) = ?s + 2 + unat ?tn"
    using unat_publish_ranges(3) [OF assms(1)] by (simp add: publish_ranges_def Let_def)
  have inside: "?s + ?n \<le> unat buf_len" "unat buf_len \<le> length buf"
    using assms(1) by (simp_all add: packet_inside_def)
  show ?thesis
  proof (cases "?n < 2")
    case True
    then show ?thesis
      using qos pe o2 inside by (simp add: aemlib_proto_decode_publish_def word_less_nat_alt)
  next
    case False
    then have "mem_read buf ?s = Some (buf ! ?s)" "mem_read buf (?s + 1) = Some (buf ! Suc ?s)"
      using inside by (simp_all add: mem_read_def)
    then show ?thesis
      using False qos pe o1 o2 p inside
      by (cases v) (simp add: aemlib_proto_decode_publish_def word_less_nat_alt Let_def not_less
            topic_length_at_def [symmetric] publish_ranges_def)
  qed
qed

lemma publish_parse_ranges:
  assumes "packet_inside buf buf_len h"
  shows "publish_parse (take (unat (header_remaining_length h)) (drop (unat (header_size h)) buf)) =
    (if unat (topic_length_at buf (unat (header_size h))) + 2 \<le> unat (header_remaining_length h)
     then Some (view_topic_bytes buf (publish_ranges buf h), view_payload_bytes buf (publish_ranges buf h))
     else None)"
proof -
  let ?s = "unat (header_size h)" and ?n = "unat (header_remaining_length h)"
  have inside: "?s + ?n \<le> length buf" using assms by (simp add: packet_inside_def)
  show ?thesis
  proof (cases "?n < 2")
    case True
    then have "length (take ?n (drop ?s buf)) < 2" by simp
    then have "publish_parse (take ?n (drop ?s buf)) = None"
      by (cases "take ?n (drop ?s buf)" rule: publish_parse.cases) auto
    with True show ?thesis by simp
  next
    case False
    then obtain m where m: "?n = Suc (Suc m)" by (metis add_2_eq_Suc le_Suc_ex not_less)
    have "drop ?s buf = buf ! ?s # buf ! Suc ?s # drop (Suc (Suc ?s)) buf"
      using m inside by (simp add: Cons_nth_drop_Suc)
    then have "take ?n (drop ?s buf) = buf ! ?s # buf ! Suc ?s # take m (drop (Suc (Suc ?s)) buf)"
      using m by simp
    then have parse: "publish_parse (take ?n (drop ?s buf)) =
        (let k = unat (topic_length_at buf ?s); r = take m (drop (Suc (Suc ?s)) buf) in
         if k \<le> m then Some (take k r, drop k r) else None)"
      using m inside by (simp add: unat_topic_length_at Let_def)
    show ?thesis
      unfolding parse Let_def using m unat_publish_ranges [OF assms]
      by (simp add: view_topic_bytes_def view_payload_bytes_def drop_take min_absorb1 add.commute)
  qed
qed

section \<open>Properties of the packet layer\<close>

text \<open>A decoded packet lies inside the bytes it was decoded from.\<close>

lemma decoded_header_inside:
  assumes "fh_parse bs = FH_Ok t f n s" "s + n \<le> unat buf_len" "unat buf_len \<le> length buf" "length buf < 2 ^ 63"
  defines "h \<equiv> \<lparr>header_type = t, header_flags = f, header_remaining_length = of_nat n, header_size = of_nat s\<rparr>"
  shows "unat (header_size h) = s" "unat (header_remaining_length h) = n" "packet_inside buf buf_len h"
proof -
  have "n < 2 ^ 28" "s \<le> 5" using fh_parse_bounds [OF assms(1)] by simp_all
  then show "unat (header_size h) = s" "unat (header_remaining_length h) = n"
    by (simp_all add: h_def unat_of_nat)
  with assms show "packet_inside buf buf_len h" by (simp add: packet_inside_def)
qed

lemma byte_nibbles: "b = push_bit 4 (drop_bit 4 b) OR (b AND 0x0F)" for b :: byte
proof -
  have "b AND 0x0F = take_bit 4 b" by (simp add: take_bit_eq_mask mask_eq_exp_minus_1)
  then show ?thesis by (simp only:) (auto intro!: bit_word_eqI simp: bit_simps)
qed

lemma low_nibble_cases:
  "b AND 0x0F \<in> {0, 1, 2, 3, 4, 5, 6, 7, 8, 9, 10, 11, 12, 13, 14, 15}" for b :: byte
proof -
  have "unat (b AND 0x0F) < 16"
    using word_and_le1 [of b "0x0F"] by (simp add: word_le_nat_alt)
  then have "unat (b AND 0x0F) \<in> set [0..<16]" by simp
  then have "word_of_nat (unat (b AND 0x0F)) \<in> (word_of_nat :: nat \<Rightarrow> byte) ` set [0..<16]" by (rule imageI)
  then show ?thesis by (simp add: upt_rec del: set_upt)
qed

lemma validate_flags_iff:
  "validate_mqtt_flags (packet_type_of t) f = AEMLIB_STATUS_OK \<longleftrightarrow>
     t \<in> {1, 2, 4, 9, 12, 13, 14} \<and> f = 0 \<or> t = 8 \<and> f = 2 \<or> t = 3 \<and> header_qos f \<noteq> 3"
  by (simp add: packet_type_of_def header_qos_def)

lemma first_byte_values:
  assumes "t \<in> {1, 2, 4, 9, 12, 13, 14} \<and> f = 0 \<or> t = 8 \<and> f = 2 \<or> t = 3 \<and> header_qos f \<noteq> 3"
    and "f \<in> {0, 1, 2, 3, 4, 5, 6, 7, 8, 9, 10, 11, 12, 13, 14, 15}"
  shows "push_bit 4 t OR f \<in> {0x10, 0x20, 0x40, 0x82, 0x90, 0xC0, 0xD0, 0xE0,
     0x30, 0x31, 0x32, 0x33, 0x34, 0x35, 0x38, 0x39, 0x3A, 0x3B, 0x3C, 0x3D}"
  using assms by (auto simp: header_qos_def)

lemma publish_roundtrip_gen:
  assumes ok: "publish_arg_ok (topic, payload, n)" and buf: "unat buf_len \<le> length buf" "length buf < 2 ^ 63"
    and fit: "body_fits (publish_body topic (take (unat n) payload)) buf_len"
  obtains buf' len h where
    "aemlib_proto_encode_publish buf buf_len out_len (cstring topic) payload n = Some (AEMLIB_STATUS_OK, buf', len)"
    "aemlib_proto_decode_fixed_header buf' len h0 = Some (AEMLIB_STATUS_OK, h)"
    "header_type h = AEMLIB_MQTT_PKT_PUBLISH" "packet_inside buf' len h" "header_qos (header_flags h) = 0"
    "take (unat (header_remaining_length h)) (drop (unat (header_size h)) buf') = publish_body topic (take (unat n) payload)"
    "unat len = unat (header_size h) + unat (header_remaining_length h)"
proof -
  let ?body = "publish_body topic (take (unat n) payload)"
  let ?pkt = "mqtt_packet 0x30 ?body"
  obtain buf' len where enc: "aemlib_proto_encode_publish buf buf_len out_len (cstring topic) payload n = Some (AEMLIB_STATUS_OK, buf', len)"
    and l: "length buf' = length buf" "unat len = length ?pkt" "length ?pkt \<le> unat buf_len" "take (length ?pkt) buf' = ?pkt"
    using publish_enc.enc_fits [of "(topic, payload, n)" buf_len buf out_len] assms
    by (auto simp: publish_packet_def)
  have parse: "fh_parse (take (unat len) buf') = FH_Ok AEMLIB_MQTT_PKT_PUBLISH 0 (length ?body) (1 + length (rl_bytes (length ?body)))"
    using fh_parse_packet [of ?body "0x30" "[]"] fit l by (simp add: packet_type_of_def body_fits_def)
  have inside: "1 + length (rl_bytes (length ?body)) + length ?body \<le> unat len" "unat len \<le> length buf'" "length buf' < 2 ^ 63"
    using l buf by (simp_all add: length_mqtt_packet)
  obtain h where dec: "aemlib_proto_decode_fixed_header buf' len h0 = Some (AEMLIB_STATUS_OK, h)"
    and h: "h = \<lparr>header_type = AEMLIB_MQTT_PKT_PUBLISH, header_flags = 0,
              header_remaining_length = of_nat (length ?body), header_size = of_nat (1 + length (rl_bytes (length ?body)))\<rparr>"
    using decode_fixed_header_spec [of len buf' h0] inside(2) parse by (metis fh_header.simps(1) fh_status.simps(3))
  note hdr = decoded_header_inside [OF parse inside, folded h]
  have "take (length ?body) (drop (1 + length (rl_bytes (length ?body))) (take (length ?pkt) buf')) = ?body"
    unfolding l(4) by (simp add: mqtt_packet_def)
  then have "take (unat (header_remaining_length h)) (drop (unat (header_size h)) buf') = ?body"
    using hdr(1,2) by (simp add: drop_take length_mqtt_packet)
  with that [OF enc dec _ hdr(3)] show ?thesis
    using hdr(1,2) l(2) by (simp add: h header_qos_def length_mqtt_packet)
qed

text \<open>
  C12: encoding a PUBLISH and decoding the bytes gives back the topic and the payload. For every
  admissible topic shorter than \<open>2 ^ 16\<close> and every payload that fit in the buffer, the encoder
  succeeds, the fixed header decoder recognises a PUBLISH packet of exactly the encoded length, and
  the publish decoder returns ranges of the buffer that hold the topic and the payload.
\<close>

theorem publish_roundtrip:
  assumes "publish_arg_ok (topic, payload, n)" "length topic < 2 ^ 16"
    and "unat buf_len \<le> length buf" "length buf < 2 ^ 63"
    and "body_fits (publish_body topic (take (unat n) payload)) buf_len"
  shows "\<exists>buf' len h v.
      aemlib_proto_encode_publish buf buf_len out_len (cstring topic) payload n = Some (AEMLIB_STATUS_OK, buf', len)
    \<and> aemlib_proto_decode_fixed_header buf' len h0 = Some (AEMLIB_STATUS_OK, h)
    \<and> header_type h = AEMLIB_MQTT_PKT_PUBLISH
    \<and> unat len = unat (header_size h) + unat (header_remaining_length h)
    \<and> aemlib_proto_decode_publish (Some buf') len (Some h) (Some v0) = Some (AEMLIB_STATUS_OK, Some v)
    \<and> view_topic_bytes buf' v = topic \<and> view_payload_bytes buf' v = take (unat n) payload"
proof -
  obtain buf' len h where r:
    "aemlib_proto_encode_publish buf buf_len out_len (cstring topic) payload n = Some (AEMLIB_STATUS_OK, buf', len)"
    "aemlib_proto_decode_fixed_header buf' len h0 = Some (AEMLIB_STATUS_OK, h)"
    "header_type h = AEMLIB_MQTT_PKT_PUBLISH" "packet_inside buf' len h" "header_qos (header_flags h) = 0"
    "take (unat (header_remaining_length h)) (drop (unat (header_size h)) buf') = publish_body topic (take (unat n) payload)"
    "unat len = unat (header_size h) + unat (header_remaining_length h)"
    by (rule publish_roundtrip_gen [OF assms(1,3-5)])
  then show ?thesis
    using publish_parse_ranges [OF r(4)] decode_publish_eq [OF r(4,5), of v0]
      publish_parse_body [OF assms(2), of "take (unat n) payload"]
    by (auto split: if_splits)
qed

theorem publish_roundtrip_witness:
  "\<exists>buf' len h v.
      aemlib_proto_encode_publish (replicate 32 0) 32 0 (cstring [0x61, 0x2F, 0x62]) [1, 2, 3, 4] 3 = Some (AEMLIB_STATUS_OK, buf', len)
    \<and> aemlib_proto_decode_fixed_header buf' len uninit_header = Some (AEMLIB_STATUS_OK, h)
    \<and> header_type h = AEMLIB_MQTT_PKT_PUBLISH
    \<and> unat len = unat (header_size h) + unat (header_remaining_length h)
    \<and> aemlib_proto_decode_publish (Some buf') len (Some h) (Some null_view) = Some (AEMLIB_STATUS_OK, Some v)
    \<and> view_topic_bytes buf' v = [0x61, 0x2F, 0x62] \<and> view_payload_bytes buf' v = take (unat (3 :: size_t)) [1, 2, 3, 4]"
  by (rule publish_roundtrip) (simp_all add: publish_arg_ok_def body_fits_def)

text \<open>
  C37: a topic of \<open>2 ^ 16\<close> bytes or more is not rejected. The encoder reports success, but the packet it has written carries the
  length of the topic modulo \<open>2 ^ 16\<close> in front of the whole topic. Whatever decodes it by the same rules sees the topic cut to that
  length, and the rest of the topic at the front of the payload.
\<close>

theorem publish_long_topic_misencoded:
  assumes "publish_arg_ok (topic, payload, n)" "2 ^ 16 \<le> length topic"
    and "unat buf_len \<le> length buf" "length buf < 2 ^ 63"
    and "body_fits (publish_body topic (take (unat n) payload)) buf_len"
  shows "\<exists>buf' len h v.
      aemlib_proto_encode_publish buf buf_len out_len (cstring topic) payload n = Some (AEMLIB_STATUS_OK, buf', len)
    \<and> aemlib_proto_decode_fixed_header buf' len h0 = Some (AEMLIB_STATUS_OK, h)
    \<and> drop (unat (header_size h)) (take (unat len) buf')
      = [of_nat (length topic mod 2 ^ 16 div 256), of_nat (length topic mod 256)] @ topic @ take (unat n) payload
    \<and> aemlib_proto_decode_publish (Some buf') len (Some h) (Some v0) = Some (AEMLIB_STATUS_OK, Some v)
    \<and> view_topic_bytes buf' v = take (length topic mod 2 ^ 16) topic \<and> view_topic_bytes buf' v \<noteq> topic
    \<and> view_payload_bytes buf' v = drop (length topic mod 2 ^ 16) topic @ take (unat n) payload"
proof -
  let ?k = "length topic mod 2 ^ 16"
  obtain buf' len h where r:
    "aemlib_proto_encode_publish buf buf_len out_len (cstring topic) payload n = Some (AEMLIB_STATUS_OK, buf', len)"
    "aemlib_proto_decode_fixed_header buf' len h0 = Some (AEMLIB_STATUS_OK, h)"
    "packet_inside buf' len h" "header_qos (header_flags h) = 0"
    "take (unat (header_remaining_length h)) (drop (unat (header_size h)) buf') = publish_body topic (take (unat n) payload)"
    "unat len = unat (header_size h) + unat (header_remaining_length h)"
    by (rule publish_roundtrip_gen [OF assms(1,3-5)])
  obtain v where v: "aemlib_proto_decode_publish (Some buf') len (Some h) (Some v0) = Some (AEMLIB_STATUS_OK, Some v)"
    "view_topic_bytes buf' v = take ?k topic" "view_payload_bytes buf' v = drop ?k topic @ take (unat n) payload"
    using publish_parse_ranges [OF r(3)] decode_publish_eq [OF r(3,4), of v0] publish_parse_body_mod [of topic "take (unat n) payload"] r(5)
    by (auto split: if_splits)
  have "?k < 2 ^ 16" by (rule mod_less_divisor) simp
  then have "?k < length topic" using assms(2) by (rule less_le_trans)
  then have "length (take ?k topic) \<noteq> length topic" by simp
  then have "view_topic_bytes buf' v \<noteq> topic" using v(2) by metis
  moreover have "drop (unat (header_size h)) (take (unat len) buf') =
      [of_nat (?k div 256), of_nat (length topic mod 256)] @ topic @ take (unat n) payload"
    using r(5,6) by (simp add: drop_take publish_body_def utf8_def uint16_be_of_nat)
  ultimately show ?thesis using r(1,2) v by blast
qed

theorem publish_long_topic_misencoded_witness:
  "\<exists>buf' len h v.
      aemlib_proto_encode_publish (replicate 70000 0) 70000 0 (cstring (replicate 65538 0x61)) [7] 1 = Some (AEMLIB_STATUS_OK, buf', len)
    \<and> aemlib_proto_decode_fixed_header buf' len uninit_header = Some (AEMLIB_STATUS_OK, h)
    \<and> aemlib_proto_decode_publish (Some buf') len (Some h) (Some null_view) = Some (AEMLIB_STATUS_OK, Some v)
    \<and> view_topic_bytes buf' v = [0x61, 0x61] \<and> view_payload_bytes buf' v = replicate 65536 0x61 @ [7]"
proof -
  have "\<exists>buf' len h v.
      aemlib_proto_encode_publish (replicate 70000 0) 70000 0 (cstring (replicate 65538 0x61)) [7] 1 = Some (AEMLIB_STATUS_OK, buf', len)
    \<and> aemlib_proto_decode_fixed_header buf' len uninit_header = Some (AEMLIB_STATUS_OK, h)
    \<and> aemlib_proto_decode_publish (Some buf') len (Some h) (Some null_view) = Some (AEMLIB_STATUS_OK, Some v)
    \<and> view_topic_bytes buf' v = take (length (replicate 65538 (0x61 :: byte)) mod 2 ^ 16) (replicate 65538 0x61)
    \<and> view_payload_bytes buf' v = drop (length (replicate 65538 (0x61 :: byte)) mod 2 ^ 16) (replicate 65538 0x61) @ take (unat (1 :: size_t)) [7]"
    using publish_long_topic_misencoded [of "replicate 65538 0x61" "[7]" 1 70000 "replicate 70000 0" 0 uninit_header null_view]
    by (simp add: publish_arg_ok_def body_fits_def) blast
  moreover have "[0x61, 0x61] = replicate 2 (0x61 :: byte)" by (simp add: numeral_2_eq_2)
  ultimately show ?thesis by simp
qed

text \<open>
  C27: the fixed header decoder computes \<^verbatim>\<open>fh_parse\<close> of the first \<^verbatim>\<open>buf_len\<close> bytes and reads no
  others. On success all four fields of the result are determined by those bytes (nothing of the
  uninitialised header of the caller survives), the header has two to five bytes, all inside the
  buffer, and the remaining length is below \<open>2 ^ 28\<close>.
\<close>

theorem decode_fixed_header_correct:
  assumes "unat buf_len \<le> length buf"
  shows "\<exists>h. aemlib_proto_decode_fixed_header buf buf_len out = Some (fh_status (fh_parse (take (unat buf_len) buf)), h)
    \<and> (\<forall>t f n s. fh_parse (take (unat buf_len) buf) = FH_Ok t f n s \<longrightarrow>
        header_type h = t \<and> header_flags h = f \<and> unat (header_remaining_length h) = n \<and> unat (header_size h) = s
        \<and> n < 2 ^ 28 \<and> 2 \<le> s \<and> s \<le> 5 \<and> s \<le> unat buf_len)"
proof (rule decode_fixed_header_spec [OF assms, of out])
  fix h
  let ?p = "fh_parse (take (unat buf_len) buf)"
  assume h: "aemlib_proto_decode_fixed_header buf buf_len out = Some (fh_status ?p, h)" "fh_header ?p h"
  have "header_type h = t \<and> header_flags h = f \<and> unat (header_remaining_length h) = n \<and> unat (header_size h) = s
        \<and> n < 2 ^ 28 \<and> 2 \<le> s \<and> s \<le> 5 \<and> s \<le> unat buf_len" if p: "?p = FH_Ok t f n s" for t f n s
    using h(2) fh_parse_bounds [OF p] unfolding p by (simp add: unat_of_nat)
  with h(1) show ?thesis by blast
qed

theorem decode_fixed_header_correct_witness:
  "\<exists>h. aemlib_proto_decode_fixed_header [0x31, 0xC1, 0x02, 0xFF] 4 uninit_header = Some (AEMLIB_STATUS_OK, h)
    \<and> header_type h = AEMLIB_MQTT_PKT_PUBLISH \<and> header_flags h = 1 \<and> unat (header_remaining_length h) = 321
    \<and> unat (header_size h) = 3"
proof -
  have "fh_parse [0x31, 0xC1, 0x02, 0xFF] = FH_Ok AEMLIB_MQTT_PKT_PUBLISH 1 321 3"
    by (simp add: packet_type_of_def)
  then show ?thesis using decode_fixed_header_correct [of 4 "[0x31, 0xC1, 0x02, 0xFF]" uninit_header] by simp
qed

text \<open>
  C31: which first bytes pass the type and flag check, over all 256 of them: the flags are zero for
  CONNECT, CONNACK, PUBACK, SUBACK, PINGREQ, PINGRESP and DISCONNECT, two for SUBSCRIBE, and
  anything but QoS 3 for PUBLISH; every other packet type is refused.
\<close>

theorem fixed_header_first_byte:
  "validate_mqtt_flags (packet_type_of (drop_bit 4 b)) (b AND 0x0F) = AEMLIB_STATUS_OK \<longleftrightarrow>
     b \<in> {0x10, 0x20, 0x40, 0x82, 0x90, 0xC0, 0xD0, 0xE0,
           0x30, 0x31, 0x32, 0x33, 0x34, 0x35, 0x38, 0x39, 0x3A, 0x3B, 0x3C, 0x3D}"
proof
  assume ok: "validate_mqtt_flags (packet_type_of (drop_bit 4 b)) (b AND 0x0F) = AEMLIB_STATUS_OK"
  show "b \<in> {0x10, 0x20, 0x40, 0x82, 0x90, 0xC0, 0xD0, 0xE0,
           0x30, 0x31, 0x32, 0x33, 0x34, 0x35, 0x38, 0x39, 0x3A, 0x3B, 0x3C, 0x3D}"
    using first_byte_values [OF ok [unfolded validate_flags_iff] low_nibble_cases] byte_nibbles [of b] by metis
qed (auto simp: validate_flags_iff header_qos_def)

text \<open>
  C28: a PUBLISH packet that lies in the buffer is decoded without leaving it, whatever its bytes
  are: QoS 1 and 2 are refused as UNSUPPORTED, a topic that does not fit in the packet as MALFORMED,
  and otherwise the two ranges that are returned lie inside the packet and hold the topic and the
  payload of the specification.
\<close>

theorem decode_publish_correct:
  assumes "unat buf_len \<le> length buf" "length buf < 2 ^ 63"
    and "unat (header_size h) + unat (header_remaining_length h) \<le> unat buf_len"
  shows "aemlib_proto_decode_publish (Some buf) buf_len (Some h) (Some v) =
      (if header_qos (header_flags h) \<noteq> 0 then Some (AEMLIB_STATUS AEMLIB_LAYER_PROTOCOL AEMLIB_CODE_UNSUPPORTED, Some v)
       else if publish_parse (take (unat (header_remaining_length h)) (drop (unat (header_size h)) buf)) = None
       then Some (malformed, Some v)
       else Some (AEMLIB_STATUS_OK, Some (publish_ranges buf h)))
    \<and> (\<forall>topic payload.
        publish_parse (take (unat (header_remaining_length h)) (drop (unat (header_size h)) buf)) = Some (topic, payload) \<longrightarrow>
          view_topic_bytes buf (publish_ranges buf h) = topic \<and> view_payload_bytes buf (publish_ranges buf h) = payload
        \<and> unat (view_topic (publish_ranges buf h)) + unat (view_topic_len (publish_ranges buf h)) \<le> unat buf_len
        \<and> unat (view_payload (publish_ranges buf h)) + unat (view_payload_len (publish_ranges buf h)) \<le> unat buf_len)"
proof -
  have inside: "packet_inside buf buf_len h" using assms by (simp add: packet_inside_def)
  have "aemlib_proto_decode_publish (Some buf) buf_len (Some h) (Some v)
      = Some (AEMLIB_STATUS AEMLIB_LAYER_PROTOCOL AEMLIB_CODE_UNSUPPORTED, Some v)" if "header_qos (header_flags h) \<noteq> 0"
    using that by (simp add: aemlib_proto_decode_publish_def header_qos_def)
  then show ?thesis
    using decode_publish_eq [OF inside, of v] publish_parse_ranges [OF inside] unat_publish_ranges [OF inside] assms(3)
    by auto
qed

theorem decode_publish_correct_witness:
  "aemlib_proto_decode_publish (Some [0x30, 4, 0, 1, 0x61, 9]) 6
      (Some \<lparr>header_type = AEMLIB_MQTT_PKT_PUBLISH, header_flags = 0, header_remaining_length = 4, header_size = 2\<rparr>) (Some null_view)
   = Some (AEMLIB_STATUS_OK, Some \<lparr>view_topic = 4, view_topic_len = 1, view_payload = 5, view_payload_len = 1\<rparr>)"
  using decode_publish_correct [of 6 "[0x30, 4, 0, 1, 0x61, 9]"
      "\<lparr>header_type = AEMLIB_MQTT_PKT_PUBLISH, header_flags = 0, header_remaining_length = 4, header_size = 2\<rparr>" null_view]
  by (simp add: header_qos_def publish_ranges_def topic_length_at_def)

text \<open>
  C29: CONNECT is encoded byte for byte as MQTT 3.1.1 lays it out: the protocol name, level 4, the
  clean session flag, the keep alive seconds and the client identifier. The encoder succeeds exactly
  when the buffer has five bytes more than the packet body (four of them are reserved for the remaining
  length, however short it is) and the body is below \<open>2 ^ 28\<close> bytes; otherwise it reports
  BUFFER_TOO_SMALL and leaves \<^verbatim>\<open>*out_len\<close> alone.
\<close>

theorem encode_connect_correct:
  assumes "unat buf_len \<le> length buf" "length buf < 2 ^ 63" "0 \<notin> set client_id" "length client_id + 12 < 2 ^ 32"
  shows "\<exists>st buf' n. aemlib_proto_encode_connect buf buf_len out_len (cstring client_id) k = Some (st, buf', n)
      \<and> length buf' = length buf
      \<and> (if 5 + (length client_id + 12) \<le> unat buf_len \<and> length client_id + 12 < 2 ^ 28
         then st = AEMLIB_STATUS_OK \<and> take (unat n) buf' =
           [0x10] @ rl_bytes (length client_id + 12) @ [0, 4, 0x4D, 0x51, 0x54, 0x54, 4, 2] @ uint16_be k
           @ uint16_be (of_nat (length client_id)) @ client_id
         else st = buffer_too_small \<and> n = out_len)"
proof -
  have "[0x10] @ rl_bytes (length client_id + 12) @ [0, 4, 0x4D, 0x51, 0x54, 0x54, 4, 2] @ uint16_be k
      @ uint16_be (of_nat (length client_id)) @ client_id = mqtt_packet 0x10 (connect_body client_id k)"
    unfolding mqtt_packet_def length_bodies by (simp add: connect_body_def utf8_def uint16_be_def)
  then show ?thesis
    using encodesD [OF encode_connect_spec [OF assms, of out_len k]] unfolding length_bodies by (simp only:)
qed

theorem encode_connect_correct_witness:
  "\<exists>buf' n. aemlib_proto_encode_connect (replicate 20 0xAA) 20 0 (cstring []) 60 = Some (AEMLIB_STATUS_OK, buf', n)
    \<and> take (unat n) buf' = [0x10, 12, 0, 4, 0x4D, 0x51, 0x54, 0x54, 4, 2, 0, 60, 0, 0]"
  using encode_connect_correct [of 20 "replicate 20 0xAA" "[]" 0 60]
  by (auto simp: rl_bytes.simps uint16_be_def)

text \<open>
  C30: SUBSCRIBE is encoded byte for byte as MQTT 3.1.1 lays it out for one topic filter with QoS 0,
  under the same space condition, and the packet identifier it carries is the one the SUBACK decoder
  returns from the acknowledgement that echoes it.
\<close>

theorem encode_subscribe_correct:
  assumes "unat buf_len \<le> length buf" "length buf < 2 ^ 63" "0 \<notin> set topic" "length topic + 5 < 2 ^ 32"
  shows "(\<exists>st buf' n. aemlib_proto_encode_subscribe buf buf_len out_len pid (cstring topic) = Some (st, buf', n)
      \<and> length buf' = length buf
      \<and> (if 5 + (length topic + 5) \<le> unat buf_len \<and> length topic + 5 < 2 ^ 28
         then st = AEMLIB_STATUS_OK \<and> take (unat n) buf' =
           [0x82] @ rl_bytes (length topic + 5) @ uint16_be pid @ uint16_be (of_nat (length topic)) @ topic @ [0]
         else st = buffer_too_small \<and> n = out_len))
    \<and> aemlib_proto_decode_suback ([0x90, 3] @ uint16_be pid @ [qos]) 5 pid0 qos0 = Some (AEMLIB_STATUS_OK, pid, qos)"
proof
  have "push_bit 8 (ucast (ucast (drop_bit 8 pid) :: byte)) OR ucast (ucast pid :: byte) = pid"
    by (rule bit_word_eqI) (auto simp: bit_simps)
  then show "aemlib_proto_decode_suback ([0x90, 3] @ uint16_be pid @ [qos]) 5 pid0 qos0 = Some (AEMLIB_STATUS_OK, pid, qos)"
    by (simp add: aemlib_proto_decode_suback_def mem_read_def uint16_be_def)
  have "[0x82] @ rl_bytes (length topic + 5) @ uint16_be pid @ uint16_be (of_nat (length topic)) @ topic @ [0]
      = mqtt_packet 0x82 (subscribe_body pid topic)"
    unfolding mqtt_packet_def length_bodies by (simp add: subscribe_body_def utf8_def)
  then show "\<exists>st buf' n. aemlib_proto_encode_subscribe buf buf_len out_len pid (cstring topic) = Some (st, buf', n)
      \<and> length buf' = length buf
      \<and> (if 5 + (length topic + 5) \<le> unat buf_len \<and> length topic + 5 < 2 ^ 28
         then st = AEMLIB_STATUS_OK \<and> take (unat n) buf' =
           [0x82] @ rl_bytes (length topic + 5) @ uint16_be pid @ uint16_be (of_nat (length topic)) @ topic @ [0]
         else st = buffer_too_small \<and> n = out_len)"
    using encodesD [OF encode_subscribe_spec [OF assms, of out_len pid]] unfolding length_bodies by (simp only:)
qed

theorem encode_subscribe_correct_witness:
  "(\<exists>buf' n. aemlib_proto_encode_subscribe (replicate 20 0xAA) 20 0 258 (cstring [0x61, 0x62]) = Some (AEMLIB_STATUS_OK, buf', n)
      \<and> take (unat n) buf' = [0x82, 7, 1, 2, 0, 2, 0x61, 0x62, 0])
   \<and> aemlib_proto_decode_suback [0x90, 3, 1, 2, 0x80] 5 0 0 = Some (AEMLIB_STATUS_OK, 258, 0x80)"
proof -
  have be: "uint16_be 258 = [1, 2]" "uint16_be 2 = [0, 2]" by (simp_all add: uint16_be_def)
  show ?thesis
    using encode_subscribe_correct [of 20 "replicate 20 0xAA" "[0x61, 0x62]" 0 258 "0x80" 0 0]
    by (auto simp: rl_bytes.simps be)
qed

end
