(* ===== verification/Aem_Core.thy ===== *)
theory Aem_Core
  imports Aem_Platform Aem_Proto_Decode
begin

text \<open>
  The connection state machine (\<^verbatim>\<open>core/core.h\<close>, \<^verbatim>\<open>core/core.c\<close>): configuration, the transition requested by
  connect and disconnect, packet identifiers, and one handler per state, of which the one that waits for the
  CONNACK reads from the transport, parses and times out.

  A handler takes the client and the world and returns the status, the client and the world after the call;
  a public function takes a pointer to the client that may be null. The buffers that the client refers to
  are part of its record: the receive and the transmit buffer are distinct objects that nothing else
  writes. Log calls are compiled to nothing (theory \<^verbatim>\<open>Aem_Log\<close>) and are left out.
\<close>

type_synonym 'w call = "(aemlib_status_t \<times> 'w aemlib_client \<times> 'w) option"
type_synonym 'w pcall = "(aemlib_status_t \<times> 'w aemlib_client option \<times> 'w) option"

section \<open>Configuration\<close>

definition validate_config :: "'w aemlib_config option \<Rightarrow> aemlib_status_t" where
  "validate_config cfg =
     (case cfg of
        None \<Rightarrow> invalid_arg
      | Some cfg \<Rightarrow>
          if cfg_tx_buffer cfg = None \<or> cfg_tx_buffer_size cfg = 0 then invalid_arg
          else if cfg_rx_buffer cfg = None \<or> cfg_rx_buffer_size cfg = 0 then invalid_arg
          else if aemlib_transport_validate (Some (cfg_transport cfg)) \<noteq> AEMLIB_STATUS_OK then invalid_arg
          else if aemlib_time_validate (Some (cfg_time cfg)) \<noteq> AEMLIB_STATUS_OK then invalid_arg
          else AEMLIB_STATUS_OK)"

definition apply_config ::
    "'w aemlib_client option \<Rightarrow> 'w aemlib_config option \<Rightarrow> aemlib_status_t \<times> 'w aemlib_client option" where
  "apply_config client config =
     (case (client, config) of
        (Some client, Some config) \<Rightarrow>
          (AEMLIB_STATUS_OK,
           Some (client\<lparr>c_transport := cfg_transport config,
                        c_time := cfg_time config,
                        c_storage := cfg_storage config,
                        c_tx_buffer := cfg_tx_buffer config,
                        c_tx_buffer_size := cfg_tx_buffer_size config,
                        c_rx_buffer := cfg_rx_buffer config,
                        c_rx_buffer_size := cfg_rx_buffer_size config,
                        c_keepalive_interval_ms := cfg_keepalive_interval_ms config,
                        c_on_message := cfg_on_message config\<rparr>))
      | _ \<Rightarrow> (invalid_arg, client))"

definition aemlib_core_init :: "'w aemlib_client option \<Rightarrow> 'w aemlib_config option \<Rightarrow> 'w \<Rightarrow> 'w pcall" where
  "aemlib_core_init client config w =
     (if client = None then Some (invalid_arg, client, w)
      else
        let status = validate_config config in
        AEMLIB_CHECK_STATUS status (Some (status, client, w)) (
        let (status, client) = apply_config client config in
        AEMLIB_CHECK_STATUS status (Some (status, client, w)) (do {
          c \<leftarrow> client;
          let c = c\<lparr>c_packet_id := 1\<rparr>;
              c = c\<lparr>c_state := AEMLIB_STATE_DISCONNECTED\<rparr>;
              (now, w) = aemlib_time_now (c_time c) w;
              c = c\<lparr>c_last_activity_ms := now\<rparr>
          in Some (AEMLIB_STATUS_OK, Some c, w)
        })))"

section \<open>Requests\<close>

definition aemlib_core_connect :: "'w aemlib_client option \<Rightarrow> aemlib_status_t \<times> 'w aemlib_client option" where
  "aemlib_core_connect client =
     (case client of
        None \<Rightarrow> (invalid_arg, None)
      | Some c \<Rightarrow>
          if c_state c \<noteq> AEMLIB_STATE_DISCONNECTED then (state_invalid, Some c)
          else (AEMLIB_STATUS_OK, Some (c\<lparr>c_state := AEMLIB_STATE_CONNECTING, c_connect_sent := 0\<rparr>)))"

definition aemlib_core_disconnect :: "'w aemlib_client option \<Rightarrow> aemlib_status_t \<times> 'w aemlib_client option" where
  "aemlib_core_disconnect client =
     (case client of
        None \<Rightarrow> (invalid_arg, None)
      | Some c \<Rightarrow>
          if c_state c \<noteq> AEMLIB_STATE_MQTT_CONNECTED then (state_invalid, Some c)
          else (AEMLIB_STATUS_OK, Some (c\<lparr>c_state := AEMLIB_STATE_MQTT_DISCONNECTING\<rparr>)))"

definition aemlib_core_next_packet_id :: "'w aemlib_client option \<Rightarrow> uint16 \<times> 'w aemlib_client option" where
  "aemlib_core_next_packet_id client =
     (case client of
        None \<Rightarrow> (1, None)
      | Some c \<Rightarrow>
          let c = c\<lparr>c_packet_id := c_packet_id c + 1\<rparr>;
              c = (if c_packet_id c = 0 then c\<lparr>c_packet_id := 1\<rparr> else c)
          in (c_packet_id c, Some c))"

section \<open>State handlers\<close>

definition handle_state_disconnected :: "'w aemlib_client \<Rightarrow> 'w \<Rightarrow> 'w call" where
  "handle_state_disconnected c w = Some (AEMLIB_STATUS_OK, c, w)"

definition handle_state_connecting :: "'w aemlib_client \<Rightarrow> 'w \<Rightarrow> 'w call" where
  "handle_state_connecting c w = do {
     (status, w) \<leftarrow> aemlib_transport_connect (c_transport c) w;
     if status = AEMLIB_STATUS_OK then
       let c = c\<lparr>c_state := AEMLIB_STATE_MQTT_CONNECT_SENT\<rparr>;
           (now, w) = aemlib_time_now (c_time c) w
       in Some (AEMLIB_STATUS_OK, c\<lparr>c_last_activity_ms := now\<rparr>, w)
     else if would_block status then Some (AEMLIB_STATUS_OK, c, w)
     else Some (status, c\<lparr>c_state := AEMLIB_STATE_DISCONNECTED\<rparr>, w)
   }"

text \<open>
  Reading behind the bytes that are already buffered: \<^verbatim>\<open>rx_buffer + rx_len\<close> is the rest of the receive
  buffer from \<^verbatim>\<open>rx_len\<close> on, and undefined beyond the end of the buffer.
\<close>

definition mem_from :: "mem \<Rightarrow> nat \<Rightarrow> mem option" where
  "mem_from m i = (if i \<le> length m then Some (drop i m) else None)"

definition rx_read :: "'w aemlib_client \<Rightarrow> 'w \<Rightarrow> (aemlib_status_t \<times> size_t \<times> 'w aemlib_client \<times> 'w) option" where
  "rx_read c w = do {
     rx \<leftarrow> c_rx_buffer c;
     dst \<leftarrow> mem_from rx (unat (c_rx_len c));
     (status, dst, read, w) \<leftarrow> aemlib_transport_read (c_transport c) dst (c_rx_buffer_size c - c_rx_len c) 0 w;
     Some (status, read, c\<lparr>c_rx_buffer := Some (take (unat (c_rx_len c)) rx @ dst)\<rparr>, w)
   }"

text \<open>\<^verbatim>\<open>rx_len -= packet_len\<close> and the move of the bytes behind the packet to the start of the buffer.\<close>

definition rx_consume :: "'w aemlib_client \<Rightarrow> size_t \<Rightarrow> 'w aemlib_client option" where
  "rx_consume c packet_len =
     (let c = c\<lparr>c_rx_len := c_rx_len c - packet_len\<rparr> in
      if c_rx_len c > 0 then do {
        rx \<leftarrow> c_rx_buffer c;
        rx \<leftarrow> mem_move rx 0 (unat packet_len) (unat (c_rx_len c));
        Some (c\<lparr>c_rx_buffer := Some rx\<rparr>)
      }
      else Some c)"

text \<open>Every failure while waiting for the CONNACK drops the transport and returns to DISCONNECTED.\<close>

definition drop_connection :: "'w aemlib_client \<Rightarrow> aemlib_status_t \<Rightarrow> 'w \<Rightarrow> 'w call" where
  "drop_connection c status w = do {
     (_, w) \<leftarrow> aemlib_transport_disconnect (c_transport c) w;
     Some (status, c\<lparr>c_state := AEMLIB_STATE_DISCONNECTED\<rparr>, w)
   }"

definition AEMLIB_CORE_CONNACK_TIMEOUT_MS :: uint64 where
  "AEMLIB_CORE_CONNACK_TIMEOUT_MS = 5000"

definition check_connack_timeout :: "'w aemlib_client \<Rightarrow> 'w \<Rightarrow> 'w call" where
  "check_connack_timeout c w =
     (let (now, w) = aemlib_time_now (c_time c) w in
      if now - c_last_activity_ms c \<ge> AEMLIB_CORE_CONNACK_TIMEOUT_MS
      then drop_connection c (AEMLIB_STATUS AEMLIB_LAYER_GENERAL AEMLIB_CODE_TIMEOUT) w
      else Some (AEMLIB_STATUS_OK, c, w))"

text \<open>The part of the handler behind the read: lines 203 to 267.\<close>

definition connect_sent_process :: "'w aemlib_client \<Rightarrow> 'w \<Rightarrow> 'w call" where
  "connect_sent_process c w =
     (if c_rx_len c > 0 then do {
        rx \<leftarrow> c_rx_buffer c;
        (status, header) \<leftarrow> aemlib_proto_decode_fixed_header rx (c_rx_len c) uninit_header;
        if status = AEMLIB_STATUS_OK then
          if header_type header \<noteq> AEMLIB_MQTT_PKT_CONNACK then drop_connection c protocol_error w
          else
            let packet_len = header_size header + ucast (header_remaining_length header) in
            if packet_len > c_rx_buffer_size c then drop_connection c buffer_too_small w
            else if packet_len \<le> c_rx_len c then do {
              (status, session_present, return_code) \<leftarrow> aemlib_proto_decode_connack rx packet_len 0 0;
              c \<leftarrow> rx_consume c packet_len;
              if status = AEMLIB_STATUS_OK \<and> return_code = 0 then
                let c = c\<lparr>c_state := AEMLIB_STATE_MQTT_CONNECTED\<rparr>;
                    (now, w) = aemlib_time_now (c_time c) w
                in Some (AEMLIB_STATUS_OK, c\<lparr>c_last_activity_ms := now\<rparr>, w)
              else drop_connection c (AEMLIB_STATUS AEMLIB_LAYER_PROTOCOL AEMLIB_CODE_CONNECT) w
            }
            else check_connack_timeout c w
        else if AEMLIB_STATUS_CODE status \<noteq> code_val AEMLIB_CODE_BUFFER_TOO_SMALL then drop_connection c status w
        else check_connack_timeout c w
      }
      else check_connack_timeout c w)"

definition handle_state_mqtt_connect_sent :: "'w aemlib_client \<Rightarrow> 'w \<Rightarrow> 'w call" where
  "handle_state_mqtt_connect_sent c w = do {
     (status, read, c, w) \<leftarrow> rx_read c w;
     if status \<noteq> AEMLIB_STATUS_OK \<and> \<not> would_block status then drop_connection c status w
     else
       let read = (if would_block status then 0 else read)
       in connect_sent_process (c\<lparr>c_rx_len := c_rx_len c + read\<rparr>) w
   }"

definition handle_state_mqtt_connected :: "'w aemlib_client \<Rightarrow> 'w \<Rightarrow> 'w call" where
  "handle_state_mqtt_connected c w = Some (AEMLIB_STATUS_OK, c, w)"

definition handle_state_mqtt_disconnecting :: "'w aemlib_client \<Rightarrow> 'w \<Rightarrow> 'w call" where
  "handle_state_mqtt_disconnecting c w = do {
     (_, w) \<leftarrow> aemlib_transport_disconnect (c_transport c) w;
     Some (AEMLIB_STATUS_OK, c\<lparr>c_state := AEMLIB_STATE_DISCONNECTED\<rparr>, w)
   }"

definition core_poll_state :: "'w aemlib_client \<Rightarrow> 'w \<Rightarrow> 'w call" where
  "core_poll_state c w =
     (case c_state c of
        AEMLIB_STATE_DISCONNECTED \<Rightarrow> handle_state_disconnected c w
      | AEMLIB_STATE_CONNECTING \<Rightarrow> handle_state_connecting c w
      | AEMLIB_STATE_MQTT_CONNECT_SENT \<Rightarrow> handle_state_mqtt_connect_sent c w
      | AEMLIB_STATE_MQTT_CONNECTED \<Rightarrow> handle_state_mqtt_connected c w
      | AEMLIB_STATE_MQTT_DISCONNECTING \<Rightarrow> handle_state_mqtt_disconnecting c w
      | AEMLIB_STATE_STRAY _ \<Rightarrow> Some (state_invalid, c, w))"

text \<open>The answer of a function that got a pointer to the client \<open>c\<close>.\<close>

definition to_pcall :: "'w call \<Rightarrow> 'w pcall" where
  "to_pcall r = map_option (\<lambda>(status, c, w). (status, Some c, w)) r"

definition aemlib_core_poll :: "'w aemlib_client option \<Rightarrow> 'w \<Rightarrow> 'w pcall" where
  "aemlib_core_poll client w =
     (case client of
        None \<Rightarrow> Some (invalid_arg, None, w)
      | Some c \<Rightarrow> to_pcall (core_poll_state c w))"

section \<open>Well-formed clients\<close>

text \<open>
  What initialisation establishes and every operation keeps: both buffers exist and really have the sizes the
  client was told, the byte counts stay within them, the packet identifier is a legal one and the state is one
  of the enumerators.
\<close>

definition wf_rx :: "'w aemlib_client \<Rightarrow> bool" where
  "wf_rx c \<longleftrightarrow> (\<exists>rx. c_rx_buffer c = Some rx \<and> unat (c_rx_buffer_size c) \<le> length rx \<and> length rx < 2 ^ 63
     \<and> unat (c_rx_len c) \<le> unat (c_rx_buffer_size c))"

definition wf_tx :: "'w aemlib_client \<Rightarrow> bool" where
  "wf_tx c \<longleftrightarrow> (\<exists>tx. c_tx_buffer c = Some tx \<and> unat (c_tx_buffer_size c) \<le> length tx \<and> length tx < 2 ^ 63
     \<and> unat (c_tx_pending_len c) \<le> unat (c_tx_buffer_size c))"

definition wf_state :: "aemlib_state \<Rightarrow> bool" where
  "wf_state s \<longleftrightarrow> s \<in> {AEMLIB_STATE_DISCONNECTED, AEMLIB_STATE_CONNECTING, AEMLIB_STATE_MQTT_CONNECT_SENT,
     AEMLIB_STATE_MQTT_CONNECTED, AEMLIB_STATE_MQTT_DISCONNECTING}"

definition wf_client :: "'w aemlib_client \<Rightarrow> bool" where
  "wf_client c \<longleftrightarrow> wf_rx c \<and> wf_tx c \<and> c_packet_id c \<noteq> 0 \<and> wf_state (c_state c)"

text \<open>The bytes received and not yet processed, and the bytes accepted and not yet sent.\<close>

definition rx_bytes :: "'w aemlib_client \<Rightarrow> byte list" where
  "rx_bytes c = take (unat (c_rx_len c)) (the (c_rx_buffer c))"

definition tx_bytes :: "'w aemlib_client \<Rightarrow> byte list" where
  "tx_bytes c = take (unat (c_tx_pending_len c)) (the (c_tx_buffer c))"

text \<open>A client that was configured with the given functions.\<close>

definition runs_on ::
    "('w \<Rightarrow> (aemlib_status_t \<times> 'w) option) \<Rightarrow> ('w \<Rightarrow> (aemlib_status_t \<times> 'w) option) \<Rightarrow>
     ('w \<Rightarrow> mem \<Rightarrow> size_t \<Rightarrow> size_t \<Rightarrow> (aemlib_status_t \<times> mem \<times> size_t \<times> 'w) option) \<Rightarrow>
     ('w \<Rightarrow> mem \<Rightarrow> size_t \<Rightarrow> size_t \<Rightarrow> (aemlib_status_t \<times> size_t \<times> 'w) option) \<Rightarrow>
     ('w \<Rightarrow> uint64 \<times> 'w) \<Rightarrow> 'w aemlib_message_fn \<Rightarrow> 'w aemlib_client \<Rightarrow> bool" where
  "runs_on conn disc rd wr now deliver c \<longleftrightarrow>
     c_transport c = transport_of conn disc rd wr \<and> c_time c = \<lparr>now_ms = Some now\<rparr>
     \<and> c_on_message c \<in> {None, Some deliver}"

text \<open>The fields that the state handlers may change.\<close>

definition core_frame :: "'w aemlib_client \<Rightarrow> 'w aemlib_client \<Rightarrow> bool" where
  "core_frame c c' \<longleftrightarrow> c_transport c' = c_transport c \<and> c_time c' = c_time c \<and> c_storage c' = c_storage c
     \<and> c_tx_buffer c' = c_tx_buffer c \<and> c_tx_buffer_size c' = c_tx_buffer_size c \<and> c_rx_buffer_size c' = c_rx_buffer_size c
     \<and> c_keepalive_interval_ms c' = c_keepalive_interval_ms c \<and> c_packet_id c' = c_packet_id c
     \<and> c_connect_sent c' = c_connect_sent c \<and> c_tx_pending_len c' = c_tx_pending_len c \<and> c_on_message c' = c_on_message c"

lemma wf_rx_simps [simp]:
  "wf_rx (c\<lparr>c_state := s\<rparr>) = wf_rx c" "wf_rx (c\<lparr>c_last_activity_ms := t\<rparr>) = wf_rx c"
  "rx_bytes (c\<lparr>c_state := s\<rparr>) = rx_bytes c" "rx_bytes (c\<lparr>c_last_activity_ms := t\<rparr>) = rx_bytes c"
  by (simp_all add: wf_rx_def rx_bytes_def)

lemma core_frame_rx [simp]:
  "core_frame (c\<lparr>c_rx_buffer := rx\<rparr>) = core_frame c" "core_frame (c\<lparr>c_rx_len := l\<rparr>) = core_frame c"
  by (auto simp: core_frame_def fun_eq_iff)

lemma length_rx_bytes: "wf_rx c \<Longrightarrow> length (rx_bytes c) = unat (c_rx_len c)"
  by (auto simp: wf_rx_def rx_bytes_def)

lemma length_tx_bytes: "wf_tx c \<Longrightarrow> length (tx_bytes c) = unat (c_tx_pending_len c)"
  by (auto simp: wf_tx_def tx_bytes_def)

text \<open>Consuming a packet drops its bytes from the front of the buffered ones.\<close>

lemma rx_consume_ok:
  assumes "wf_rx c" "unat k \<le> unat (c_rx_len c)"
  shows "\<exists>rx. rx_consume c k = Some (c\<lparr>c_rx_buffer := Some rx, c_rx_len := c_rx_len c - k\<rparr>)
    \<and> wf_rx (c\<lparr>c_rx_buffer := Some rx, c_rx_len := c_rx_len c - k\<rparr>)
    \<and> rx_bytes (c\<lparr>c_rx_buffer := Some rx, c_rx_len := c_rx_len c - k\<rparr>) = drop (unat k) (rx_bytes c)"
proof -
  obtain rx where rx: "c_rx_buffer c = Some rx" "unat (c_rx_buffer_size c) \<le> length rx" "length rx < 2 ^ 63"
    "unat (c_rx_len c) \<le> unat (c_rx_buffer_size c)" using assms(1) by (auto simp: wf_rx_def)
  have n: "unat (c_rx_len c - k) = unat (c_rx_len c) - unat k" using assms(2) by (simp add: unat_diff_size)
  show ?thesis
  proof (cases "c_rx_len c - k > 0")
    case True
    let ?rx = "overwrite 0 (take (unat (c_rx_len c - k)) (drop (unat k) rx)) rx"
    have "rx_consume c k = Some (c\<lparr>c_rx_buffer := Some ?rx, c_rx_len := c_rx_len c - k\<rparr>)"
      using True rx n assms(2) by (simp add: rx_consume_def mem_move_overwrite)
    moreover have "length ?rx = length rx" using rx n by simp
    moreover have "take (unat (c_rx_len c - k)) ?rx = drop (unat k) (take (unat (c_rx_len c)) rx)"
      using rx n assms(2) by (simp add: overwrite_def drop_take)
    ultimately show ?thesis using rx n by (auto simp: wf_rx_def rx_bytes_def)
  next
    case False
    then have "c_rx_len c - k = 0" by (simp add: word_gt_0)
    then have "rx_consume c k = Some (c\<lparr>c_rx_buffer := Some rx, c_rx_len := c_rx_len c - k\<rparr>)"
      using rx(1) by (cases c) (simp add: rx_consume_def)
    then show ?thesis using rx n \<open>c_rx_len c - k = 0\<close> by (auto simp: wf_rx_def rx_bytes_def)
  qed
qed

section \<open>Waiting for the CONNACK\<close>

text \<open>The decision on the bytes received so far, for a receive buffer of \<open>S\<close> bytes.\<close>

datatype connack_verdict =
    CV_Wait
  | CV_Accept nat
  | CV_Refuse nat
  | CV_Fail aemlib_status_t

definition connack_verdict :: "nat \<Rightarrow> byte list \<Rightarrow> connack_verdict" where
  "connack_verdict S bs =
     (case fh_parse bs of
        FH_Incomplete \<Rightarrow> CV_Wait
      | FH_Invalid \<Rightarrow> CV_Fail protocol_error
      | FH_Ok t f n s \<Rightarrow>
          if t \<noteq> AEMLIB_MQTT_PKT_CONNACK then CV_Fail protocol_error
          else if s + n > S then CV_Fail buffer_too_small
          else if s + n > length bs then CV_Wait
          else if 4 \<le> s + n \<and> bs ! 3 = 0 then CV_Accept (s + n)
          else CV_Refuse (s + n))"

lemma connack_verdict_Nil [simp]: "connack_verdict S [] = CV_Wait"
  by (simp add: connack_verdict_def)

text \<open>
  The outcome of waiting, for a client \<open>c\<close> that has received \<open>A\<close> when the clock shows \<open>t\<close>: what the
  call returns and leaves behind.
\<close>

definition connack_outcome ::
    "uint64 \<Rightarrow> 'w aemlib_client \<Rightarrow> byte list \<Rightarrow> aemlib_status_t \<Rightarrow> 'w aemlib_client \<Rightarrow> bool" where
  "connack_outcome t c A st c' \<longleftrightarrow>
     (case connack_verdict (unat (c_rx_buffer_size c)) A of
        CV_Accept k \<Rightarrow> st = AEMLIB_STATUS_OK \<and> c_state c' = AEMLIB_STATE_MQTT_CONNECTED
          \<and> rx_bytes c' = drop k A \<and> c_last_activity_ms c' = t
      | CV_Refuse k \<Rightarrow> st = AEMLIB_STATUS AEMLIB_LAYER_PROTOCOL AEMLIB_CODE_CONNECT
          \<and> c_state c' = AEMLIB_STATE_DISCONNECTED \<and> rx_bytes c' = drop k A
      | CV_Fail e \<Rightarrow> st = e \<and> c_state c' = AEMLIB_STATE_DISCONNECTED \<and> rx_bytes c' = A
      | CV_Wait \<Rightarrow> rx_bytes c' = A \<and>
          (if t - c_last_activity_ms c \<ge> 5000
           then st = AEMLIB_STATUS AEMLIB_LAYER_GENERAL AEMLIB_CODE_TIMEOUT \<and> c_state c' = AEMLIB_STATE_DISCONNECTED
           else st = AEMLIB_STATUS_OK \<and> c_state c' = c_state c \<and> c_last_activity_ms c' = c_last_activity_ms c))"

text \<open>
  The outcome of one turn of waiting, in which the read has returned \<open>st0\<close> with \<open>n\<close> bytes and the world \<open>w1\<close>: a failed read drops
  the connection with its status, anything else is decided on all the bytes received so far.
\<close>

definition read_outcome ::
    "('w \<Rightarrow> (aemlib_status_t \<times> 'w) option) \<Rightarrow> ('w \<Rightarrow> bool) \<Rightarrow> ('w \<Rightarrow> byte list) \<Rightarrow> ('w \<Rightarrow> uint64 \<times> 'w) \<Rightarrow> 'w aemlib_client \<Rightarrow> 'w \<Rightarrow>
     aemlib_status_t \<times> size_t \<times> 'w \<Rightarrow> aemlib_status_t \<times> 'w aemlib_client \<times> 'w \<Rightarrow> bool" where
  "read_outcome disc winv inq now c w = (\<lambda>(st0, n, w1) (st, c', w').
     if st0 \<noteq> AEMLIB_STATUS_OK \<and> \<not> would_block st0
     then st = st0 \<and> c_state c' = AEMLIB_STATE_DISCONNECTED \<and> rx_bytes c' = rx_bytes c \<and> (\<exists>d. disc w1 = Some (d, w'))
     else let m = if would_block st0 then 0 else unat n in m \<le> length (inq w) \<and> winv w1
       \<and> (c_state c' \<noteq> AEMLIB_STATE_DISCONNECTED \<longrightarrow> inq w' = drop m (inq w))
       \<and> connack_outcome (fst (now w1)) c (rx_bytes c @ take m (inq w)) st c')"

text \<open>The packet length that the core and the client compute from a decoded header does not wrap.\<close>

lemma header_packet_len:
  assumes "fh_parse bs = FH_Ok t f n s"
    and "fh_header (FH_Ok t f n s) h"
  shows "header_type h = t" "unat (header_size h + ucast (header_remaining_length h)) = s + n"
proof -
  have b: "n < 2 ^ 28" "s \<le> 5" using fh_parse_bounds [OF assms(1)] by simp_all
  have "unat (header_size h) = s" "unat (ucast (header_remaining_length h) :: size_t) = n"
    using b assms(2) unat_ucast_uint32 [of "of_nat n"] by (simp_all add: unat_of_nat)
  then show "unat (header_size h + ucast (header_remaining_length h)) = s + n"
    using b by (subst unat_add_size) simp_all
  show "header_type h = t" using assms(2) by simp
qed

lemma connack_outcome_rx [simp]:
  "connack_outcome t (c\<lparr>c_rx_buffer := rx\<rparr>) = connack_outcome t c"
  "connack_outcome t (c\<lparr>c_rx_len := l\<rparr>) = connack_outcome t c"
  by (auto simp: connack_outcome_def fun_eq_iff split: connack_verdict.split)

context platform
begin

abbreviation on_platform :: "'w aemlib_client \<Rightarrow> bool" where
  "on_platform \<equiv> runs_on conn disc rd wr now deliver"

lemma on_platform_wrappers:
  assumes "on_platform c"
  shows "aemlib_transport_connect (c_transport c) w = conn w"
    "aemlib_transport_disconnect (c_transport c) w = disc w"
    "aemlib_transport_read (c_transport c) buf len n w = rd w buf len n"
    "aemlib_transport_write (c_transport c) buf len n w = wr w buf len n"
    "aemlib_time_now (c_time c) w = now w"
  using assms by (simp_all add: runs_on_def wrappers aemlib_time_now_def)

lemma on_platform_frame: "core_frame c c' \<Longrightarrow> on_platform c' \<longleftrightarrow> on_platform c"
  by (auto simp: runs_on_def core_frame_def)

lemma drop_connection_ok:
  assumes "on_platform c" "inv w"
  shows "\<exists>w'. drop_connection c st w = Some (st, c\<lparr>c_state := AEMLIB_STATE_DISCONNECTED\<rparr>, w')
    \<and> inv w' \<and> outq w' = outq w \<and> seen w' = seen w"
  using disc_keeps [OF assms(2)] by (auto simp: drop_connection_def on_platform_wrappers [OF assms(1)])

text \<open>Reading appends a prefix of what has arrived to the buffered bytes, or fails and moves nothing.\<close>

lemma rx_read_ok:
  assumes "wf_rx c" "on_platform c" "inv w"
  obtains st n rx w' where "rx_read c w = Some (st, n, c\<lparr>c_rx_buffer := Some rx\<rparr>, w')" "inv w'" "outq w' = outq w \<and> seen w' = seen w"
    and "wf_rx (c\<lparr>c_rx_buffer := Some rx\<rparr>)" "rx_bytes (c\<lparr>c_rx_buffer := Some rx\<rparr>) = rx_bytes c"
    and "st \<noteq> AEMLIB_STATUS_OK \<longrightarrow> inq w' = inq w"
    and "st = AEMLIB_STATUS_OK \<longrightarrow> unat n \<le> length (inq w) \<and> inq w' = drop (unat n) (inq w)
      \<and> wf_rx (c\<lparr>c_rx_buffer := Some rx, c_rx_len := c_rx_len c + n\<rparr>)
      \<and> rx_bytes (c\<lparr>c_rx_buffer := Some rx, c_rx_len := c_rx_len c + n\<rparr>) = rx_bytes c @ take (unat n) (inq w)"
proof -
  obtain rx where rx: "c_rx_buffer c = Some rx" "unat (c_rx_buffer_size c) \<le> length rx" "length rx < 2 ^ 63"
    "unat (c_rx_len c) \<le> unat (c_rx_buffer_size c)" using assms(1) by (auto simp: wf_rx_def)
  let ?l = "unat (c_rx_len c)"
  have room: "unat (c_rx_buffer_size c - c_rx_len c) = unat (c_rx_buffer_size c) - ?l"
    using rx(4) by (simp add: unat_diff_size)
  obtain st buf n w' where r: "rd w (drop ?l rx) (c_rx_buffer_size c - c_rx_len c) 0 = Some (st, buf, n, w')"
    "inv w'" "outq w' = outq w \<and> seen w' = seen w" "length buf = length (drop ?l rx)"
    and res: "if st = AEMLIB_STATUS_OK
       then unat n \<le> unat (c_rx_buffer_size c - c_rx_len c) \<and> unat n \<le> length (inq w)
         \<and> take (unat n) buf = take (unat n) (inq w) \<and> inq w' = drop (unat n) (inq w)
       else inq w' = inq w"
  proof -
    have "unat (c_rx_buffer_size c - c_rx_len c) \<le> length (drop ?l rx)" "length (drop ?l rx) < 2 ^ 63"
      using rx room by simp_all
    then show thesis using rd_keeps [OF assms(3)] that by blast
  qed
  let ?rx = "take ?l rx @ buf"
  have eq: "rx_read c w = Some (st, n, c\<lparr>c_rx_buffer := Some ?rx\<rparr>, w')"
    using rx r(1) by (simp add: rx_read_def mem_from_def on_platform_wrappers [OF assms(2)])
  have len: "length ?rx = length rx" using r(4) rx by simp
  have "wf_rx (c\<lparr>c_rx_buffer := Some ?rx\<rparr>)" "rx_bytes (c\<lparr>c_rx_buffer := Some ?rx\<rparr>) = rx_bytes c"
    using rx r(4) by (auto simp: wf_rx_def rx_bytes_def)
  moreover have "unat n \<le> length (inq w) \<and> inq w' = drop (unat n) (inq w)
      \<and> wf_rx (c\<lparr>c_rx_buffer := Some ?rx, c_rx_len := c_rx_len c + n\<rparr>)
      \<and> rx_bytes (c\<lparr>c_rx_buffer := Some ?rx, c_rx_len := c_rx_len c + n\<rparr>) = rx_bytes c @ take (unat n) (inq w)"
    if "st = AEMLIB_STATUS_OK"
  proof -
    have n: "unat n \<le> unat (c_rx_buffer_size c) - ?l" "unat n \<le> length (inq w)" "take (unat n) buf = take (unat n) (inq w)"
      "inq w' = drop (unat n) (inq w)" using res that room by simp_all
    then have "unat (c_rx_len c + n) = ?l + unat n" using rx by (intro unat_add_size) simp
    then show ?thesis using n rx len by (auto simp: wf_rx_def rx_bytes_def)
  qed
  ultimately show thesis using that [OF eq r(2,3)] res by auto
qed

lemma timeout_ok:
  assumes "on_platform c" "inv w"
  shows "\<exists>w'. check_connack_timeout c w =
      (if fst (now w) - c_last_activity_ms c \<ge> AEMLIB_CORE_CONNACK_TIMEOUT_MS
       then Some (AEMLIB_STATUS AEMLIB_LAYER_GENERAL AEMLIB_CODE_TIMEOUT, c\<lparr>c_state := AEMLIB_STATE_DISCONNECTED\<rparr>, w')
       else Some (AEMLIB_STATUS_OK, c, w'))
    \<and> inv w' \<and> (fst (now w) - c_last_activity_ms c < AEMLIB_CORE_CONNACK_TIMEOUT_MS \<longrightarrow> inq w' = inq w) \<and> outq w' = outq w \<and> seen w' = seen w"
proof -
  obtain t w1 where t: "now w = (t, w1)" by (cases "now w")
  then have w1: "inv w1" "inq w1 = inq w" "outq w1 = outq w \<and> seen w1 = seen w" using now_ok [OF assms(2)] by auto
  obtain w2 where w2: "drop_connection c (AEMLIB_STATUS AEMLIB_LAYER_GENERAL AEMLIB_CODE_TIMEOUT) w1 =
      Some (AEMLIB_STATUS AEMLIB_LAYER_GENERAL AEMLIB_CODE_TIMEOUT, c\<lparr>c_state := AEMLIB_STATE_DISCONNECTED\<rparr>, w2)"
    "inv w2" "outq w2 = outq w1 \<and> seen w2 = seen w1"
    using drop_connection_ok [OF assms(1) w1(1)] by blast
  show ?thesis
    by (rule exI [of _ "if t - c_last_activity_ms c \<ge> AEMLIB_CORE_CONNACK_TIMEOUT_MS then w2 else w1"])
       (use w1 w2 t in \<open>auto simp: check_connack_timeout_def on_platform_wrappers [OF assms(1)]\<close>)
qed

text \<open>
  The outcome of waiting, for a client \<open>c\<close> that has received \<open>A\<close>: \<open>t\<close> is the time the clock showed.
\<close>

lemma connack_wait:
  assumes "on_platform c" "inv w" "wf_rx c" "connack_verdict (unat (c_rx_buffer_size c)) (rx_bytes c) = CV_Wait"
  shows "\<exists>st c' w'. check_connack_timeout c w = Some (st, c', w') \<and> core_frame c c' \<and> wf_rx c'
    \<and> inv w' \<and> (c_state c' \<noteq> AEMLIB_STATE_DISCONNECTED \<longrightarrow> inq w' = inq w) \<and> outq w' = outq w \<and> seen w' = seen w \<and> connack_outcome (fst (now w)) c (rx_bytes c) st c'"
proof -
  obtain w' where "inv w'" "fst (now w) - c_last_activity_ms c < AEMLIB_CORE_CONNACK_TIMEOUT_MS \<longrightarrow> inq w' = inq w" "outq w' = outq w \<and> seen w' = seen w" "check_connack_timeout c w =
      (if fst (now w) - c_last_activity_ms c \<ge> AEMLIB_CORE_CONNACK_TIMEOUT_MS
       then Some (AEMLIB_STATUS AEMLIB_LAYER_GENERAL AEMLIB_CODE_TIMEOUT, c\<lparr>c_state := AEMLIB_STATE_DISCONNECTED\<rparr>, w')
       else Some (AEMLIB_STATUS_OK, c, w'))"
    using timeout_ok [OF assms(1,2)] by blast
  then show ?thesis
    using assms(3,4) by (cases "fst (now w) - c_last_activity_ms c \<ge> AEMLIB_CORE_CONNACK_TIMEOUT_MS")
      (simp_all add: core_frame_def connack_outcome_def AEMLIB_CORE_CONNACK_TIMEOUT_MS_def)
qed

lemma connack_fail:
  assumes "on_platform c" "inv w" "wf_rx c" "connack_verdict (unat (c_rx_buffer_size c)) (rx_bytes c) = CV_Fail e"
  shows "\<exists>st c' w'. drop_connection c e w = Some (st, c', w') \<and> core_frame c c' \<and> wf_rx c'
    \<and> inv w' \<and> (c_state c' \<noteq> AEMLIB_STATE_DISCONNECTED \<longrightarrow> inq w' = inq w) \<and> outq w' = outq w \<and> seen w' = seen w \<and> connack_outcome (fst (now w)) c (rx_bytes c) st c'"
  using drop_connection_ok [OF assms(1,2), of e] assms(3,4) by (auto simp: core_frame_def connack_outcome_def)

lemma connect_sent_process_ok:
  assumes wf: "wf_rx c" and on: "on_platform c" and inv: "inv w"
  shows "\<exists>st c' w'. connect_sent_process c w = Some (st, c', w') \<and> core_frame c c' \<and> wf_rx c'
    \<and> inv w' \<and> (c_state c' \<noteq> AEMLIB_STATE_DISCONNECTED \<longrightarrow> inq w' = inq w) \<and> outq w' = outq w \<and> seen w' = seen w \<and> connack_outcome (fst (now w)) c (rx_bytes c) st c'"
proof (cases "c_rx_len c > 0")
  case False
  then have "rx_bytes c = []" by (simp add: rx_bytes_def word_gt_0)
  with False connack_wait [OF on inv wf] show ?thesis by (simp add: connect_sent_process_def)
next
  case True
  obtain rx where rx: "c_rx_buffer c = Some rx" "unat (c_rx_buffer_size c) \<le> length rx" "length rx < 2 ^ 63"
    "unat (c_rx_len c) \<le> unat (c_rx_buffer_size c)" using wf by (auto simp: wf_rx_def)
  have A: "rx_bytes c = take (unat (c_rx_len c)) rx" by (simp add: rx_bytes_def rx)
  obtain h where dec: "aemlib_proto_decode_fixed_header rx (c_rx_len c) uninit_header = Some (fh_status (fh_parse (rx_bytes c)), h)"
    and h: "fh_header (fh_parse (rx_bytes c)) h"
    unfolding A using decode_fixed_header_spec [of "c_rx_len c" rx uninit_header] rx by auto
  note wait = connack_wait [OF on inv wf] and fail = connack_fail [OF on inv wf]
  show ?thesis
  proof (cases "fh_parse (rx_bytes c)")
    case FH_Incomplete
    with True dec wait show ?thesis by (simp add: connect_sent_process_def connack_verdict_def rx)
  next
    case FH_Invalid
    with True dec fail [of protocol_error] show ?thesis by (simp add: connect_sent_process_def connack_verdict_def rx)
  next
    case (FH_Ok t f n s)
    let ?k = "header_size h + ucast (header_remaining_length h)"
    have hd: "header_type h = t" "unat ?k = s + n" using header_packet_len [OF FH_Ok, of h] h FH_Ok by simp_all
    note step = True dec FH_Ok hd rx length_rx_bytes [OF wf]
    consider (other) "t \<noteq> AEMLIB_MQTT_PKT_CONNACK"
      | (large) "t = AEMLIB_MQTT_PKT_CONNACK" "s + n > unat (c_rx_buffer_size c)"
      | (partial) "t = AEMLIB_MQTT_PKT_CONNACK" "s + n \<le> unat (c_rx_buffer_size c)" "s + n > unat (c_rx_len c)"
      | (full) "t = AEMLIB_MQTT_PKT_CONNACK" "s + n \<le> unat (c_rx_len c)"
      using rx(4) by linarith
    then show ?thesis
    proof cases
      case other
      with step fail [of protocol_error] show ?thesis by (simp add: connect_sent_process_def connack_verdict_def)
    next
      case large
      with step fail [of buffer_too_small] show ?thesis
        by (simp add: connect_sent_process_def connack_verdict_def word_less_nat_alt)
    next
      case partial
      with step wait show ?thesis
        by (simp add: connect_sent_process_def connack_verdict_def word_less_nat_alt word_le_nat_alt)
    next
      case full
      obtain rx' where c': "rx_consume c ?k = Some (c\<lparr>c_rx_buffer := Some rx', c_rx_len := c_rx_len c - ?k\<rparr>)"
        "wf_rx (c\<lparr>c_rx_buffer := Some rx', c_rx_len := c_rx_len c - ?k\<rparr>)"
        "rx_bytes (c\<lparr>c_rx_buffer := Some rx', c_rx_len := c_rx_len c - ?k\<rparr>) = drop (s + n) (rx_bytes c)"
        using rx_consume_ok [OF wf, of ?k] full hd by auto
      have k: "\<not> ?k > c_rx_buffer_size c" "?k \<le> c_rx_len c"
        using full rx hd by (simp_all add: word_less_nat_alt word_le_nat_alt)
      let ?c = "c\<lparr>c_rx_buffer := Some rx', c_rx_len := c_rx_len c - ?k\<rparr>"
      have ack: "aemlib_proto_decode_connack rx ?k 0 0 =
          (if 4 \<le> s + n then Some (AEMLIB_STATUS_OK, rx ! 2 AND 1, rx ! 3) else Some (buffer_too_small, 0, 0))"
        using full rx hd by (auto simp: aemlib_proto_decode_connack_def word_less_nat_alt mem_read_def)
      have "connect_sent_process c w = (if 4 \<le> s + n \<and> rx ! 3 = 0
          then case now w of (t, w) \<Rightarrow> Some (AEMLIB_STATUS_OK, ?c\<lparr>c_state := AEMLIB_STATE_MQTT_CONNECTED, c_last_activity_ms := t\<rparr>, w)
          else drop_connection ?c (AEMLIB_STATUS AEMLIB_LAYER_PROTOCOL AEMLIB_CODE_CONNECT) w)"
        using step full k ack c'(1)
        by (auto simp: connect_sent_process_def Let_def on_platform_wrappers [OF on] split: prod.split)
      moreover have "rx ! 3 = rx_bytes c ! 3" if "4 \<le> s + n" using that full A by simp
      moreover obtain t w1 where t: "now w = (t, w1)" by (cases "now w")
      moreover have "inv w1 \<and> inq w1 = inq w \<and> outq w1 = outq w \<and> seen w1 = seen w" using now_ok [OF inv] t by simp
      moreover have "on_platform ?c" using on by (simp add: runs_on_def)
      moreover obtain w2 where "drop_connection ?c (AEMLIB_STATUS AEMLIB_LAYER_PROTOCOL AEMLIB_CODE_CONNECT) w =
          Some (AEMLIB_STATUS AEMLIB_LAYER_PROTOCOL AEMLIB_CODE_CONNECT, ?c\<lparr>c_state := AEMLIB_STATE_DISCONNECTED\<rparr>, w2)"
        "inv w2 \<and> outq w2 = outq w \<and> seen w2 = seen w"
        using drop_connection_ok [OF calculation(5) inv] by blast
      ultimately show ?thesis
        using full FH_Ok c'(2,3) rx length_rx_bytes [OF wf]
        by (cases "4 \<le> s + n \<and> rx ! 3 = 0") (auto simp: core_frame_def connack_outcome_def connack_verdict_def)
    qed
  qed
qed

text \<open>
  The handler that waits for the CONNACK, by what the transport returns: a failed read drops the connection with its status, anything else
  is decided on all the bytes received so far.
\<close>

lemma connect_sent_read:
  assumes wf: "wf_rx c" and on: "on_platform c" and inv: "inv w"
  shows "\<exists>rx st0 dst n w1 st c' w'. c_rx_buffer c = Some rx
    \<and> rd w (drop (unat (c_rx_len c)) rx) (c_rx_buffer_size c - c_rx_len c) 0 = Some (st0, dst, n, w1)
    \<and> handle_state_mqtt_connect_sent c w = Some (st, c', w') \<and> core_frame c c' \<and> wf_rx c' \<and> inv w' \<and> outq w' = outq w \<and> seen w' = seen w
    \<and> read_outcome disc inv inq now c w (st0, n, w1) (st, c', w')"
proof -
  obtain st0 n rx w1 where r: "rx_read c w = Some (st0, n, c\<lparr>c_rx_buffer := Some rx\<rparr>, w1)" "inv w1" "outq w1 = outq w \<and> seen w1 = seen w"
    "wf_rx (c\<lparr>c_rx_buffer := Some rx\<rparr>)" "rx_bytes (c\<lparr>c_rx_buffer := Some rx\<rparr>) = rx_bytes c"
    and no: "st0 \<noteq> AEMLIB_STATUS_OK \<longrightarrow> inq w1 = inq w"
    and yes: "st0 = AEMLIB_STATUS_OK \<longrightarrow> unat n \<le> length (inq w) \<and> inq w1 = drop (unat n) (inq w)
      \<and> wf_rx (c\<lparr>c_rx_buffer := Some rx, c_rx_len := c_rx_len c + n\<rparr>)
      \<and> rx_bytes (c\<lparr>c_rx_buffer := Some rx, c_rx_len := c_rx_len c + n\<rparr>) = rx_bytes c @ take (unat n) (inq w)"
    using rx_read_ok [OF wf on inv] by blast
  obtain rx0 dst where rd: "c_rx_buffer c = Some rx0"
    "rd w (drop (unat (c_rx_len c)) rx0) (c_rx_buffer_size c - c_rx_len c) 0 = Some (st0, dst, n, w1)"
    using r(1) by (auto simp: rx_read_def mem_from_def on_platform_wrappers [OF on] bind_Some_iff split: if_splits)
  let ?b = "c\<lparr>c_rx_buffer := Some rx\<rparr>"
  have onb: "on_platform ?b" "on_platform (c\<lparr>c_rx_buffer := Some rx, c_rx_len := l\<rparr>)" for l
    using on by (simp_all add: runs_on_def)
  have "\<exists>st c' w'. handle_state_mqtt_connect_sent c w = Some (st, c', w') \<and> core_frame c c' \<and> wf_rx c' \<and> inv w' \<and> outq w' = outq w \<and> seen w' = seen w
    \<and> read_outcome disc inv inq now c w (st0, n, w1) (st, c', w')"
  proof (cases "st0 \<noteq> AEMLIB_STATUS_OK \<and> \<not> would_block st0")
    case True
    obtain w2 where d: "drop_connection ?b st0 w1 = Some (st0, ?b\<lparr>c_state := AEMLIB_STATE_DISCONNECTED\<rparr>, w2)"
      "inv w2 \<and> outq w2 = outq w1 \<and> seen w2 = seen w1"
      using drop_connection_ok [OF onb(1) r(2)] by blast
    then have "\<exists>d. disc w1 = Some (d, w2)" by (auto simp: drop_connection_def on_platform_wrappers [OF on] bind_Some_iff)
    with d show ?thesis using r True by (simp add: handle_state_mqtt_connect_sent_def core_frame_def read_outcome_def)
  next
    case False
    let ?m = "if would_block st0 then 0 else n"
    let ?c = "c\<lparr>c_rx_buffer := Some rx, c_rx_len := c_rx_len c + ?m\<rparr>"
    have m: "wf_rx ?c" "rx_bytes ?c = rx_bytes c @ take (unat ?m) (inq w)" "unat ?m \<le> length (inq w)" "inq w1 = drop (unat ?m) (inq w)"
      using r(4,5) yes no False would_block_not_OK [of st0] by auto
    have "handle_state_mqtt_connect_sent c w = connect_sent_process ?c w1"
      using r(1) False by (auto simp: handle_state_mqtt_connect_sent_def)
    moreover obtain st' c' w' where "connect_sent_process ?c w1 = Some (st', c', w')" "core_frame c c'" "wf_rx c'"
      "inv w'" "c_state c' \<noteq> AEMLIB_STATE_DISCONNECTED \<longrightarrow> inq w' = inq w1" "outq w' = outq w1 \<and> seen w' = seen w1"
      "connack_outcome (fst (now w1)) c (rx_bytes c @ take (unat ?m) (inq w)) st' c'"
      using connect_sent_process_ok [OF _ onb(2) r(2), of "c_rx_len c + ?m"] m(1,2) by auto
    moreover have "(if would_block st0 then 0 else unat n) = unat ?m" by simp
    ultimately show ?thesis using r(2,3) m(3,4) False by (simp only: read_outcome_def prod.case Let_def if_False simp_thms) metis
  qed
  with rd show ?thesis by blast
qed

text \<open>
  One poll in CONNECT_SENT: the read fails and the connection is dropped, or \<open>m\<close> more bytes arrive and the
  outcome is decided on all the bytes received so far.
\<close>

lemma connect_sent_ok:
  assumes wf: "wf_rx c" and on: "on_platform c" and inv: "inv w"
  shows "\<exists>st c' w' m. handle_state_mqtt_connect_sent c w = Some (st, c', w') \<and> core_frame c c' \<and> wf_rx c'
    \<and> inv w' \<and> outq w' = outq w \<and> seen w' = seen w \<and> m \<le> length (inq w)
    \<and> (c_state c' \<noteq> AEMLIB_STATE_DISCONNECTED \<longrightarrow> inq w' = drop m (inq w))
    \<and> (m = 0 \<and> st \<noteq> AEMLIB_STATUS_OK \<and> c_state c' = AEMLIB_STATE_DISCONNECTED \<and> rx_bytes c' = rx_bytes c
       \<or> (\<exists>w1. inv w1 \<and> connack_outcome (fst (now w1)) c (rx_bytes c @ take m (inq w)) st c'))"
proof -
  obtain st0 n w1 st c' w' where r: "handle_state_mqtt_connect_sent c w = Some (st, c', w')" "core_frame c c'" "wf_rx c'" "inv w'"
    "outq w' = outq w" "seen w' = seen w"
    and o: "read_outcome disc inv inq now c w (st0, n, w1) (st, c', w')"
    using connect_sent_read [OF assms] by blast
  show ?thesis
  proof (cases "st0 \<noteq> AEMLIB_STATUS_OK \<and> \<not> would_block st0")
    case True
    then show ?thesis using r o by (intro exI [of _ st] exI [of _ c'] exI [of _ w'] exI [of _ 0]) (simp add: read_outcome_def)
  next
    case False
    then show ?thesis
      using r o by (intro exI [of _ st] exI [of _ c'] exI [of _ w'] exI [of _ "if would_block st0 then 0 else unat n"]) (auto simp: read_outcome_def Let_def)
  qed
qed

end

section \<open>Transitions\<close>

text \<open>The state graph of the core: what a poll may change the state to.\<close>

inductive poll_trans :: "aemlib_state \<Rightarrow> aemlib_state \<Rightarrow> bool" where
  stay: "wf_state s \<Longrightarrow> s \<noteq> AEMLIB_STATE_MQTT_DISCONNECTING \<Longrightarrow> poll_trans s s"
| link_up: "poll_trans AEMLIB_STATE_CONNECTING AEMLIB_STATE_MQTT_CONNECT_SENT"
| link_failed: "poll_trans AEMLIB_STATE_CONNECTING AEMLIB_STATE_DISCONNECTED"
| accepted: "poll_trans AEMLIB_STATE_MQTT_CONNECT_SENT AEMLIB_STATE_MQTT_CONNECTED"
| given_up: "poll_trans AEMLIB_STATE_MQTT_CONNECT_SENT AEMLIB_STATE_DISCONNECTED"
| closed: "poll_trans AEMLIB_STATE_MQTT_DISCONNECTING AEMLIB_STATE_DISCONNECTED"

code_pred poll_trans .

inductive_simps poll_trans_simps [simp]:
  "poll_trans AEMLIB_STATE_DISCONNECTED s"
  "poll_trans AEMLIB_STATE_CONNECTING s"
  "poll_trans AEMLIB_STATE_MQTT_CONNECT_SENT s"
  "poll_trans AEMLIB_STATE_MQTT_CONNECTED s"
  "poll_trans AEMLIB_STATE_MQTT_DISCONNECTING s"

lemma wf_state_simps [simp]:
  "wf_state AEMLIB_STATE_DISCONNECTED" "wf_state AEMLIB_STATE_CONNECTING" "wf_state AEMLIB_STATE_MQTT_CONNECT_SENT"
  "wf_state AEMLIB_STATE_MQTT_CONNECTED" "wf_state AEMLIB_STATE_MQTT_DISCONNECTING" "\<not> wf_state (AEMLIB_STATE_STRAY i)"
  by (simp_all add: wf_state_def)

lemma poll_trans_wf: "poll_trans s s' \<Longrightarrow> wf_state s'"
  by (induction rule: poll_trans.induct) simp_all

lemma core_frame_wf:
  assumes "wf_client c" "core_frame c c'" "wf_rx c'" "wf_state (c_state c')"
  shows "wf_client c'" "tx_bytes c' = tx_bytes c"
  using assms by (auto simp: wf_client_def core_frame_def wf_tx_def tx_bytes_def)

lemma connack_outcome_trans:
  assumes "connack_outcome t c A st c'" "c_state c = AEMLIB_STATE_MQTT_CONNECT_SENT"
  shows "poll_trans AEMLIB_STATE_MQTT_CONNECT_SENT (c_state c')"
  using assms by (auto simp: connack_outcome_def split: connack_verdict.splits if_splits intro: exI [of _ 0])

context platform
begin

lemma connecting_ok:
  assumes "on_platform c" "inv w" "c_state c = AEMLIB_STATE_CONNECTING"
  shows "\<exists>st c' w'. handle_state_connecting c w = Some (st, c', w') \<and> core_frame c c' \<and> inv w'
    \<and> outq w' = outq w \<and> seen w' = seen w \<and> rx_bytes c' = rx_bytes c \<and> wf_rx c' = wf_rx c
    \<and> poll_trans AEMLIB_STATE_CONNECTING (c_state c')"
proof -
  obtain st w1 where 1: "conn w = Some (st, w1)" "inv w1" "outq w1 = outq w \<and> seen w1 = seen w"
    using conn_keeps [OF assms(2)] by blast
  obtain t w2 where 2: "now w1 = (t, w2)" by (cases "now w1")
  then have "inv w2" "outq w2 = outq w \<and> seen w2 = seen w" using now_ok [OF 1(2)] 1 by auto
  with 1 2 assms(3) show ?thesis
    by (cases "st = AEMLIB_STATUS_OK"; cases "would_block st")
       (auto simp: handle_state_connecting_def on_platform_wrappers [OF assms(1)] core_frame_def)
qed

text \<open>
  Every poll of the core on a well-formed client is defined, keeps the client well formed, follows the state
  graph and writes nothing to the transport.
\<close>

lemma core_poll_ok:
  assumes wf: "wf_client c" and on: "on_platform c" and inv: "inv w"
  shows "\<exists>st c' w'. core_poll_state c w = Some (st, c', w') \<and> core_frame c c' \<and> wf_client c'
    \<and> inv w' \<and> outq w' = outq w \<and> seen w' = seen w \<and> poll_trans (c_state c) (c_state c')"
proof (cases "c_state c")
  case AEMLIB_STATE_MQTT_CONNECT_SENT
  obtain st c' w' m where r: "handle_state_mqtt_connect_sent c w = Some (st, c', w')" "core_frame c c'" "wf_rx c'"
    "inv w'" "outq w' = outq w \<and> seen w' = seen w"
    and o: "m = 0 \<and> st \<noteq> AEMLIB_STATUS_OK \<and> c_state c' = AEMLIB_STATE_DISCONNECTED \<and> rx_bytes c' = rx_bytes c
       \<or> (\<exists>w1. inv w1 \<and> connack_outcome (fst (now w1)) c (rx_bytes c @ take m (inq w)) st c')"
    using connect_sent_ok [OF conjunct1 [OF wf [unfolded wf_client_def]] on inv] by blast
  have tr: "poll_trans (c_state c) (c_state c')"
    using o connack_outcome_trans [OF _ AEMLIB_STATE_MQTT_CONNECT_SENT] by (auto simp: AEMLIB_STATE_MQTT_CONNECT_SENT)
  then show ?thesis
    using r tr core_frame_wf [OF wf r(2,3) poll_trans_wf [OF tr]] AEMLIB_STATE_MQTT_CONNECT_SENT
    by (auto simp: core_poll_state_def)
next
  case AEMLIB_STATE_CONNECTING
  then show ?thesis
    using connecting_ok [OF on inv] wf core_frame_wf [OF wf] poll_trans_wf
    by (fastforce simp: core_poll_state_def wf_client_def intro: exI [of _ 0])
next
  case AEMLIB_STATE_MQTT_DISCONNECTING
  then show ?thesis
    using disc_keeps [OF inv] wf
    by (force simp: core_poll_state_def handle_state_mqtt_disconnecting_def on_platform_wrappers [OF on] core_frame_def
        wf_client_def wf_tx_def intro: exI [of _ 0])
next
  case (AEMLIB_STATE_STRAY i)
  then show ?thesis using wf by (simp add: wf_client_def)
qed (use assms in \<open>auto simp: core_poll_state_def handle_state_disconnected_def handle_state_mqtt_connected_def core_frame_def intro: exI [of _ 0]\<close>)

end

section \<open>Packet identifiers\<close>

lemma next_packet_id_unat:
  assumes "p \<noteq> 0"
  shows "unat (if p + 1 = 0 then 1 else p + 1 :: uint16) = unat p mod 65535 + 1"
proof -
  have e: "unat (p + 1) = (unat p + 1) mod 65536" by (simp add: unat_word_ariths)
  have z: "p + 1 = 0 \<longleftrightarrow> unat (p + 1) = 0" by (simp add: unat_eq_zero)
  show ?thesis
  proof (cases "unat p = 65535")
    case True
    then show ?thesis using e z by simp
  next
    case False
    then show ?thesis using e z unat_uint16_lt [of p] by simp
  qed
qed

end
