(* ===== verification/Aem_Client.thy ===== *)
theory Aem_Client
  imports Aem_Core
begin

text \<open>
  The client layer (\<^verbatim>\<open>core/client.c\<close>) and with it the public interface of the library
  (\<^verbatim>\<open>include/aemlib/aemlib.h\<close>): sending with staging of what the transport did not take, flushing, the
  receive loop that reassembles packets from the byte stream and dispatches them, keepalive, and the entry
  points init, connect, disconnect, publish, subscribe and poll.

  The strings and the payload that a caller passes are the objects its pointers point to. The message callback
  works on the world, it does not call back into the client.
\<close>

section \<open>Sending\<close>

text \<open>
  \<^verbatim>\<open>client_send\<close>; its argument \<^verbatim>\<open>data\<close> is \<^verbatim>\<open>client->tx_buffer\<close> at every call site.
\<close>

definition client_send :: "'w aemlib_client \<Rightarrow> size_t \<Rightarrow> 'w \<Rightarrow> 'w call" where
  "client_send c len w =
     (if c_tx_pending_len c > 0 then Some (io_would_block, c, w)
      else do {
        tx \<leftarrow> c_tx_buffer c;
        (status, written, w) \<leftarrow> aemlib_transport_write (c_transport c) tx len 0 w;
        if status \<noteq> AEMLIB_STATUS_OK \<and> \<not> would_block status then Some (status, c, w)
        else
          let written = (if would_block status then 0 else written) in
          if written < len then do {
            let remaining = len - written;
            tx \<leftarrow> mem_move tx 0 (unat written) (unat remaining);
            Some (AEMLIB_STATUS_OK, c\<lparr>c_tx_buffer := Some tx, c_tx_pending_len := remaining\<rparr>, w)
          }
          else Some (AEMLIB_STATUS_OK, c, w)
      })"

definition client_flush_pending :: "'w aemlib_client \<Rightarrow> 'w \<Rightarrow> 'w call" where
  "client_flush_pending c w =
     (if c_tx_pending_len c = 0 then Some (AEMLIB_STATUS_OK, c, w)
      else do {
        tx \<leftarrow> c_tx_buffer c;
        (status, written, w) \<leftarrow> aemlib_transport_write (c_transport c) tx (c_tx_pending_len c) 0 w;
        if status \<noteq> AEMLIB_STATUS_OK \<and> \<not> would_block status then Some (status, c, w)
        else
          let written = (if would_block status then 0 else written) in
          if written > 0 then
            let c = c\<lparr>c_tx_pending_len := c_tx_pending_len c - written\<rparr> in
            if c_tx_pending_len c > 0 then do {
              tx \<leftarrow> mem_move tx 0 (unat written) (unat (c_tx_pending_len c));
              Some (AEMLIB_STATUS_OK, c\<lparr>c_tx_buffer := Some tx\<rparr>, w)
            }
            else Some (AEMLIB_STATUS_OK, c, w)
          else Some (AEMLIB_STATUS_OK, c, w)
      })"

section \<open>Receiving\<close>

text \<open>The bytes that a callback may read behind a pointer into a buffer.\<close>

definition mem_slice :: "mem \<Rightarrow> size_t \<Rightarrow> size_t \<Rightarrow> byte list option" where
  "mem_slice m i n = (if unat i + unat n \<le> length m then Some (take (unat n) (drop (unat i) m)) else None)"

definition client_dispatch_packet ::
    "'w aemlib_client \<Rightarrow> aemlib_mqtt_fixed_header \<Rightarrow> size_t \<Rightarrow> 'w \<Rightarrow> (aemlib_status_t \<times> 'w) option" where
  "client_dispatch_packet c header packet_len w =
     (case header_type header of
        AEMLIB_MQTT_PKT_PUBLISH \<Rightarrow> do {
          (decode_status, view) \<leftarrow>
            aemlib_proto_decode_publish (c_rx_buffer c) packet_len (Some header) (Some null_view);
          if decode_status \<noteq> AEMLIB_STATUS_OK then Some (decode_status, w)
          else case c_on_message c of
              None \<Rightarrow> Some (AEMLIB_STATUS_OK, w)
            | Some on_message \<Rightarrow> do {
                v \<leftarrow> view;
                rx \<leftarrow> c_rx_buffer c;
                topic \<leftarrow> mem_slice rx (view_topic v) (view_topic_len v);
                payload \<leftarrow> mem_slice rx (view_payload v) (view_payload_len v);
                Some (AEMLIB_STATUS_OK, on_message topic payload w)
              }
        }
      | AEMLIB_MQTT_PKT_PINGRESP \<Rightarrow> Some (AEMLIB_STATUS_OK, w)
      | AEMLIB_MQTT_PKT_SUBACK \<Rightarrow> Some (AEMLIB_STATUS_OK, w)
      | _ \<Rightarrow> Some (AEMLIB_STATUS_OK, w))"

lemma rx_consume_len: "rx_consume c k = Some c' \<Longrightarrow> c_rx_len c' = c_rx_len c - k"
  by (auto simp: rx_consume_def Let_def bind_Some_iff split: if_splits)

text \<open>The endless loop of \<^verbatim>\<open>client_read\<close>: every turn that goes on has consumed a packet of two bytes or more.\<close>

function client_read_loop :: "'w aemlib_client \<Rightarrow> 'w \<Rightarrow> 'w call" where
  "client_read_loop c w =
     (if c_rx_len c = 0 then Some (AEMLIB_STATUS_OK, c, w)
      else do {
        rx \<leftarrow> c_rx_buffer c;
        (decode_status, header) \<leftarrow> aemlib_proto_decode_fixed_header rx (c_rx_len c) uninit_header;
        if AEMLIB_STATUS_CODE decode_status = code_val AEMLIB_CODE_BUFFER_TOO_SMALL then
          if c_rx_len c = c_rx_buffer_size c then Some (buffer_too_small, c, w)
          else Some (AEMLIB_STATUS_OK, c, w)
        else if decode_status \<noteq> AEMLIB_STATUS_OK then Some (decode_status, c, w)
        else
          let packet_len = header_size header + ucast (header_remaining_length header) in
          if packet_len > c_rx_buffer_size c then Some (buffer_too_small, c, w)
          else if packet_len > c_rx_len c then Some (AEMLIB_STATUS_OK, c, w)
          else do {
            (decode_status, w) \<leftarrow> client_dispatch_packet c header packet_len w;
            if decode_status \<noteq> AEMLIB_STATUS_OK then Some (decode_status, c, w)
            else do {
              c \<leftarrow> rx_consume c packet_len;
              client_read_loop c w
            }
          }
      })"
  by pat_completeness auto
termination
proof (relation "measure (\<lambda>(c, w). unat (c_rx_len c))", goal_cases)
  case (2 c w rx p st h len q st' w' c')
  then have "2 \<le> unat len" using decode_fixed_header_len [of rx "c_rx_len c" uninit_header h] by auto
  moreover have "c_rx_len c' = c_rx_len c - len" using 2 by (simp add: rx_consume_len)
  moreover have "unat len \<le> unat (c_rx_len c)" using 2 by (simp add: word_less_nat_alt)
  ultimately show ?case by (simp add: unat_diff_size)
qed simp

declare client_read_loop.simps [simp del]

definition client_read :: "'w aemlib_client \<Rightarrow> 'w \<Rightarrow> 'w call" where
  "client_read c w = do {
     (status, read, c, w) \<leftarrow> rx_read c w;
     if status \<noteq> AEMLIB_STATUS_OK \<and> \<not> would_block status then Some (status, c, w)
     else
       let read = (if would_block status then 0 else read)
       in client_read_loop (c\<lparr>c_rx_len := c_rx_len c + read\<rparr>) w
   }"

section \<open>Packets of the client\<close>

definition client_send_connect :: "'w aemlib_client \<Rightarrow> 'w \<Rightarrow> 'w call" where
  "client_send_connect c w =
     (let keepalive_sec = (ucast (c_keepalive_interval_ms c div 1000) :: uint16) in do {
        tx \<leftarrow> c_tx_buffer c;
        (status, tx, out_len) \<leftarrow> aemlib_proto_encode_connect tx (c_tx_buffer_size c) 0 (cstring []) keepalive_sec;
        let c = c\<lparr>c_tx_buffer := Some tx\<rparr> in
        AEMLIB_CHECK_STATUS status (Some (status, c, w)) (client_send c out_len w)
      })"

definition client_send_ping :: "'w aemlib_client \<Rightarrow> 'w \<Rightarrow> 'w call" where
  "client_send_ping c w = do {
     tx \<leftarrow> c_tx_buffer c;
     (status, tx, out_len) \<leftarrow> aemlib_proto_encode_pingreq tx (c_tx_buffer_size c) 0;
     let c = c\<lparr>c_tx_buffer := Some tx\<rparr> in
     if status \<noteq> AEMLIB_STATUS_OK then Some (status, c, w) else client_send c out_len w
   }"

section \<open>Public interface\<close>

text \<open>\<^verbatim>\<open>memset(client, 0, sizeof(*client))\<close>.\<close>

definition zero_client :: "'w aemlib_client" where
  "zero_client = \<lparr>
     c_state = AEMLIB_STATE_DISCONNECTED,
     c_transport = \<lparr>t_connect = None, t_disconnect = None, t_read = None, t_write = None\<rparr>,
     c_time = \<lparr>now_ms = None\<rparr>,
     c_storage = \<lparr>write_record = None, read_record = None, delete_record = None\<rparr>,
     c_tx_buffer = None, c_tx_buffer_size = 0,
     c_rx_buffer = None, c_rx_buffer_size = 0,
     c_last_activity_ms = 0, c_keepalive_interval_ms = 0,
     c_packet_id = 0, c_connect_sent = 0, c_tx_pending_len = 0, c_rx_len = 0,
     c_on_message = None\<rparr>"

definition aemlib_init :: "'w aemlib_client option \<Rightarrow> 'w aemlib_config option \<Rightarrow> 'w \<Rightarrow> 'w pcall" where
  "aemlib_init client cfg w =
     (case client of
        None \<Rightarrow> Some (invalid_arg, None, w)
      | Some c \<Rightarrow> aemlib_core_init (Some zero_client) cfg w)"

definition aemlib_connect :: "'w aemlib_client option \<Rightarrow> aemlib_status_t \<times> 'w aemlib_client option" where
  "aemlib_connect client =
     (case client of
        None \<Rightarrow> (invalid_arg, None)
      | Some c \<Rightarrow> aemlib_core_connect (Some (c\<lparr>c_tx_pending_len := 0, c_rx_len := 0\<rparr>)))"

definition aemlib_disconnect :: "'w aemlib_client option \<Rightarrow> aemlib_status_t \<times> 'w aemlib_client option" where
  "aemlib_disconnect client =
     (case client of
        None \<Rightarrow> (invalid_arg, None)
      | Some c \<Rightarrow> aemlib_core_disconnect (Some c))"

definition aemlib_publish ::
    "'w aemlib_client option \<Rightarrow> mem \<Rightarrow> mem \<Rightarrow> size_t \<Rightarrow> int \<Rightarrow> 'w \<Rightarrow> 'w pcall" where
  "aemlib_publish client topic payload payload_len qos w =
     (case client of
        None \<Rightarrow> Some (invalid_arg, None, w)
      | Some c \<Rightarrow>
          if qos \<noteq> 0 then Some (AEMLIB_STATUS AEMLIB_LAYER_GENERAL AEMLIB_CODE_UNSUPPORTED, Some c, w)
          else do {
            tx \<leftarrow> c_tx_buffer c;
            (status, tx, out_len) \<leftarrow> aemlib_proto_encode_publish tx (c_tx_buffer_size c) 0 topic payload payload_len;
            let c = c\<lparr>c_tx_buffer := Some tx\<rparr> in
            AEMLIB_CHECK_STATUS status (Some (status, Some c, w)) (to_pcall (client_send c out_len w))
          })"

definition aemlib_subscribe :: "'w aemlib_client option \<Rightarrow> mem \<Rightarrow> int \<Rightarrow> 'w \<Rightarrow> 'w pcall" where
  "aemlib_subscribe client topic qos w =
     (case client of
        None \<Rightarrow> Some (invalid_arg, None, w)
      | Some c \<Rightarrow>
          if qos \<noteq> 0 then Some (AEMLIB_STATUS AEMLIB_LAYER_GENERAL AEMLIB_CODE_UNSUPPORTED, Some c, w)
          else
            let (packet_id, client) = aemlib_core_next_packet_id (Some c) in do {
              c \<leftarrow> client;
              tx \<leftarrow> c_tx_buffer c;
              (status, tx, out_len) \<leftarrow> aemlib_proto_encode_subscribe tx (c_tx_buffer_size c) 0 packet_id topic;
              let c = c\<lparr>c_tx_buffer := Some tx\<rparr> in
              AEMLIB_CHECK_STATUS status (Some (status, Some c, w)) (to_pcall (client_send c out_len w))
            })"

text \<open>The switch of \<^verbatim>\<open>aemlib_poll\<close> behind the core's own poll.\<close>

definition poll_state :: "'w aemlib_client \<Rightarrow> 'w \<Rightarrow> 'w call" where
  "poll_state c w =
     (case c_state c of
        AEMLIB_STATE_MQTT_CONNECT_SENT \<Rightarrow>
          if c_connect_sent c = 0 then do {
            (status, c, w) \<leftarrow> client_send_connect c w;
            if status \<noteq> AEMLIB_STATUS_OK then Some (status, c, w)
            else Some (AEMLIB_STATUS_OK, c\<lparr>c_connect_sent := 1\<rparr>, w)
          }
          else Some (AEMLIB_STATUS_OK, c, w)
      | AEMLIB_STATE_MQTT_CONNECTED \<Rightarrow> do {
          (status, c, w) \<leftarrow> client_read c w;
          AEMLIB_CHECK_STATUS status (Some (status, c, w)) (
          let (now, w) = aemlib_time_now (c_time c) w in
          if now - c_last_activity_ms c \<ge> c_keepalive_interval_ms c then do {
            (status, c, w) \<leftarrow> client_send_ping c w;
            AEMLIB_CHECK_STATUS status (Some (status, c, w))
              (Some (AEMLIB_STATUS_OK, c\<lparr>c_last_activity_ms := now\<rparr>, w))
          }
          else Some (AEMLIB_STATUS_OK, c, w))
        }
      | _ \<Rightarrow> Some (AEMLIB_STATUS_OK, c, w))"

definition aemlib_poll :: "'w aemlib_client option \<Rightarrow> 'w \<Rightarrow> 'w pcall" where
  "aemlib_poll client w =
     (case client of
        None \<Rightarrow> Some (invalid_arg, None, w)
      | Some c \<Rightarrow> do {
          (status, c, w) \<leftarrow> client_flush_pending c w;
          AEMLIB_CHECK_STATUS status (Some (status, Some c, w)) (do {
          (status, client, w) \<leftarrow> aemlib_core_poll (Some c) w;
          AEMLIB_CHECK_STATUS status (Some (status, client, w)) (do {
          c \<leftarrow> client;
          to_pcall (poll_state c w)
          })})
        })"

end
