(* ===== verification/Aem_Client_Io.thy ===== *)
theory Aem_Client_Io
  imports Aem_Client
begin

text \<open>
  The sending and the receiving half of the client as transformations of byte streams, proved over the
  contract of the platform: what is accepted for sending is the bytes under way followed by the bytes staged in
  the transmit buffer, and the receive loop computes \<^verbatim>\<open>drain\<close>, a parser of the buffered bytes.
\<close>

section \<open>Sending\<close>

text \<open>The fields that sending may change are the transmit buffer and the number of staged bytes.\<close>

definition tx_frame :: "'w aemlib_client \<Rightarrow> 'w aemlib_client \<Rightarrow> bool" where
  "tx_frame c c' \<longleftrightarrow> c_state c' = c_state c \<and> c_transport c' = c_transport c \<and> c_time c' = c_time c
     \<and> c_storage c' = c_storage c \<and> c_tx_buffer_size c' = c_tx_buffer_size c \<and> c_rx_buffer c' = c_rx_buffer c
     \<and> c_rx_buffer_size c' = c_rx_buffer_size c \<and> c_rx_len c' = c_rx_len c \<and> c_connect_sent c' = c_connect_sent c
     \<and> c_keepalive_interval_ms c' = c_keepalive_interval_ms c \<and> c_packet_id c' = c_packet_id c
     \<and> c_last_activity_ms c' = c_last_activity_ms c \<and> c_on_message c' = c_on_message c"

lemma tx_frame_upd [simp]:
  "tx_frame c c" "tx_frame c (c\<lparr>c_tx_buffer := tx\<rparr>)" "tx_frame c (c\<lparr>c_tx_pending_len := n\<rparr>)"
  "tx_frame c (c\<lparr>c_tx_buffer := tx, c_tx_pending_len := n\<rparr>)" "tx_frame c (c\<lparr>c_tx_pending_len := n, c_tx_buffer := tx\<rparr>)"
  "tx_frame (c\<lparr>c_tx_buffer := tx\<rparr>) c' = tx_frame c c'"
  by (simp_all add: tx_frame_def)

lemma tx_frame_rx: "tx_frame c c' \<Longrightarrow> rx_bytes c' = rx_bytes c \<and> wf_rx c' = wf_rx c"
  by (simp add: rx_bytes_def wf_rx_def tx_frame_def)

text \<open>Staging: the bytes from \<open>i\<close> on of the first \<open>i + n\<close> bytes move to the front.\<close>

lemma stage_bytes:
  assumes "i + n \<le> length tx"
  shows "\<exists>tx'. mem_move tx 0 i n = Some tx' \<and> length tx' = length tx \<and> take n tx' = drop i (take (i + n) tx)"
  using assms by (auto simp: mem_move_ok drop_take)

context platform
begin

lemma on_platform_tx: "tx_frame c c' \<Longrightarrow> on_platform c' \<longleftrightarrow> on_platform c"
  by (simp add: runs_on_def tx_frame_def)

text \<open>
  A send with nothing staged: on OK the data are under way or staged, in order; any other status means that
  nothing has been sent or staged.
\<close>

lemma client_send_ok:
  assumes on: "on_platform c" and inv: "inv w" and tx: "c_tx_buffer c = Some tx" "unat (c_tx_buffer_size c) \<le> length tx"
    "length tx < 2 ^ 63" "c_tx_pending_len c = 0" and len: "unat len \<le> unat (c_tx_buffer_size c)"
  shows "\<exists>st c' w'. client_send c len w = Some (st, c', w') \<and> tx_frame c c' \<and> wf_tx c' \<and> inv w' \<and> inq w' = inq w \<and> seen w' = seen w
    \<and> (\<exists>d. outq w' = outq w @ d)
    \<and> (if st = AEMLIB_STATUS_OK then outq w' @ tx_bytes c' = outq w @ take (unat len) tx
       else \<not> would_block st \<and> c' = c \<and> outq w' = outq w \<and> (\<exists>n. wr w tx len 0 = Some (st, n, w')))"
proof -
  obtain st n w' where r: "wr w tx len 0 = Some (st, n, w')" "inv w'" "inq w' = inq w \<and> seen w' = seen w"
    and res: "if st = AEMLIB_STATUS_OK then unat n \<le> unat len \<and> outq w' = outq w @ take (unat n) tx else outq w' = outq w"
    using wr_keeps [OF inv, of len tx 0] tx len by force
  have wf: "wf_tx c" using tx by (simp add: wf_tx_def)
  define m where "m = (if would_block st then 0 else n)"
  show ?thesis
  proof (cases "st \<noteq> AEMLIB_STATUS_OK \<and> \<not> would_block st")
    case True
    then show ?thesis
      using r res tx wf by (auto simp: client_send_def on_platform_wrappers [OF on])
  next
    case False
    then have m: "unat m \<le> unat len" "outq w' = outq w @ take (unat m) tx"
      using res by (auto simp: m_def would_block_not_OK split: if_splits)
    have send: "client_send c len w = (if m < len then do {
          tx \<leftarrow> mem_move tx 0 (unat m) (unat (len - m));
          Some (AEMLIB_STATUS_OK, c\<lparr>c_tx_buffer := Some tx, c_tx_pending_len := len - m\<rparr>, w')
        } else Some (AEMLIB_STATUS_OK, c, w'))"
      using False r(1) tx by (auto simp: client_send_def on_platform_wrappers [OF on] m_def Let_def)
    have rest: "unat (len - m) = unat len - unat m" using m by (simp add: unat_diff_size)
    obtain tx' where tx': "mem_move tx 0 (unat m) (unat (len - m)) = Some tx'" "length tx' = length tx"
      "take (unat (len - m)) tx' = drop (unat m) (take (unat len) tx)"
      using stage_bytes [of "unat m" "unat (len - m)" tx] m rest tx len by auto
    have "take (unat m) tx @ drop (unat m) (take (unat len) tx) = take (unat len) tx"
      using m(1) by (metis append_take_drop_id min_absorb1 take_take)
    moreover have "unat m = unat len" if "\<not> m < len" using that m(1) by (simp add: word_less_nat_alt)
    ultimately show ?thesis
      using send m r tx tx' rest wf len
      by (cases "m < len") (auto simp: wf_tx_def tx_bytes_def)
  qed
qed

text \<open>Flushing moves bytes from the staged ones to those under way and loses none.\<close>

lemma client_flush_ok:
  assumes wf: "wf_tx c" and on: "on_platform c" and inv: "inv w"
  shows "\<exists>st c' w'. client_flush_pending c w = Some (st, c', w') \<and> tx_frame c c' \<and> wf_tx c' \<and> inv w' \<and> inq w' = inq w \<and> seen w' = seen w
    \<and> outq w' @ tx_bytes c' = outq w @ tx_bytes c \<and> (\<exists>d. outq w' = outq w @ d)"
proof (cases "c_tx_pending_len c = 0")
  case True
  then show ?thesis using wf inv by (simp add: client_flush_pending_def)
next
  case False
  obtain tx where tx: "c_tx_buffer c = Some tx" "unat (c_tx_buffer_size c) \<le> length tx" "length tx < 2 ^ 63"
    "unat (c_tx_pending_len c) \<le> unat (c_tx_buffer_size c)" using wf by (auto simp: wf_tx_def)
  let ?p = "c_tx_pending_len c"
  obtain st n w' where r: "wr w tx ?p 0 = Some (st, n, w')" "inv w'" "inq w' = inq w \<and> seen w' = seen w"
    and res: "if st = AEMLIB_STATUS_OK then unat n \<le> unat ?p \<and> outq w' = outq w @ take (unat n) tx else outq w' = outq w"
    using wr_keeps [OF inv, of ?p tx 0] tx by force
  define m where "m = (if would_block st then 0 else n)"
  show ?thesis
  proof (cases "st \<noteq> AEMLIB_STATUS_OK \<and> \<not> would_block st")
    case True
    then show ?thesis
      using False r res tx wf by (auto simp: client_flush_pending_def on_platform_wrappers [OF on])
  next
    case ok: False
    then have m: "unat m \<le> unat ?p" "outq w' = outq w @ take (unat m) tx"
      using res by (auto simp: m_def would_block_not_OK split: if_splits)
    have flush: "client_flush_pending c w = (if m > 0 then if ?p - m > 0 then do {
          tx \<leftarrow> mem_move tx 0 (unat m) (unat (?p - m));
          Some (AEMLIB_STATUS_OK, c\<lparr>c_tx_pending_len := ?p - m, c_tx_buffer := Some tx\<rparr>, w')
        } else Some (AEMLIB_STATUS_OK, c\<lparr>c_tx_pending_len := ?p - m\<rparr>, w') else Some (AEMLIB_STATUS_OK, c, w'))"
      using False ok r(1) tx by (auto simp: client_flush_pending_def on_platform_wrappers [OF on] m_def)
    have rest: "unat (?p - m) = unat ?p - unat m" using m by (simp add: unat_diff_size)
    obtain tx' where tx': "mem_move tx 0 (unat m) (unat (?p - m)) = Some tx'" "length tx' = length tx"
      "take (unat (?p - m)) tx' = drop (unat m) (take (unat ?p) tx)"
      using stage_bytes [of "unat m" "unat (?p - m)" tx] m rest tx by auto
    have split: "take (unat m) tx @ drop (unat m) (take (unat ?p) tx) = take (unat ?p) tx"
      using m(1) by (metis append_take_drop_id min_absorb1 take_take)
    show ?thesis
    proof (cases "m > 0 \<and> ?p - m > 0")
      case True
      then show ?thesis
        using flush m r tx tx' rest split by (auto simp: wf_tx_def tx_bytes_def)
    next
      case stop: False
      then consider "m = 0" | "m = ?p" by (auto simp: word_gt_0)
      then show ?thesis
      proof cases
        case 1
        then show ?thesis using flush m r wf by simp
      next
        case 2
        then have "client_flush_pending c w = Some (AEMLIB_STATUS_OK, c\<lparr>c_tx_pending_len := 0\<rparr>, w')"
          using flush False by (simp add: word_gt_0)
        then show ?thesis
          using 2 m r tx by (auto simp: wf_tx_def tx_bytes_def)
      qed
    qed
  qed
qed

end

text \<open>
  What a call that encodes a packet and sends it achieves, for a packet \<open>pkt\<close> that fits the transmit buffer
  or not: \<open>out\<close> and \<open>out'\<close> are the bytes under way before and after the call.
\<close>

definition send_outcome ::
    "bool \<Rightarrow> byte list \<Rightarrow> aemlib_status_t \<Rightarrow> 'w aemlib_client \<Rightarrow> 'w aemlib_client \<Rightarrow> byte list \<Rightarrow> byte list \<Rightarrow> bool" where
  "send_outcome fits pkt st c c' out out' \<longleftrightarrow> (\<exists>d. out' = out @ d) \<and>
     (if \<not> fits then st = buffer_too_small \<and> out' = out \<and> c_tx_pending_len c' = c_tx_pending_len c
      else if c_tx_pending_len c \<noteq> 0 then st = io_would_block \<and> out' = out \<and> c_tx_pending_len c' = c_tx_pending_len c
        \<and> take (length pkt) (tx_bytes c') = take (unat (c_tx_pending_len c)) pkt
      else if st = AEMLIB_STATUS_OK then out' @ tx_bytes c' = out @ pkt
      else \<not> would_block st \<and> out' = out \<and> c_tx_pending_len c' = 0)"

context platform
begin

text \<open>A status that a write of the transport has returned.\<close>

definition wr_failed :: "'w \<Rightarrow> aemlib_status_t \<Rightarrow> 'w \<Rightarrow> bool" where
  "wr_failed w st w' \<longleftrightarrow> (\<exists>tx len n. unat len \<le> length tx \<and> length tx < 2 ^ 63 \<and> wr w tx len 0 = Some (st, n, w'))"

lemma send_encoded_ok:
  assumes wf: "wf_tx c" and on: "on_platform c" and inv: "inv w" and tx: "c_tx_buffer c = Some tx"
    and enc: "encodes (length tx) (c_tx_buffer_size c) 0 fits pkt r" and pkt: "pkt \<noteq> []"
  shows "\<exists>st0 tx' n st c' w'. r = Some (st0, tx', n)
    \<and> AEMLIB_CHECK_STATUS st0 (Some (st0, c\<lparr>c_tx_buffer := Some tx'\<rparr>, w)) (client_send (c\<lparr>c_tx_buffer := Some tx'\<rparr>) n w) = Some (st, c', w')
    \<and> tx_frame c c' \<and> wf_tx c' \<and> inv w' \<and> inq w' = inq w \<and> seen w' = seen w \<and> send_outcome fits pkt st c c' (outq w) (outq w')
    \<and> (fits \<and> c_tx_pending_len c = 0 \<and> st \<noteq> AEMLIB_STATUS_OK \<longrightarrow> wr_failed w st w')"
proof -
  obtain st0 tx' n where r: "r = Some (st0, tx', n)" "length tx' = length tx"
    "if fits then st0 = AEMLIB_STATUS_OK \<and> unat n = length pkt \<and> length pkt \<le> unat (c_tx_buffer_size c) \<and> take (length pkt) tx' = pkt
     else st0 = buffer_too_small \<and> n = 0"
    using enc by (auto simp: encodes_def)
  have size: "unat (c_tx_buffer_size c) \<le> length tx'" "length tx' < 2 ^ 63" "unat (c_tx_pending_len c) \<le> unat (c_tx_buffer_size c)"
    using wf tx r(2) by (auto simp: wf_tx_def)
  let ?c = "c\<lparr>c_tx_buffer := Some tx'\<rparr>"
  have wf': "wf_tx ?c" using size by (simp add: wf_tx_def)
  have over: "take (length pkt) (tx_bytes ?c) = take (unat (c_tx_pending_len c)) pkt" if fits
  proof -
    have "take (unat (c_tx_pending_len c)) (take (length pkt) tx') = take (unat (c_tx_pending_len c)) pkt" using r(3) that by simp
    then show ?thesis by (simp add: tx_bytes_def take_take min.commute)
  qed
  show ?thesis
  proof (cases "fits \<and> c_tx_pending_len c = 0")
    case True
    have "on_platform ?c" using on by (simp add: runs_on_def)
    then obtain st c' w' where s: "client_send ?c n w = Some (st, c', w')" "tx_frame c c'" "wf_tx c'" "inv w'" "inq w' = inq w \<and> seen w' = seen w"
      "\<exists>d. outq w' = outq w @ d" "if st = AEMLIB_STATUS_OK then outq w' @ tx_bytes c' = outq w @ take (unat n) tx'
       else \<not> would_block st \<and> c' = ?c \<and> outq w' = outq w \<and> (\<exists>n'. wr w tx' n 0 = Some (st, n', w'))"
      using client_send_ok [OF _ inv, of ?c tx' n] True r size by auto
    have "unat n \<le> length tx'" using True r size by simp
    then have err: "wr_failed w st w'" if "st \<noteq> AEMLIB_STATUS_OK"
      using s(7) that size(2) by (auto simp: wr_failed_def)
    have "send_outcome fits pkt st c c' (outq w) (outq w')"
      using s(6,7) True r(3) by (auto simp: send_outcome_def split: if_splits)
    then show ?thesis
      using True r s err
      by (intro exI [of _ st0] exI [of _ tx'] exI [of _ n] exI [of _ st] exI [of _ c'] exI [of _ w']) simp
  next
    case False
    then show ?thesis
      using r inv wf' over
      by (intro exI [of _ st0] exI [of _ tx'] exI [of _ n] exI [of _ "if fits then io_would_block else buffer_too_small"]
            exI [of _ ?c] exI [of _ w])
         (auto simp: send_outcome_def client_send_def word_gt_0 split: if_splits)
  qed
qed

end

section \<open>Receiving\<close>

text \<open>What a complete packet makes the client do: deliver a message, nothing, or stop with an error.\<close>

definition packet_event :: "aemlib_mqtt_packet_type \<Rightarrow> byte \<Rightarrow> byte list \<Rightarrow> aemlib_status_t + message list" where
  "packet_event t f body =
     (if t = AEMLIB_MQTT_PKT_PUBLISH then
        if header_qos f \<noteq> 0 then Inl (AEMLIB_STATUS AEMLIB_LAYER_PROTOCOL AEMLIB_CODE_UNSUPPORTED)
        else case publish_parse body of None \<Rightarrow> Inl malformed | Some m \<Rightarrow> Inr [m]
      else Inr [])"

lemma packet_event_error: "packet_event t f body = Inl e \<Longrightarrow> e \<noteq> AEMLIB_STATUS_OK"
  by (auto simp: packet_event_def split: if_splits option.splits)

text \<open>
  The packets at the front of the received bytes, for a receive buffer of \<open>S\<close> bytes: the messages to
  deliver, the bytes that are left, and the status.
\<close>

function drain :: "nat \<Rightarrow> byte list \<Rightarrow> message list \<times> byte list \<times> aemlib_status_t" where
  "drain S bs =
     (if bs = [] then ([], bs, AEMLIB_STATUS_OK)
      else case fh_parse bs of
        FH_Incomplete \<Rightarrow> ([], bs, if length bs = S then buffer_too_small else AEMLIB_STATUS_OK)
      | FH_Invalid \<Rightarrow> ([], bs, protocol_error)
      | FH_Ok t f n s \<Rightarrow>
          if s + n > S then ([], bs, buffer_too_small)
          else if s + n > length bs then ([], bs, AEMLIB_STATUS_OK)
          else case packet_event t f (take n (drop s bs)) of
              Inl e \<Rightarrow> ([], bs, e)
            | Inr ms \<Rightarrow> (case drain S (drop (s + n) bs) of (ms', rest, st) \<Rightarrow> (ms @ ms', rest, st)))"
  by pat_completeness auto
termination
  by (relation "measure (\<lambda>(S, bs). length bs)") (auto dest: fh_parse_bounds(2))

declare drain.simps [simp del]

definition deliver_all :: "'w aemlib_message_fn option \<Rightarrow> message list \<Rightarrow> 'w \<Rightarrow> 'w" where
  "deliver_all cb ms w = (case cb of None \<Rightarrow> w | Some f \<Rightarrow> fold (\<lambda>(topic, payload). f topic payload) ms w)"

lemma deliver_all_simps [simp]:
  "deliver_all cb [] w = w" "deliver_all cb (ms @ ms') w = deliver_all cb ms' (deliver_all cb ms w)"
  by (auto simp: deliver_all_def split: option.split)

lemma mem_slice_ok: "unat i + unat n \<le> length m \<Longrightarrow> mem_slice m i n = Some (take (unat n) (drop (unat i) m))"
  by (simp add: mem_slice_def)

lemma dispatch_ok:
  assumes rx: "c_rx_buffer c = Some rx" and inside: "packet_inside rx k h"
  shows "client_dispatch_packet c h k w =
    (case packet_event (header_type h) (header_flags h) (take (unat (header_remaining_length h)) (drop (unat (header_size h)) rx)) of
       Inl e \<Rightarrow> Some (e, w) | Inr ms \<Rightarrow> Some (AEMLIB_STATUS_OK, deliver_all (c_on_message c) ms w))"
proof (cases "header_type h = AEMLIB_MQTT_PKT_PUBLISH \<and> header_qos (header_flags h) = 0")
  case True
  let ?v = "publish_ranges rx h"
  have r: "unat (view_topic ?v) + unat (view_topic_len ?v) \<le> length rx"
    "unat (view_payload ?v) + unat (view_payload_len ?v) \<le> length rx"
    if "unat (topic_length_at rx (unat (header_size h))) + 2 \<le> unat (header_remaining_length h)"
    using unat_publish_ranges [OF inside] that inside by (auto simp: packet_inside_def)
  show ?thesis
    using True r rx decode_publish_eq [OF inside, of null_view] publish_parse_ranges [OF inside]
    by (auto simp: client_dispatch_packet_def packet_event_def deliver_all_def mem_slice_ok view_topic_bytes_def
        view_payload_bytes_def split: option.split)
next
  case False
  then show ?thesis
    using rx by (auto simp: client_dispatch_packet_def packet_event_def aemlib_proto_decode_publish_def header_qos_def
        split: aemlib_mqtt_packet_type.split)
qed

text \<open>The fields that receiving may change are the receive buffer and the number of bytes in it.\<close>

definition rx_frame :: "'w aemlib_client \<Rightarrow> 'w aemlib_client \<Rightarrow> bool" where
  "rx_frame c c' \<longleftrightarrow> core_frame c c' \<and> c_state c' = c_state c \<and> c_last_activity_ms c' = c_last_activity_ms c"

lemma rx_frame_upd [simp]:
  "rx_frame c c" "rx_frame (c\<lparr>c_rx_buffer := rx\<rparr>) = rx_frame c" "rx_frame (c\<lparr>c_rx_len := n\<rparr>) = rx_frame c"
  by (auto simp: rx_frame_def core_frame_def fun_eq_iff)

definition drain_outcome :: "'w aemlib_client \<Rightarrow> byte list \<Rightarrow> 'w \<Rightarrow> 'w call \<Rightarrow> bool" where
  "drain_outcome c A w r \<longleftrightarrow>
     (\<exists>ms rest st c'. drain (unat (c_rx_buffer_size c)) A = (ms, rest, st)
        \<and> r = Some (st, c', deliver_all (c_on_message c) ms w) \<and> rx_frame c c' \<and> wf_rx c' \<and> rx_bytes c' = rest)"

text \<open>One turn of the loop, in terms of the bytes received.\<close>

lemma client_read_turn:
  assumes wf: "wf_rx c" and ne: "rx_bytes c \<noteq> []"
  shows "client_read_loop c w =
    (case fh_parse (rx_bytes c) of
       FH_Incomplete \<Rightarrow> Some (if length (rx_bytes c) = unat (c_rx_buffer_size c) then buffer_too_small else AEMLIB_STATUS_OK, c, w)
     | FH_Invalid \<Rightarrow> Some (protocol_error, c, w)
     | FH_Ok t f n s \<Rightarrow>
         if s + n > unat (c_rx_buffer_size c) then Some (buffer_too_small, c, w)
         else if s + n > length (rx_bytes c) then Some (AEMLIB_STATUS_OK, c, w)
         else case packet_event t f (take n (drop s (rx_bytes c))) of
             Inl e \<Rightarrow> Some (e, c, w)
           | Inr ms \<Rightarrow> rx_consume c (of_nat (s + n)) \<bind> (\<lambda>c'. client_read_loop c' (deliver_all (c_on_message c) ms w)))"
proof -
  obtain rx where rx: "c_rx_buffer c = Some rx" "unat (c_rx_buffer_size c) \<le> length rx" "length rx < 2 ^ 63"
    "unat (c_rx_len c) \<le> unat (c_rx_buffer_size c)" using wf by (auto simp: wf_rx_def)
  have A: "rx_bytes c = take (unat (c_rx_len c)) rx" by (simp add: rx_bytes_def rx)
  have len: "length (rx_bytes c) = unat (c_rx_len c)" by (rule length_rx_bytes [OF wf])
  have nz: "c_rx_len c \<noteq> 0" using ne by (auto simp: A)
  have full: "c_rx_len c = c_rx_buffer_size c \<longleftrightarrow> length (rx_bytes c) = unat (c_rx_buffer_size c)"
    by (simp add: len word_unat_eq_iff)
  obtain h where dec: "aemlib_proto_decode_fixed_header rx (c_rx_len c) uninit_header = Some (fh_status (fh_parse (rx_bytes c)), h)"
    and h: "fh_header (fh_parse (rx_bytes c)) h"
    unfolding A using decode_fixed_header_spec [of "c_rx_len c" rx uninit_header] rx by auto
  show ?thesis
  proof (cases "fh_parse (rx_bytes c)")
    case (FH_Ok t f n s)
    let ?k = "header_size h + ucast (header_remaining_length h)"
    have hd: "h = \<lparr>header_type = t, header_flags = f, header_remaining_length = of_nat n, header_size = of_nat s\<rparr>"
      using h FH_Ok by simp
    have k: "unat ?k = s + n" using header_packet_len [OF FH_Ok, of h] hd by simp
    then have k': "?k = of_nat (s + n)" using unat_lt_size [of ?k] by (metis unat_of_nat_size word_unat_eq_iff)
    have disp: "client_dispatch_packet c h ?k w = (case packet_event t f (take n (drop s (rx_bytes c))) of
        Inl e \<Rightarrow> Some (e, w) | Inr ms \<Rightarrow> Some (AEMLIB_STATUS_OK, deliver_all (c_on_message c) ms w))"
      if "s + n \<le> unat (c_rx_len c)"
    proof -
      have "s + n \<le> unat ?k" "unat ?k \<le> length rx" using k that rx by auto
      note hs = decoded_header_inside [OF FH_Ok this rx(3), folded hd]
      have "take (unat (header_remaining_length h)) (drop (unat (header_size h)) rx) = take n (drop s (rx_bytes c))"
        using that hs(1,2) by (simp add: A drop_take min_def)
      then show ?thesis using dispatch_ok [OF rx(1) hs(3), of w] hd by simp
    qed
    then show ?thesis
      using FH_Ok dec nz rx(1) k disp len k'
      by (subst client_read_loop.simps) (auto simp: Let_def word_less_nat_alt dest: packet_event_error split: sum.split)
  qed (use dec nz rx(1) full in \<open>simp_all add: client_read_loop.simps [of c]\<close>)
qed

lemma client_read_loop_ok:
  assumes "wf_rx c"
  shows "drain_outcome c (rx_bytes c) w (client_read_loop c w)"
  using assms
proof (induction "unat (c_rx_len c)" arbitrary: c w rule: less_induct)
  case less
  note wf = less.prems
  have len: "length (rx_bytes c) = unat (c_rx_len c)" by (rule length_rx_bytes [OF wf])
  show ?case
  proof (cases "rx_bytes c = []")
    case True
    then have "c_rx_len c = 0" using len by (simp add: unat_eq_zero)
    with True wf show ?thesis by (simp add: client_read_loop.simps drain.simps drain_outcome_def)
  next
    case ne: False
    note turn = client_read_turn [OF wf ne, of w] and spec = drain.simps [of "unat (c_rx_buffer_size c)" "rx_bytes c"]
    show ?thesis
    proof (cases "\<exists>t f n s ms. fh_parse (rx_bytes c) = FH_Ok t f n s \<and> s + n \<le> unat (c_rx_len c)
        \<and> packet_event t f (take n (drop s (rx_bytes c))) = Inr ms")
      case False
      with turn spec ne wf len show ?thesis
        by (auto simp: drain_outcome_def split: fh_result.split sum.split)
    next
      case True
      then obtain t f n s ms where ok: "fh_parse (rx_bytes c) = FH_Ok t f n s" "s + n \<le> unat (c_rx_len c)"
        "packet_event t f (take n (drop s (rx_bytes c))) = Inr ms" by blast
      let ?k = "of_nat (s + n) :: size_t"
      have k: "unat ?k = s + n" using ok(2) unat_lt_size [of "c_rx_len c"] by (intro unat_of_nat_size) simp
      obtain rx where c': "rx_consume c ?k = Some (c\<lparr>c_rx_buffer := Some rx, c_rx_len := c_rx_len c - ?k\<rparr>)"
        "wf_rx (c\<lparr>c_rx_buffer := Some rx, c_rx_len := c_rx_len c - ?k\<rparr>)"
        "rx_bytes (c\<lparr>c_rx_buffer := Some rx, c_rx_len := c_rx_len c - ?k\<rparr>) = drop (s + n) (rx_bytes c)"
        using rx_consume_ok [OF wf, of ?k] ok(2) k by auto
      let ?c = "c\<lparr>c_rx_buffer := Some rx, c_rx_len := c_rx_len c - ?k\<rparr>"
      have fit: "s + n \<le> unat (c_rx_buffer_size c)" using ok(2) wf by (auto simp: wf_rx_def)
      have "unat (c_rx_len ?c) < unat (c_rx_len c)"
        using fh_parse_bounds(2) [OF ok(1)] ok(2) k by (simp add: unat_diff_size)
      from less.hyps [OF this c'(2), of "deliver_all (c_on_message c) ms w"] show ?thesis
        using turn spec ne len fit ok c'(1,3) by (auto simp: drain_outcome_def)
    qed
  qed
qed

section \<open>Properties of the packet stream\<close>

text \<open>A pass stops at once or takes one packet from the front and goes on.\<close>

lemma drain_stop_or_go:
  obtains (stop) st where "drain S bs = ([], bs, st)" "st = AEMLIB_STATUS_OK \<longrightarrow> bs = [] \<or> length bs \<noteq> S"
  | (go) t f n s ev ms rest st where "bs \<noteq> []" "fh_parse bs = FH_Ok t f n s" "s + n \<le> S" "s + n \<le> length bs"
      "packet_event t f (take n (drop s bs)) = Inr ev" "drain S (drop (s + n) bs) = (ms, rest, st)"
      "drain S bs = (ev @ ms, rest, st)"
proof (cases "\<exists>t f n s ev. bs \<noteq> [] \<and> fh_parse bs = FH_Ok t f n s \<and> s + n \<le> S \<and> s + n \<le> length bs
      \<and> packet_event t f (take n (drop s bs)) = Inr ev")
  case True
  then obtain t f n s ev where p: "bs \<noteq> []" "fh_parse bs = FH_Ok t f n s" "s + n \<le> S" "s + n \<le> length bs"
    "packet_event t f (take n (drop s bs)) = Inr ev" by blast
  obtain ms rest st where d: "drain S (drop (s + n) bs) = (ms, rest, st)" by (cases "drain S (drop (s + n) bs)")
  then have "drain S bs = (ev @ ms, rest, st)" using p by (subst drain.simps) simp
  then show thesis using go p d by blast
next
  case False
  then have "\<exists>st. drain S bs = ([], bs, st) \<and> (st = AEMLIB_STATUS_OK \<longrightarrow> bs = [] \<or> length bs \<noteq> S)"
    by (subst drain.simps) (auto simp: not_le dest: packet_event_error split: fh_result.split sum.split)
  then show thesis using stop by blast
qed

text \<open>What is left over after a successful pass is incomplete, and leaves room in the buffer to read on.\<close>

lemma drain_room:
  assumes "drain S bs = (ms, rest, AEMLIB_STATUS_OK)" "0 < S" "length bs \<le> S"
  shows "length rest < S"
  using assms
proof (induction bs arbitrary: ms rule: length_induct)
  case (1 bs)
  show ?case
  proof (cases rule: drain_stop_or_go [where S = S and bs = bs])
    case (stop st)
    with "1.prems" show ?thesis by auto
  next
    case (go t f n s ev ms' rest' st)
    then have "length (drop (s + n) bs) < length bs" using fh_parse_bounds(2) [OF go(2)] by simp
    then show ?thesis using "1.IH" [rule_format, of "drop (s + n) bs" ms'] "1.prems" go(6,7) by simp
  qed
qed

text \<open>
  Cutting the stream into reads does not matter: a pass over some bytes and another one over what it left
  and the bytes that came later give the messages, the rest and the status of a single pass over all of them.
\<close>

lemma drain_append:
  assumes "drain S bs = (ms, rest, AEMLIB_STATUS_OK)"
  shows "drain S (bs @ cs) = (case drain S (rest @ cs) of (ms', rest', st) \<Rightarrow> (ms @ ms', rest', st))"
  using assms
proof (induction bs arbitrary: ms rule: length_induct)
  case (1 bs)
  show ?case
  proof (cases rule: drain_stop_or_go [where S = S and bs = bs])
    case (stop st)
    with "1.prems" show ?thesis by simp
  next
    case (go t f n s ev ms' rest' st)
    have "length (drop (s + n) bs) < length bs" using fh_parse_bounds(2) [OF go(2)] go(1) by simp
    then have IH: "drain S (drop (s + n) bs @ cs) = (case drain S (rest @ cs) of (m, r, st) \<Rightarrow> (ms' @ m, r, st))"
      using "1.IH" "1.prems" go(6,7) by auto
    have "fh_parse (bs @ cs) = FH_Ok t f n s" using fh_parse_append [of bs cs] go(2) by simp
    then have "drain S (bs @ cs) = (case drain S (drop (s + n) bs @ cs) of (m, r, st) \<Rightarrow> (ev @ m, r, st))"
      using go by (subst drain.simps) simp
    then show ?thesis using IH "1.prems" go(7) by (simp split: prod.split)
  qed
qed

text \<open>A PUBLISH packet as the encoder lays it out is one message.\<close>

lemma drain_publish:
  assumes "length topic < 2 ^ 16" "length (publish_body topic payload) < 2 ^ 28" "length (publish_packet (topic, payload)) \<le> S"
  shows "drain S (publish_packet (topic, payload)) = ([(topic, payload)], [], AEMLIB_STATUS_OK)"
proof -
  let ?b = "publish_body topic payload" and ?p = "publish_packet (topic, payload)"
  let ?s = "1 + length (rl_bytes (length ?b))"
  have "fh_parse (mqtt_packet 0x30 ?b @ []) = FH_Ok (packet_type_of (drop_bit 4 0x30)) (0x30 AND 0x0F) (length ?b) ?s"
    by (rule fh_parse_packet [OF assms(2)]) (simp add: packet_type_of_def)
  then have parse: "fh_parse ?p = FH_Ok AEMLIB_MQTT_PKT_PUBLISH 0 (length ?b) ?s"
    by (simp add: packet_type_of_def publish_packet_def)
  have len: "length ?p = ?s + length ?b" by (simp add: publish_packet_def length_mqtt_packet)
  have "take (length ?b) (drop ?s ?p) = ?b" by (simp add: publish_packet_def mqtt_packet_def)
  then have "packet_event AEMLIB_MQTT_PKT_PUBLISH 0 (take (length ?b) (drop ?s ?p)) = Inr [(topic, payload)]"
    using publish_parse_body [OF assms(1)] by (simp add: packet_event_def header_qos_def)
  moreover have "?p \<noteq> []" by (simp add: publish_packet_def)
  moreover have "drain S (drop (?s + length ?b) ?p) = ([], [], AEMLIB_STATUS_OK)" using len by (simp add: drain.simps)
  ultimately show ?thesis
    using parse len assms(3) by (subst drain.simps) (simp del: drop_drop)
qed

text \<open>A complete PUBLISH above QoS 0 at the front of the buffer is never taken out of it.\<close>

lemma drain_unsupported:
  assumes "fh_parse bs = FH_Ok AEMLIB_MQTT_PKT_PUBLISH f n s" "header_qos f \<noteq> 0" "s + n \<le> length bs" "s + n \<le> S"
  shows "drain S (bs @ cs) = ([], bs @ cs, AEMLIB_STATUS AEMLIB_LAYER_PROTOCOL AEMLIB_CODE_UNSUPPORTED)"
proof -
  have "fh_parse (bs @ cs) = FH_Ok AEMLIB_MQTT_PKT_PUBLISH f n s" using fh_parse_append [of bs cs] assms(1) by simp
  moreover have "bs \<noteq> []" using assms(1) by auto
  ultimately show ?thesis using assms(2-4) by (subst drain.simps) (simp add: packet_event_def)
qed

section \<open>Reading from the platform\<close>

context platform
begin

lemma deliver_all_ok:
  assumes "inv w" "cb \<in> {None, Some deliver}"
  shows "inv (deliver_all cb ms w) \<and> inq (deliver_all cb ms w) = inq w \<and> outq (deliver_all cb ms w) = outq w
    \<and> seen (deliver_all cb ms w) = seen w @ (if cb = None then [] else ms)"
proof (cases cb)
  case None
  then show ?thesis using assms by (simp add: deliver_all_def)
next
  case (Some f)
  then have cb: "cb = Some deliver" using assms(2) by simp
  have "inv (deliver_all (Some deliver) ms w) \<and> inq (deliver_all (Some deliver) ms w) = inq w
      \<and> outq (deliver_all (Some deliver) ms w) = outq w \<and> seen (deliver_all (Some deliver) ms w) = seen w @ ms"
    using assms(1)
  proof (induction ms arbitrary: w)
    case (Cons m ms)
    then show ?case using deliver_ok [of w "fst m" "snd m"] by (cases m) (auto simp: deliver_all_def)
  qed (simp add: deliver_all_def)
  then show ?thesis by (simp add: cb)
qed

text \<open>
  A read of the client fails and changes nothing, or takes \<open>m\<close> bytes from the front of what has arrived and
  makes one pass over all the bytes buffered then, delivering the messages it finds.
\<close>

lemma client_read_ok:
  assumes wf: "wf_rx c" and on: "on_platform c" and inv: "inv w"
  shows "\<exists>st c' w' m. client_read c w = Some (st, c', w') \<and> rx_frame c c' \<and> wf_rx c' \<and> inv w' \<and> outq w' = outq w
    \<and> m \<le> length (inq w) \<and> inq w' = drop m (inq w)
    \<and> (m = 0 \<and> st \<noteq> AEMLIB_STATUS_OK \<and> rx_bytes c' = rx_bytes c \<and> seen w' = seen w
       \<or> (\<exists>ms. drain (unat (c_rx_buffer_size c)) (rx_bytes c @ take m (inq w)) = (ms, rx_bytes c', st)
            \<and> seen w' = seen w @ (if c_on_message c = None then [] else ms)))"
proof -
  obtain st n rx w1 where r: "rx_read c w = Some (st, n, c\<lparr>c_rx_buffer := Some rx\<rparr>, w1)" "inv w1" "outq w1 = outq w \<and> seen w1 = seen w"
    "wf_rx (c\<lparr>c_rx_buffer := Some rx\<rparr>)" "rx_bytes (c\<lparr>c_rx_buffer := Some rx\<rparr>) = rx_bytes c"
    and no: "st \<noteq> AEMLIB_STATUS_OK \<longrightarrow> inq w1 = inq w"
    and yes: "st = AEMLIB_STATUS_OK \<longrightarrow> unat n \<le> length (inq w) \<and> inq w1 = drop (unat n) (inq w)
      \<and> wf_rx (c\<lparr>c_rx_buffer := Some rx, c_rx_len := c_rx_len c + n\<rparr>)
      \<and> rx_bytes (c\<lparr>c_rx_buffer := Some rx, c_rx_len := c_rx_len c + n\<rparr>) = rx_bytes c @ take (unat n) (inq w)"
    using rx_read_ok [OF wf on inv] by blast
  have cb: "c_on_message c \<in> {None, Some deliver}" using on by (simp add: runs_on_def)
  show ?thesis
  proof (cases "st \<noteq> AEMLIB_STATUS_OK \<and> \<not> would_block st")
    case True
    then show ?thesis
      using r no by (intro exI [of _ st] exI [of _ "c\<lparr>c_rx_buffer := Some rx\<rparr>"] exI [of _ w1] exI [of _ 0])
        (simp add: client_read_def rx_frame_def core_frame_def)
  next
    case False
    define l where "l = (if would_block st then 0 else n)"
    let ?c = "c\<lparr>c_rx_buffer := Some rx, c_rx_len := c_rx_len c + l\<rparr>"
    have l: "unat l \<le> length (inq w)" "inq w1 = drop (unat l) (inq w)" "wf_rx ?c" "rx_bytes ?c = rx_bytes c @ take (unat l) (inq w)"
      using False r no yes by (auto simp: l_def would_block_not_OK)
    have "client_read c w = client_read_loop ?c w1"
      using False r(1) by (auto simp: client_read_def l_def)
    moreover obtain ms rest st' c' where "drain (unat (c_rx_buffer_size c)) (rx_bytes ?c) = (ms, rest, st')"
      "client_read_loop ?c w1 = Some (st', c', deliver_all (c_on_message c) ms w1)" "rx_frame c c'" "wf_rx c'" "rx_bytes c' = rest"
      using client_read_loop_ok [OF l(3), of w1] by (auto simp: drain_outcome_def)
    ultimately show ?thesis
      using l r(2,3) deliver_all_ok [OF r(2) cb, of ms]
      by (intro exI [of _ st'] exI [of _ c'] exI [of _ "deliver_all (c_on_message c) ms w1"] exI [of _ "unat l"]) auto
  qed
qed

end

end
