(* ===== verification/Aem_Session.thy ===== *)
theory Aem_Session
  imports Aem_Client_Io
begin

text \<open>
  Every entry point of the public interface over the contract of the platform: no call on a well-formed
  client runs into undefined behaviour, every call keeps the client well formed, and what a call sends,
  stages, receives and delivers is described by the byte streams of \<^verbatim>\<open>Aem_Client_Io\<close>.
\<close>

section \<open>Sending packets\<close>

definition keepalive_sec :: "'w aemlib_client \<Rightarrow> uint16" where
  "keepalive_sec c = ucast (c_keepalive_interval_ms c div 1000)"

lemma tx_frame_wf: "wf_client c \<Longrightarrow> tx_frame c c' \<Longrightarrow> wf_tx c' \<Longrightarrow> wf_client c'"
  by (auto simp: wf_client_def tx_frame_def wf_rx_def)

lemma rx_frame_wf: "wf_client c \<Longrightarrow> rx_frame c c' \<Longrightarrow> wf_rx c' \<Longrightarrow> wf_client c' \<and> tx_bytes c' = tx_bytes c"
  using core_frame_wf [of c c'] by (simp add: rx_frame_def wf_client_def)

context platform
begin

text \<open>A call of the client that may change the transmit side only: what it returns, for a packet that fits or not.\<close>

definition sends :: "bool \<Rightarrow> byte list \<Rightarrow> 'w aemlib_client \<Rightarrow> 'w \<Rightarrow> 'w call \<Rightarrow> bool" where
  "sends fits pkt c w r \<longleftrightarrow> (\<exists>st c' w'. r = Some (st, c', w') \<and> tx_frame c c' \<and> wf_tx c' \<and> inv w'
     \<and> inq w' = inq w \<and> seen w' = seen w \<and> send_outcome fits pkt st c c' (outq w) (outq w')
     \<and> (fits \<and> c_tx_pending_len c = 0 \<and> st \<noteq> AEMLIB_STATUS_OK \<longrightarrow> wr_failed w st w'))"

lemma sends_encoded:
  assumes wf: "wf_tx c" and on: "on_platform c" and inv: "inv w"
    and enc: "\<And>tx. c_tx_buffer c = Some tx \<Longrightarrow> unat (c_tx_buffer_size c) \<le> length tx \<Longrightarrow> length tx < 2 ^ 63 \<Longrightarrow>
      encodes (length tx) (c_tx_buffer_size c) 0 fits pkt (r tx)" and pkt: "pkt \<noteq> []"
  shows "sends fits pkt c w (do {
     tx \<leftarrow> c_tx_buffer c;
     (status, tx, out_len) \<leftarrow> r tx;
     AEMLIB_CHECK_STATUS status (Some (status, c\<lparr>c_tx_buffer := Some tx\<rparr>, w)) (client_send (c\<lparr>c_tx_buffer := Some tx\<rparr>) out_len w)
   })"
proof -
  obtain tx where tx: "c_tx_buffer c = Some tx" "unat (c_tx_buffer_size c) \<le> length tx" "length tx < 2 ^ 63"
    using wf by (auto simp: wf_tx_def)
  from send_encoded_ok [OF wf on inv tx(1) enc [OF tx] pkt] tx(1) show ?thesis
    unfolding sends_def by auto
qed

lemma send_connect_ok:
  assumes "wf_tx c" "on_platform c" "inv w"
  shows "sends (17 \<le> unat (c_tx_buffer_size c)) (connect_packet ([], keepalive_sec c)) c w (client_send_connect c w)"
proof -
  have "encodes (length tx) (c_tx_buffer_size c) 0 (17 \<le> unat (c_tx_buffer_size c)) (connect_packet ([], keepalive_sec c))
      (aemlib_proto_encode_connect tx (c_tx_buffer_size c) 0 (cstring []) (keepalive_sec c))"
    if "unat (c_tx_buffer_size c) \<le> length tx" "length tx < 2 ^ 63" for tx
    using connect_enc.enc_correct [of "([], keepalive_sec c)" "c_tx_buffer_size c" tx 0] that by (simp add: body_fits_def)
  from sends_encoded [OF assms this] show ?thesis
    by (simp add: client_send_connect_def keepalive_sec_def Let_def connect_packet_def)
qed

lemma send_ping_ok:
  assumes "wf_tx c" "on_platform c" "inv w"
  shows "sends (2 \<le> unat (c_tx_buffer_size c)) [0xC0, 0] c w (client_send_ping c w)"
proof -
  have "encodes (length tx) (c_tx_buffer_size c) 0 (2 \<le> unat (c_tx_buffer_size c)) [0xC0, 0]
      (aemlib_proto_encode_pingreq tx (c_tx_buffer_size c) 0)"
    if "unat (c_tx_buffer_size c) \<le> length tx" "length tx < 2 ^ 63" for tx
    using pingreq_enc.enc_correct [of "c_tx_buffer_size c" tx 0] that by simp
  from sends_encoded [OF assms this] show ?thesis
    by (simp add: client_send_ping_def Let_def AEMLIB_CHECK_STATUS_def)
qed

text \<open>The public functions, on a pointer to the client.\<close>

lemma to_pcall_bind: "to_pcall (x \<bind> f) = x \<bind> (\<lambda>y. to_pcall (f y))"
  by (cases x) (simp_all add: to_pcall_def)

lemma to_pcall_check: "to_pcall (AEMLIB_CHECK_STATUS st (Some (st, c, w)) r) = AEMLIB_CHECK_STATUS st (Some (st, Some c, w)) (to_pcall r)"
  by (simp add: AEMLIB_CHECK_STATUS_def to_pcall_def)

lemma publish_ok:
  assumes "wf_tx c" "on_platform c" "inv w" "publish_arg_ok (topic, payload, n)"
  shows "\<exists>r. aemlib_publish (Some c) (cstring topic) payload n 0 w = to_pcall r
    \<and> sends (body_fits (publish_body topic (take (unat n) payload)) (c_tx_buffer_size c))
        (publish_packet (topic, take (unat n) payload)) c w r"
proof -
  have "encodes (length tx) (c_tx_buffer_size c) 0 (body_fits (publish_body topic (take (unat n) payload)) (c_tx_buffer_size c))
      (publish_packet (topic, take (unat n) payload)) (aemlib_proto_encode_publish tx (c_tx_buffer_size c) 0 (cstring topic) payload n)"
    if "unat (c_tx_buffer_size c) \<le> length tx" "length tx < 2 ^ 63" for tx
    using publish_enc.enc_correct [OF assms(4) that, of 0] by simp
  note s = sends_encoded [OF assms(1-3) this]
  show ?thesis
    by (rule exI, rule conjI [OF _ s])
       (simp_all add: aemlib_publish_def to_pcall_bind to_pcall_check split_def Let_def publish_packet_def)
qed

lemma subscribe_ok:
  assumes "wf_tx c" "on_platform c" "inv w" "topic_ok topic"
  defines "pid \<equiv> fst (aemlib_core_next_packet_id (Some c))"
  shows "\<exists>r. aemlib_subscribe (Some c) (cstring topic) 0 w = to_pcall r
    \<and> sends (body_fits (subscribe_body pid topic) (c_tx_buffer_size c)) (subscribe_packet (pid, topic)) (c\<lparr>c_packet_id := pid\<rparr>) w r"
proof -
  let ?c = "c\<lparr>c_packet_id := pid\<rparr>"
  have id: "aemlib_core_next_packet_id (Some c) = (pid, Some ?c)"
    by (simp add: pid_def aemlib_core_next_packet_id_def Let_def)
  have c: "wf_tx ?c" "on_platform ?c" using assms(1,2) by (simp_all add: wf_tx_def runs_on_def)
  have "encodes (length tx) (c_tx_buffer_size ?c) 0 (body_fits (subscribe_body pid topic) (c_tx_buffer_size c))
      (subscribe_packet (pid, topic)) (aemlib_proto_encode_subscribe tx (c_tx_buffer_size ?c) 0 pid (cstring topic))"
    if "unat (c_tx_buffer_size ?c) \<le> length tx" "length tx < 2 ^ 63" for tx
    using subscribe_enc.enc_correct [of "(pid, topic)" "c_tx_buffer_size c" tx 0] assms(4) that by simp
  note s = sends_encoded [OF c assms(3) this]
  show ?thesis
    by (rule exI, rule conjI [OF _ s])
       (simp_all add: aemlib_subscribe_def id to_pcall_bind to_pcall_check split_def Let_def subscribe_packet_def)
qed

end

section \<open>Polling\<close>

text \<open>
  What a successful poll adds to the outgoing stream: nothing, the CONNECT packet of this connection attempt,
  or a PINGREQ.
\<close>

definition poll_emission :: "'w aemlib_client \<Rightarrow> 'w aemlib_client \<Rightarrow> byte list \<Rightarrow> bool" where
  "poll_emission c c' e \<longleftrightarrow>
     e = [] \<and> c_connect_sent c' = c_connect_sent c
   \<or> e = connect_packet ([], keepalive_sec c) \<and> c_state c' = AEMLIB_STATE_MQTT_CONNECT_SENT
       \<and> c_connect_sent c = 0 \<and> c_connect_sent c' = 1
   \<or> e = [0xC0, 0] \<and> c_state c' = AEMLIB_STATE_MQTT_CONNECTED \<and> c_connect_sent c' = c_connect_sent c"

text \<open>The configuration does not change.\<close>

definition same_config :: "'w aemlib_client \<Rightarrow> 'w aemlib_client \<Rightarrow> bool" where
  "same_config c c' \<longleftrightarrow> c_rx_buffer_size c' = c_rx_buffer_size c \<and> c_tx_buffer_size c' = c_tx_buffer_size c
     \<and> c_on_message c' = c_on_message c \<and> c_keepalive_interval_ms c' = c_keepalive_interval_ms c"

lemma same_config_frame:
  "tx_frame c c' \<Longrightarrow> same_config c c'" "core_frame c c' \<Longrightarrow> same_config c c'" "rx_frame c c' \<Longrightarrow> same_config c c'"
  by (auto simp: same_config_def tx_frame_def core_frame_def rx_frame_def)

lemma same_config_simps [simp]:
  "same_config c c" "same_config c (c'\<lparr>c_connect_sent := b\<rparr>) = same_config c c'"
  "same_config c (c'\<lparr>c_last_activity_ms := t\<rparr>) = same_config c c'"
  by (auto simp: same_config_def)

lemma same_config_trans: "same_config c c1 \<Longrightarrow> same_config c1 c2 \<Longrightarrow> same_config c c2"
  by (simp add: same_config_def)

text \<open>What a poll of a connected client does with the bytes that have arrived.\<close>

definition poll_reception ::
    "'w aemlib_client \<Rightarrow> 'w aemlib_client \<Rightarrow> aemlib_status_t \<Rightarrow> byte list \<Rightarrow> byte list \<Rightarrow> message list \<Rightarrow> message list \<Rightarrow> bool" where
  "poll_reception c c' st arrived left before after \<longleftrightarrow>
     (\<exists>m \<le> length arrived. left = drop m arrived \<and>
        (m = 0 \<and> st \<noteq> AEMLIB_STATUS_OK \<and> rx_bytes c' = rx_bytes c \<and> after = before
         \<or> (\<exists>ms st0. drain (unat (c_rx_buffer_size c)) (rx_bytes c @ take m arrived) = (ms, rx_bytes c', st0)
              \<and> after = before @ (if c_on_message c = None then [] else ms)
              \<and> (st = AEMLIB_STATUS_OK \<longrightarrow> st0 = AEMLIB_STATUS_OK))))"

lemma sends_wf_stream:
  assumes "send_outcome fits pkt st c c' out out'" "st = AEMLIB_STATUS_OK" "wf_tx c"
  shows "out' @ tx_bytes c' = out @ tx_bytes c @ pkt"
  using assms by (auto simp: send_outcome_def tx_bytes_def split: if_splits)

context platform
begin

definition good :: "'w aemlib_client \<Rightarrow> 'w \<Rightarrow> bool" where
  "good c w \<longleftrightarrow> wf_client c \<and> on_platform c \<and> inv w"

lemma good_parts: "good c w \<Longrightarrow> wf_client c \<and> wf_rx c \<and> wf_tx c \<and> on_platform c \<and> inv w"
  by (simp add: good_def wf_client_def)

lemma good_tx: "good c w \<Longrightarrow> tx_frame c c' \<Longrightarrow> wf_tx c' \<Longrightarrow> inv w' \<Longrightarrow> good c' w'"
  using tx_frame_wf [of c c'] on_platform_tx [of c c'] by (auto simp: good_def)

lemma good_rx: "good c w \<Longrightarrow> rx_frame c c' \<Longrightarrow> wf_rx c' \<Longrightarrow> inv w' \<Longrightarrow> good c' w' \<and> tx_bytes c' = tx_bytes c"
  using rx_frame_wf [of c c'] on_platform_frame [of c c'] by (auto simp: good_def rx_frame_def)

lemma good_fields [simp]:
  "good (c\<lparr>c_connect_sent := b\<rparr>) w = good c w" "good (c\<lparr>c_last_activity_ms := t\<rparr>) w = good c w"
  "tx_bytes (c\<lparr>c_connect_sent := b\<rparr>) = tx_bytes c" "tx_bytes (c\<lparr>c_last_activity_ms := t\<rparr>) = tx_bytes c"
  "rx_bytes (c\<lparr>c_connect_sent := b\<rparr>) = rx_bytes c"
  by (simp_all add: good_def wf_client_def wf_rx_def wf_tx_def runs_on_def tx_bytes_def rx_bytes_def)

text \<open>The CONNECT branch.\<close>

lemma poll_connect_ok:
  assumes g: "good c w" and s: "c_state c = AEMLIB_STATE_MQTT_CONNECT_SENT"
  shows "\<exists>st c' w'. poll_state c w = Some (st, c', w') \<and> good c' w' \<and> same_config c c' \<and> c_state c' = c_state c
    \<and> rx_bytes c' = rx_bytes c \<and> inq w' = inq w \<and> seen w' = seen w
    \<and> (st = AEMLIB_STATUS_OK \<longrightarrow> (\<exists>e. outq w' @ tx_bytes c' = outq w @ tx_bytes c @ e \<and> poll_emission c c' e))"
proof (cases "c_connect_sent c = 0")
  case False
  then show ?thesis using g s by (simp add: poll_state_def poll_emission_def)
next
  case True
  note p = good_parts [OF g]
  obtain st c' w' where r: "client_send_connect c w = Some (st, c', w')" "tx_frame c c'" "wf_tx c'" "inv w'"
    "inq w' = inq w" "seen w' = seen w"
    "send_outcome (17 \<le> unat (c_tx_buffer_size c)) (connect_packet ([], keepalive_sec c)) st c c' (outq w) (outq w')"
    using send_connect_ok [of c w] p by (auto simp: sends_def)
  have g': "good c' w'" by (rule good_tx [OF g r(2-4)])
  have f: "rx_bytes c' = rx_bytes c" "c_state c' = c_state c" "same_config c c'"
    using r(2) tx_frame_rx by (auto simp: tx_frame_def same_config_def)
  show ?thesis
  proof (cases "st = AEMLIB_STATUS_OK")
    case ok: True
    then have "poll_state c w = Some (AEMLIB_STATUS_OK, c'\<lparr>c_connect_sent := 1\<rparr>, w')"
      using True s r(1) by (simp add: poll_state_def)
    then show ?thesis
      using g' f s True r(5,6) sends_wf_stream [OF r(7) ok] p by (auto simp: poll_emission_def)
  next
    case False
    then show ?thesis using True s r(1,5,6) g' f by (simp add: poll_state_def)
  qed
qed

text \<open>The keepalive at the end of a poll of a connected client.\<close>

lemma poll_keepalive_ok:
  assumes g: "good c w" and s: "c_state c = AEMLIB_STATE_MQTT_CONNECTED"
  shows "\<exists>st c' w'. (case now w of (t, w) \<Rightarrow>
          if t - c_last_activity_ms c \<ge> c_keepalive_interval_ms c then do {
            (status, c, w) \<leftarrow> client_send_ping c w;
            AEMLIB_CHECK_STATUS status (Some (status, c, w)) (Some (AEMLIB_STATUS_OK, c\<lparr>c_last_activity_ms := t\<rparr>, w))
          }
          else Some (AEMLIB_STATUS_OK, c, w)) = Some (st, c', w')
    \<and> good c' w' \<and> same_config c c' \<and> c_state c' = c_state c \<and> rx_bytes c' = rx_bytes c \<and> inq w' = inq w \<and> seen w' = seen w
    \<and> (st = AEMLIB_STATUS_OK \<longrightarrow> (\<exists>e. outq w' @ tx_bytes c' = outq w @ tx_bytes c @ e \<and> poll_emission c c' e))"
proof -
  note p = good_parts [OF g]
  obtain t w1 where t: "now w = (t, w1)" by (cases "now w")
  then have w1: "inv w1" "inq w1 = inq w" "outq w1 = outq w" "seen w1 = seen w" using now_ok p by fastforce+
  have g1: "good c w1" using g w1 by (simp add: good_def)
  obtain st c' w' where r: "client_send_ping c w1 = Some (st, c', w')" "tx_frame c c'" "wf_tx c'" "inv w'"
    "inq w' = inq w1" "seen w' = seen w1"
    "send_outcome (2 \<le> unat (c_tx_buffer_size c)) [0xC0, 0] st c c' (outq w1) (outq w')"
    using send_ping_ok [of c w1] p w1 by (auto simp: sends_def)
  have g': "good c' w'" by (rule good_tx [OF g1 r(2-4)])
  have f: "rx_bytes c' = rx_bytes c" "c_state c' = c_state c" "c_connect_sent c' = c_connect_sent c" "same_config c c'"
    using r(2) tx_frame_rx by (auto simp: tx_frame_def same_config_def)
  show ?thesis
  proof (cases "t - c_last_activity_ms c \<ge> c_keepalive_interval_ms c")
    case False
    then show ?thesis using t g1 w1 by (simp add: poll_emission_def)
  next
    case True
    then show ?thesis
      using t r(1,5,6) g' f w1 s sends_wf_stream [OF r(7)] p
      by (cases "st = AEMLIB_STATUS_OK") (auto simp: poll_emission_def)
  qed
qed

lemma poll_connected_ok:
  assumes g: "good c w" and s: "c_state c = AEMLIB_STATE_MQTT_CONNECTED"
  shows "\<exists>st c' w'. poll_state c w = Some (st, c', w') \<and> good c' w' \<and> same_config c c' \<and> c_state c' = c_state c
    \<and> poll_reception c c' st (inq w) (inq w') (seen w) (seen w')
    \<and> (st = AEMLIB_STATUS_OK \<longrightarrow> (\<exists>e. outq w' @ tx_bytes c' = outq w @ tx_bytes c @ e \<and> poll_emission c c' e))"
proof -
  note p = good_parts [OF g]
  obtain st c1 w1 m where r: "client_read c w = Some (st, c1, w1)" "rx_frame c c1" "wf_rx c1" "inv w1" "outq w1 = outq w"
    "m \<le> length (inq w)" "inq w1 = drop m (inq w)"
    and rcv: "m = 0 \<and> st \<noteq> AEMLIB_STATUS_OK \<and> rx_bytes c1 = rx_bytes c \<and> seen w1 = seen w
       \<or> (\<exists>ms. drain (unat (c_rx_buffer_size c)) (rx_bytes c @ take m (inq w)) = (ms, rx_bytes c1, st)
            \<and> seen w1 = seen w @ (if c_on_message c = None then [] else ms))"
    using client_read_ok [of c w] p by blast
  have g1: "good c1 w1" "tx_bytes c1 = tx_bytes c" using good_rx [OF g r(2-4)] by simp_all
  have f: "c_state c1 = c_state c" "c_connect_sent c1 = c_connect_sent c" "c_keepalive_interval_ms c1 = c_keepalive_interval_ms c"
    "same_config c c1"
    using r(2) by (auto simp: rx_frame_def core_frame_def same_config_def)
  have on1: "on_platform c1" using good_parts [OF g1(1)] by simp
  show ?thesis
  proof (cases "st = AEMLIB_STATUS_OK")
    case False
    then have "poll_state c w = Some (st, c1, w1)" using s r(1) by (simp add: poll_state_def)
    moreover have "poll_reception c c1 st (inq w) (inq w1) (seen w) (seen w1)"
      unfolding poll_reception_def using r(6,7) rcv False by (intro exI [of _ m]) auto
    ultimately show ?thesis using g1 f False by auto
  next
    case True
    obtain st2 c2 w2 where k: "(case now w1 of (t, w) \<Rightarrow>
          if t - c_last_activity_ms c1 \<ge> c_keepalive_interval_ms c1 then do {
            (status, c, w) \<leftarrow> client_send_ping c1 w;
            AEMLIB_CHECK_STATUS status (Some (status, c, w)) (Some (AEMLIB_STATUS_OK, c\<lparr>c_last_activity_ms := t\<rparr>, w))
          }
          else Some (AEMLIB_STATUS_OK, c1, w)) = Some (st2, c2, w2)"
      "good c2 w2" "c_state c2 = c_state c1" "same_config c1 c2" "rx_bytes c2 = rx_bytes c1" "inq w2 = inq w1" "seen w2 = seen w1"
      "st2 = AEMLIB_STATUS_OK \<longrightarrow> (\<exists>e. outq w2 @ tx_bytes c2 = outq w1 @ tx_bytes c1 @ e \<and> poll_emission c1 c2 e)"
      using poll_keepalive_ok [OF g1(1)] s f(1) by auto
    have "poll_state c w = Some (st2, c2, w2)"
      using True s r(1) k(1) by (simp add: poll_state_def on_platform_wrappers [OF on1] Let_def)
    moreover have "poll_reception c c2 st2 (inq w) (inq w2) (seen w) (seen w2)"
      unfolding poll_reception_def using r(6,7) rcv True k(5-7) by (intro exI [of _ m]) auto
    moreover have "poll_emission c c2 e" if "poll_emission c1 c2 e" for e
      using that f k(3) s by (auto simp: poll_emission_def)
    ultimately show ?thesis using k(2,3,8) f g1(2) r(5) same_config_trans [OF f(4) k(4)] by auto
  qed
qed

text \<open>A poll as a whole: flush, the state machine, then the work of the state it is in.\<close>

definition poll_result :: "'w aemlib_client \<Rightarrow> 'w \<Rightarrow> aemlib_status_t \<Rightarrow> 'w aemlib_client \<Rightarrow> 'w \<Rightarrow> bool" where
  "poll_result c w st c' w' \<longleftrightarrow> good c' w' \<and> same_config c c'
     \<and> (poll_trans (c_state c) (c_state c') \<or> st \<noteq> AEMLIB_STATUS_OK \<and> c_state c' = c_state c)
     \<and> (st = AEMLIB_STATUS_OK \<longrightarrow> (\<exists>e. outq w' @ tx_bytes c' = outq w @ tx_bytes c @ e \<and> poll_emission c c' e))
     \<and> (c_state c \<noteq> AEMLIB_STATE_MQTT_CONNECTED \<and> c_state c' \<noteq> AEMLIB_STATE_MQTT_CONNECTED \<longrightarrow> seen w' = seen w)
     \<and> (c_state c = AEMLIB_STATE_MQTT_CONNECTED \<longrightarrow> poll_reception c c' st (inq w) (inq w') (seen w) (seen w'))"

text \<open>The last part, in a state the core has just left the client in.\<close>

lemma poll_state_ok:
  assumes g: "good c w"
  shows "\<exists>st c' w'. poll_state c w = Some (st, c', w') \<and> good c' w' \<and> same_config c c' \<and> c_state c' = c_state c
    \<and> (st = AEMLIB_STATUS_OK \<longrightarrow> (\<exists>e. outq w' @ tx_bytes c' = outq w @ tx_bytes c @ e \<and> poll_emission c c' e))
    \<and> (c_state c \<noteq> AEMLIB_STATE_MQTT_CONNECTED \<longrightarrow> seen w' = seen w)
    \<and> (c_state c = AEMLIB_STATE_MQTT_CONNECTED \<longrightarrow> poll_reception c c' st (inq w) (inq w') (seen w) (seen w'))"
proof (cases "c_state c")
  case AEMLIB_STATE_MQTT_CONNECT_SENT
  with poll_connect_ok [OF g] show ?thesis by force
next
  case AEMLIB_STATE_MQTT_CONNECTED
  with poll_connected_ok [OF g] show ?thesis by force
qed (use g in \<open>auto simp: poll_state_def poll_emission_def\<close>)

lemma poll_emission_frame:
  assumes "poll_emission c2 c' e" "c_connect_sent c2 = c_connect_sent c" "c_keepalive_interval_ms c2 = c_keepalive_interval_ms c"
  shows "poll_emission c c' e"
  using assms by (simp add: poll_emission_def keepalive_sec_def)

lemma poll_ok:
  assumes g: "good c w"
  shows "\<exists>st c' w'. aemlib_poll (Some c) w = Some (st, Some c', w') \<and> poll_result c w st c' w'"
proof -
  note p = good_parts [OF g]
  obtain st1 c1 w1 where 1: "client_flush_pending c w = Some (st1, c1, w1)" "tx_frame c c1" "wf_tx c1" "inv w1"
    "inq w1 = inq w" "seen w1 = seen w" "outq w1 @ tx_bytes c1 = outq w @ tx_bytes c"
    using client_flush_ok [of c w] p by blast
  have g1: "good c1 w1" by (rule good_tx [OF g 1(2-4)])
  have f1: "c_state c1 = c_state c" "rx_bytes c1 = rx_bytes c" "c_connect_sent c1 = c_connect_sent c"
    "c_keepalive_interval_ms c1 = c_keepalive_interval_ms c" "c_rx_buffer_size c1 = c_rx_buffer_size c" "c_on_message c1 = c_on_message c"
    using 1(2) tx_frame_rx by (auto simp: tx_frame_def)
  show ?thesis
  proof (cases "st1 = AEMLIB_STATUS_OK")
    case False
    then have "aemlib_poll (Some c) w = Some (st1, Some c1, w1)" using 1(1) by (simp add: aemlib_poll_def)
    moreover have "poll_result c w st1 c1 w1"
      unfolding poll_result_def poll_reception_def using False g1 f1 1(5,6) same_config_frame(1) [OF 1(2)] by (auto intro: exI [of _ 0])
    ultimately show ?thesis by blast
  next
    case ok1: True
    obtain st2 c2 w2 where 2: "core_poll_state c1 w1 = Some (st2, c2, w2)" "core_frame c1 c2" "wf_client c2" "inv w2"
      "outq w2 = outq w1" "seen w2 = seen w1" "poll_trans (c_state c1) (c_state c2)"
      using core_poll_ok [of c1 w1] good_parts [OF g1] by blast
    have g2: "good c2 w2" using 2 good_parts [OF g1] on_platform_frame [OF 2(2)] by (simp add: good_def)
    have f2: "tx_bytes c2 = tx_bytes c1" "c_connect_sent c2 = c_connect_sent c1"
      "c_keepalive_interval_ms c2 = c_keepalive_interval_ms c1"
      using 2(2) by (auto simp: core_frame_def tx_bytes_def)
    have cfg: "same_config c c2" by (rule same_config_trans [OF same_config_frame(1) [OF 1(2)] same_config_frame(2) [OF 2(2)]])
    have idle: "c2 = c1 \<and> w2 = w1 \<and> st2 = AEMLIB_STATUS_OK" if "c_state c = AEMLIB_STATE_MQTT_CONNECTED"
      using that 2(1) f1(1) by (simp add: core_poll_state_def handle_state_mqtt_connected_def)
    show ?thesis
    proof (cases "st2 = AEMLIB_STATUS_OK")
      case False
      then have "aemlib_poll (Some c) w = Some (st2, Some c2, w2)"
        using 1(1) ok1 2(1) by (simp add: aemlib_poll_def aemlib_core_poll_def to_pcall_def)
      moreover have "poll_result c w st2 c2 w2"
        unfolding poll_result_def using False g2 2 f1 1(6) idle cfg by auto
      ultimately show ?thesis by blast
    next
      case ok2: True
      obtain st3 c3 w3 where 3: "poll_state c2 w2 = Some (st3, c3, w3)" "good c3 w3" "c_state c3 = c_state c2" "same_config c2 c3"
        "st3 = AEMLIB_STATUS_OK \<longrightarrow> (\<exists>e. outq w3 @ tx_bytes c3 = outq w2 @ tx_bytes c2 @ e \<and> poll_emission c2 c3 e)"
        "c_state c2 \<noteq> AEMLIB_STATE_MQTT_CONNECTED \<longrightarrow> seen w3 = seen w2"
        "c_state c2 = AEMLIB_STATE_MQTT_CONNECTED \<longrightarrow> poll_reception c2 c3 st3 (inq w2) (inq w3) (seen w2) (seen w3)"
        using poll_state_ok [OF g2] by blast
      have "aemlib_poll (Some c) w = Some (st3, Some c3, w3)"
        using 1(1) ok1 2(1) ok2 3(1) by (simp add: aemlib_poll_def aemlib_core_poll_def to_pcall_def)
      moreover have "\<exists>e. outq w3 @ tx_bytes c3 = outq w @ tx_bytes c @ e \<and> poll_emission c c3 e" if "st3 = AEMLIB_STATUS_OK"
        using 3(5) that 2(5) f2 f1 1(7) poll_emission_frame [of c2 c3 _ c] by (metis append.assoc)
      moreover have "poll_reception c c3 st3 (inq w) (inq w3) (seen w) (seen w3)" if "c_state c = AEMLIB_STATE_MQTT_CONNECTED"
        using 3(7) idle [OF that] that f1 1(5,6) by (simp add: poll_reception_def)
      ultimately show ?thesis
        unfolding poll_result_def using 2(6,7) 3(2,3,6) f1 1(6) same_config_trans [OF cfg 3(4)] by auto
    qed
  qed
qed

text \<open>When a successful poll of a connected client sends a keepalive packet.\<close>

definition keepalive_outcome :: "uint64 \<Rightarrow> 'w aemlib_client \<Rightarrow> 'w \<Rightarrow> 'w aemlib_client \<Rightarrow> 'w \<Rightarrow> bool" where
  "keepalive_outcome t c w c' w' \<longleftrightarrow>
     (if t - c_last_activity_ms c \<ge> c_keepalive_interval_ms c
      then outq w' @ tx_bytes c' = outq w @ tx_bytes c @ [0xC0, 0] \<and> c_last_activity_ms c' = t
      else outq w' @ tx_bytes c' = outq w @ tx_bytes c \<and> c_last_activity_ms c' = c_last_activity_ms c)"

lemma poll_keepalive_due:
  assumes g: "good c w" and s: "c_state c = AEMLIB_STATE_MQTT_CONNECTED"
    and r: "aemlib_poll (Some c) w = Some (AEMLIB_STATUS_OK, Some c', w')"
  shows "\<exists>w1. inv w1 \<and> keepalive_outcome (fst (now w1)) c w c' w'"
proof -
  note p = good_parts [OF g]
  obtain st1 c1 w1 where 1: "client_flush_pending c w = Some (st1, c1, w1)" "tx_frame c c1" "wf_tx c1" "inv w1"
    "outq w1 @ tx_bytes c1 = outq w @ tx_bytes c" using client_flush_ok [of c w] p by blast
  have g1: "good c1 w1" by (rule good_tx [OF g 1(2-4)])
  obtain st2 c2 w2 where 2: "client_read c1 w1 = Some (st2, c2, w2)" "rx_frame c1 c2" "wf_rx c2" "inv w2" "outq w2 = outq w1"
    using client_read_ok [of c1 w1] good_parts [OF g1] by blast
  have g2: "good c2 w2" "tx_bytes c2 = tx_bytes c1" using good_rx [OF g1 2(2-4)] by simp_all
  have f: "c_state c1 = AEMLIB_STATE_MQTT_CONNECTED" "c_last_activity_ms c2 = c_last_activity_ms c" "c_keepalive_interval_ms c2 = c_keepalive_interval_ms c"
    using s 1(2) 2(2) by (auto simp: tx_frame_def rx_frame_def core_frame_def)
  obtain t w3 where t: "now w2 = (t, w3)" by (cases "now w2")
  then have w3: "inv w3" "outq w3 = outq w2" using now_ok [OF 2(4)] by auto
  obtain st4 c4 w4 where 4: "client_send_ping c2 w3 = Some (st4, c4, w4)" "tx_frame c2 c4"
    "send_outcome (2 \<le> unat (c_tx_buffer_size c2)) [0xC0, 0] st4 c2 c4 (outq w3) (outq w4)"
    using send_ping_ok [of c2 w3] good_parts [OF g2(1)] w3 by (auto simp: sends_def)
  have sent: "outq w4 @ tx_bytes c4 = outq w @ tx_bytes c @ [0xC0, 0]" if "st4 = AEMLIB_STATUS_OK"
    using sends_wf_stream [OF 4(3) that] good_parts [OF g2(1)] w3(2) 2(5) g2(2) 1(5) by (metis append.assoc)
  have poll: "poll_state c1 w1 = Some (AEMLIB_STATUS_OK, c', w')"
    using r 1(1) f(1) by (auto simp: aemlib_poll_def aemlib_core_poll_def core_poll_state_def handle_state_mqtt_connected_def to_pcall_def
        AEMLIB_CHECK_STATUS_def split: if_splits)
  have "keepalive_outcome t c w c' w'"
    using poll 2(1) t 4(1) f w3(2) 2(5) g2(2) 1(5) sent good_parts [OF g2(1)]
    by (auto simp: poll_state_def keepalive_outcome_def on_platform_wrappers AEMLIB_CHECK_STATUS_def split: if_splits)
  then show ?thesis using 2(4) t by (metis fst_conv)
qed

end

section \<open>The whole interface\<close>

text \<open>A configuration that names real buffers and the functions of the platform.\<close>

definition config_ok ::
    "('w \<Rightarrow> (aemlib_status_t \<times> 'w) option) \<Rightarrow> ('w \<Rightarrow> (aemlib_status_t \<times> 'w) option) \<Rightarrow>
     ('w \<Rightarrow> mem \<Rightarrow> size_t \<Rightarrow> size_t \<Rightarrow> (aemlib_status_t \<times> mem \<times> size_t \<times> 'w) option) \<Rightarrow>
     ('w \<Rightarrow> mem \<Rightarrow> size_t \<Rightarrow> size_t \<Rightarrow> (aemlib_status_t \<times> size_t \<times> 'w) option) \<Rightarrow>
     ('w \<Rightarrow> uint64 \<times> 'w) \<Rightarrow> 'w aemlib_message_fn \<Rightarrow> 'w aemlib_config \<Rightarrow> bool" where
  "config_ok conn disc rd wr now deliver cfg \<longleftrightarrow>
     (\<exists>tx rx. cfg_tx_buffer cfg = Some tx \<and> cfg_rx_buffer cfg = Some rx
        \<and> 0 < unat (cfg_tx_buffer_size cfg) \<and> unat (cfg_tx_buffer_size cfg) \<le> length tx \<and> length tx < 2 ^ 63
        \<and> 0 < unat (cfg_rx_buffer_size cfg) \<and> unat (cfg_rx_buffer_size cfg) \<le> length rx \<and> length rx < 2 ^ 63)
     \<and> cfg_transport cfg = transport_of conn disc rd wr \<and> cfg_time cfg = \<lparr>now_ms = Some now\<rparr>
     \<and> cfg_on_message cfg \<in> {None, Some deliver}"

text \<open>
  Runs of a client: any sequence of calls of the interface, with admissible arguments and in any state,
  interleaved with changes of the world by its environment.
\<close>

inductive api_run :: "('w \<Rightarrow> 'w \<Rightarrow> bool) \<Rightarrow> 'w aemlib_client \<Rightarrow> 'w \<Rightarrow> 'w aemlib_client \<Rightarrow> 'w \<Rightarrow> bool"
  for env c0 w0 where
  start: "api_run env c0 w0 c0 w0"
| poll: "api_run env c0 w0 c w \<Longrightarrow> aemlib_poll (Some c) w = Some (st, Some c', w') \<Longrightarrow> api_run env c0 w0 c' w'"
| connect: "api_run env c0 w0 c w \<Longrightarrow> aemlib_connect (Some c) = (st, Some c') \<Longrightarrow> api_run env c0 w0 c' w"
| disconnect: "api_run env c0 w0 c w \<Longrightarrow> aemlib_disconnect (Some c) = (st, Some c') \<Longrightarrow> api_run env c0 w0 c' w"
| publish: "api_run env c0 w0 c w \<Longrightarrow> publish_arg_ok (topic, payload, n) \<Longrightarrow>
    aemlib_publish (Some c) (cstring topic) payload n qos w = Some (st, Some c', w') \<Longrightarrow> api_run env c0 w0 c' w'"
| subscribe: "api_run env c0 w0 c w \<Longrightarrow> topic_ok topic \<Longrightarrow>
    aemlib_subscribe (Some c) (cstring topic) qos w = Some (st, Some c', w') \<Longrightarrow> api_run env c0 w0 c' w'"
| environment: "api_run env c0 w0 c w \<Longrightarrow> env w w' \<Longrightarrow> api_run env c0 w0 c w'"

lemma next_packet_id_ok:
  obtains pid where "aemlib_core_next_packet_id (Some c) = (pid, Some (c\<lparr>c_packet_id := pid\<rparr>))" "pid \<noteq> 0"
    "pid = (if c_packet_id c + 1 = 0 then 1 else c_packet_id c + 1)"
proof
  let ?p = "if c_packet_id c + 1 = 0 then 1 else c_packet_id c + 1"
  show "aemlib_core_next_packet_id (Some c) = (?p, Some (c\<lparr>c_packet_id := ?p\<rparr>))"
    by (simp add: aemlib_core_next_packet_id_def Let_def)
qed simp_all

context platform
begin

lemma init_good:
  assumes "config_ok conn disc rd wr now deliver cfg" "inv w"
  shows "\<exists>c' w'. aemlib_init (Some c) (Some cfg) w = Some (AEMLIB_STATUS_OK, Some c', w') \<and> good c' w'
    \<and> c_state c' = AEMLIB_STATE_DISCONNECTED \<and> rx_bytes c' = [] \<and> tx_bytes c' = []
    \<and> inq w' = inq w \<and> outq w' = outq w \<and> seen w' = seen w \<and> c_rx_buffer_size c' = cfg_rx_buffer_size cfg \<and> w' = snd (now w)"
proof -
  obtain t w1 where t: "now w = (t, w1)" by (cases "now w")
  then have w1: "inv w1" "inq w1 = inq w" "outq w1 = outq w" "seen w1 = seen w" using now_ok [OF assms(2)] by auto
  have "validate_config (Some cfg) = AEMLIB_STATUS_OK"
    using assms(1) by (auto simp: validate_config_def config_ok_def aemlib_transport_validate_def aemlib_time_validate_def
        transport_of_def unat_eq_zero)
  then show ?thesis
    using assms(1) t w1
    by (auto simp: aemlib_init_def aemlib_core_init_def apply_config_def config_ok_def Let_def aemlib_time_now_def good_def
        wf_client_def wf_rx_def wf_tx_def runs_on_def zero_client_def rx_bytes_def tx_bytes_def)
qed

lemma good_request:
  assumes "good c w"
  shows "aemlib_connect (Some c) = (st, Some c') \<Longrightarrow> good c' w"
    and "aemlib_disconnect (Some c) = (st, Some c') \<Longrightarrow> good c' w"
  using assms
  by (auto simp: aemlib_connect_def aemlib_core_connect_def aemlib_disconnect_def aemlib_core_disconnect_def
      good_def wf_client_def wf_rx_def wf_tx_def runs_on_def split: if_splits)

lemma sends_good:
  assumes "good c w" "sends fits pkt c w r"
  shows "\<exists>st c' w'. to_pcall r = Some (st, Some c', w') \<and> good c' w'"
  using assms good_tx [of c w] by (auto simp: sends_def to_pcall_def)

lemma publish_good:
  assumes "good c w" "publish_arg_ok (topic, payload, n)"
  shows "\<exists>st c' w'. aemlib_publish (Some c) (cstring topic) payload n qos w = Some (st, Some c', w') \<and> good c' w'"
proof (cases "qos = 0")
  case True
  then show ?thesis
    using publish_ok [of c w topic payload n] good_parts [OF assms(1)] assms(2) sends_good [OF assms(1)] by metis
next
  case False
  then show ?thesis using assms(1) by (simp add: aemlib_publish_def)
qed

lemma subscribe_good:
  assumes "good c w" "topic_ok topic"
  shows "\<exists>st c' w'. aemlib_subscribe (Some c) (cstring topic) qos w = Some (st, Some c', w') \<and> good c' w'"
proof (cases "qos = 0")
  case True
  obtain pid where pid: "aemlib_core_next_packet_id (Some c) = (pid, Some (c\<lparr>c_packet_id := pid\<rparr>))" "pid \<noteq> 0"
    using next_packet_id_ok by metis
  have "good (c\<lparr>c_packet_id := pid\<rparr>) w"
    using assms(1) pid(2) by (simp add: good_def wf_client_def wf_rx_def wf_tx_def runs_on_def)
  then show ?thesis
    using True subscribe_ok [of c w topic] good_parts [OF assms(1)] assms(2) sends_good [of "c\<lparr>c_packet_id := pid\<rparr>" w] pid(1)
    by (metis fst_conv)
next
  case False
  then show ?thesis using assms(1) by (simp add: aemlib_subscribe_def)
qed

lemma api_run_good:
  assumes "api_run env c0 w0 c w" "good c0 w0" "\<And>w w'. inv w \<Longrightarrow> env w w' \<Longrightarrow> inv w'"
  shows "good c w"
  using assms(1,2)
proof (induction rule: api_run.induct)
  case (poll c w st c' w')
  then show ?case using poll_ok [of c w] by (auto simp: poll_result_def)
next
  case (publish c w topic payload n qos st c' w')
  then show ?case using publish_good [of c w topic payload n qos] by auto
next
  case (subscribe c w topic qos st c' w')
  then show ?case using subscribe_good [of c w topic qos] by auto
next
  case (environment c w w')
  then show ?case using assms(3) by (auto simp: good_def)
qed (auto intro: good_request)

end

section \<open>Listening\<close>

text \<open>
  A connected client that is polled again and again, each time with success, while the world goes on around
  it. \<open>A\<close> is what its reads have taken from the transport so far.
\<close>

inductive listening ::
    "('w \<Rightarrow> bool) \<Rightarrow> ('w \<Rightarrow> byte list) \<Rightarrow> ('w \<Rightarrow> message list) \<Rightarrow> 'w aemlib_client \<Rightarrow> 'w \<Rightarrow> byte list \<Rightarrow> 'w aemlib_client \<Rightarrow> 'w \<Rightarrow> bool"
  for inv inq seen c0 w0 where
  start: "listening inv inq seen c0 w0 [] c0 w0"
| poll: "listening inv inq seen c0 w0 A c w \<Longrightarrow> aemlib_poll (Some c) w = Some (AEMLIB_STATUS_OK, Some c', w') \<Longrightarrow>
    listening inv inq seen c0 w0 (A @ take (length (inq w) - length (inq w')) (inq w)) c' w'"
| others: "listening inv inq seen c0 w0 A c w \<Longrightarrow> inv w' \<Longrightarrow> seen w' = seen w \<Longrightarrow> listening inv inq seen c0 w0 A c w'"

context platform
begin

lemma listening_drain:
  assumes "listening inv inq seen c0 w0 A c w" "good c0 w0" "c_state c0 = AEMLIB_STATE_MQTT_CONNECTED" "rx_bytes c0 = []"
    and "c_on_message c0 = Some deliver"
  shows "good c w \<and> c_state c = AEMLIB_STATE_MQTT_CONNECTED \<and> c_on_message c = Some deliver
    \<and> c_rx_buffer_size c = c_rx_buffer_size c0
    \<and> (\<exists>ms. drain (unat (c_rx_buffer_size c0)) A = (ms, rx_bytes c, AEMLIB_STATUS_OK) \<and> seen w = seen w0 @ ms)"
  using assms
proof (induction rule: listening.induct)
  case start
  then show ?case by (simp add: drain.simps)
next
  case (poll A c w c' w')
  then obtain ms where IH: "good c w" "c_state c = AEMLIB_STATE_MQTT_CONNECTED" "c_on_message c = Some deliver"
    "c_rx_buffer_size c = c_rx_buffer_size c0" "drain (unat (c_rx_buffer_size c0)) A = (ms, rx_bytes c, AEMLIB_STATUS_OK)" "seen w = seen w0 @ ms"
    by blast
  have res: "poll_result c w AEMLIB_STATUS_OK c' w'" using poll_ok [OF IH(1)] poll.hyps(2) by simp
  then have r: "good c' w'" "c_state c' = AEMLIB_STATE_MQTT_CONNECTED" using IH(2) by (auto simp: poll_result_def)
  obtain m ms' where m: "m \<le> length (inq w)" "inq w' = drop m (inq w)"
    "drain (unat (c_rx_buffer_size c)) (rx_bytes c @ take m (inq w)) = (ms', rx_bytes c', AEMLIB_STATUS_OK)" "seen w' = seen w @ ms'"
    using res IH(2,3) by (auto simp: poll_result_def poll_reception_def)
  have "length (inq w) - length (inq w') = m" using m by simp
  moreover have "drain (unat (c_rx_buffer_size c0)) (A @ take m (inq w)) = (ms @ ms', rx_bytes c', AEMLIB_STATUS_OK)"
    using drain_append [OF IH(5)] m(3) IH(4) by simp
  ultimately show ?case
    using r res IH m(4) by (simp add: poll_result_def same_config_def)
next
  case (others A c w w')
  then show ?case by (auto simp: good_def)
qed

end

end
