(* ===== verification/Aem_Link.thy ===== *)
theory Aem_Link
  imports Aem_Session
begin

text \<open>
  What the client makes of the functions of its platform, for any relation on worlds that these functions respect.
  The locale \<^verbatim>\<open>stepped\<close> is about the functions that move bytes and tell the time, \<^verbatim>\<open>evolving\<close> adds opening and
  closing the connection: then every call of the interface respects the relation.

  The locale \<^verbatim>\<open>phased\<close> is about the connection itself. A transport is closed before the first \<^verbatim>\<open>connect\<close>, after one that failed and
  after \<^verbatim>\<open>disconnect\<close>, in progress while \<^verbatim>\<open>connect\<close> reports WOULD_BLOCK, and up once it has succeeded. The client keeps the
  transport in step with its own state: it is closed when the client is disconnected, closed or in progress when the client is connecting, and up
  in the states behind that. In \<^verbatim>\<open>linked\<close> the first two phases are one.
\<close>

section \<open>Moving bytes\<close>

context platform
begin

lemma on_platform_fields [simp]:
  "on_platform (c\<lparr>c_rx_buffer := b\<rparr>) = on_platform c" "on_platform (c\<lparr>c_rx_len := n\<rparr>) = on_platform c"
  "on_platform (c\<lparr>c_tx_buffer := b\<rparr>) = on_platform c" "on_platform (c\<lparr>c_tx_pending_len := n\<rparr>) = on_platform c"
  by (simp_all add: runs_on_def)

lemma rx_consume_platform: "rx_consume c n = Some c' \<Longrightarrow> on_platform c' = on_platform c"
  by (auto simp: rx_consume_def bind_Some_iff Let_def split: if_splits)

text \<open>How the processing of the bytes received while a CONNACK is awaited can end.\<close>

lemma connect_sent_process_cases:
  assumes on: "on_platform c" and r: "connect_sent_process c w = Some (st, c', w')"
  obtains (drop) e c1 where "on_platform c1" "drop_connection c1 e w = Some (st, c', w')"
    | (wait) "check_connack_timeout c w = Some (st, c', w')"
    | (accept) "now w = (c_last_activity_ms c', w')" "c_state c' = AEMLIB_STATE_MQTT_CONNECTED"
proof (rule ccontr)
  assume neg: "\<not> thesis"
  have no: "on_platform c1 \<Longrightarrow> drop_connection c1 e w \<noteq> Some (st, c', w')" "check_connack_timeout c w \<noteq> Some (st, c', w')" for c1 e
    using neg drop wait by blast+
  obtain rx h where h: "c_rx_len c > 0" "c_rx_buffer c = Some rx"
    "aemlib_proto_decode_fixed_header rx (c_rx_len c) uninit_header = Some (AEMLIB_STATUS_OK, h)"
    using r no(1) [OF on] no(2) by (auto simp: connect_sent_process_def bind_Some_iff split: if_splits)
  let ?k = "header_size h + ucast (header_remaining_length h)"
  obtain st0 sp rc c1 where a: "aemlib_proto_decode_connack rx ?k 0 0 = Some (st0, sp, rc)" "rx_consume c ?k = Some c1"
    "(if st0 = AEMLIB_STATUS_OK \<and> rc = 0 then let c = c1\<lparr>c_state := AEMLIB_STATE_MQTT_CONNECTED\<rparr>; (now, w) = aemlib_time_now (c_time c) w
        in Some (AEMLIB_STATUS_OK, c\<lparr>c_last_activity_ms := now\<rparr>, w)
      else drop_connection c1 (AEMLIB_STATUS AEMLIB_LAYER_PROTOCOL AEMLIB_CODE_CONNECT) w) = Some (st, c', w')"
    using r no(1) [OF on] no(2) h by (auto simp: connect_sent_process_def Let_def bind_Some_iff split: if_splits)
  have on1: "on_platform c1" using on rx_consume_platform [OF a(2)] by simp
  obtain t w1 where t: "now w = (t, w1)" by (cases "now w")
  show False
    using a(3) t no(1) [OF on1] neg accept on_platform_wrappers(5) [OF on1] by (auto split: if_splits)
qed

end

locale stepped = platform conn disc rd wr inv inq outq now deliver seen
  for conn :: "'w \<Rightarrow> (aemlib_status_t \<times> 'w) option" and disc and rd and wr and inv and inq and outq
    and now and deliver and seen +
  fixes R :: "'w \<Rightarrow> 'w \<Rightarrow> bool"
  assumes R_refl [simp]: "R w w"
    and R_trans: "R w w1 \<Longrightarrow> R w1 w2 \<Longrightarrow> R w w2"
    and rd_R: "rd w buf len n0 = Some (st, buf', n, w') \<Longrightarrow> R w w'"
    and wr_R: "wr w data len n0 = Some (st, n, w') \<Longrightarrow> R w w'"
    and now_R: "now w = (t, w') \<Longrightarrow> R w w'"
    and deliver_R: "R w (deliver topic payload w)"
begin

lemma rx_read_rel:
  assumes on: "on_platform c" and r: "rx_read c w = Some (st, n, c', w')"
  shows "R w w'" "c_state c' = c_state c" "on_platform c'"
proof -
  obtain rx dst dst' where "rd w dst (c_rx_buffer_size c - c_rx_len c) 0 = Some (st, dst', n, w')"
    "c' = c\<lparr>c_rx_buffer := Some (take (unat (c_rx_len c)) rx @ dst')\<rparr>"
    using r by (auto simp: rx_read_def bind_Some_iff on_platform_wrappers [OF on])
  then show "R w w'" "c_state c' = c_state c" "on_platform c'"
    using rd_R on by simp_all
qed

lemma client_send_rel:
  assumes on: "on_platform c" and r: "client_send c len w = Some (st, c', w')"
  shows "R w w'" "c_state c' = c_state c"
proof -
  have "R w w' \<and> c_state c' = c_state c"
  proof (cases "c_tx_pending_len c > 0")
    case False
    then obtain tx st0 n w1 where w: "c_tx_buffer c = Some tx" "wr w tx len 0 = Some (st0, n, w1)"
      using r by (auto simp: client_send_def on_platform_wrappers [OF on] bind_Some_iff)
    show ?thesis
      using r False w wr_R [OF w(2)]
      by (auto simp: client_send_def on_platform_wrappers [OF on] Let_def bind_Some_iff split: if_splits)
  qed (use r in \<open>auto simp: client_send_def\<close>)
  then show "R w w'" "c_state c' = c_state c" by simp_all
qed

lemma client_flush_rel:
  assumes on: "on_platform c" and r: "client_flush_pending c w = Some (st, c', w')"
  shows "R w w'" "c_state c' = c_state c"
proof -
  have "R w w' \<and> c_state c' = c_state c"
  proof (cases "c_tx_pending_len c = 0")
    case False
    then obtain tx st0 n w1 where w: "c_tx_buffer c = Some tx" "wr w tx (c_tx_pending_len c) 0 = Some (st0, n, w1)"
      using r by (auto simp: client_flush_pending_def on_platform_wrappers [OF on] bind_Some_iff)
    show ?thesis
      using r False w wr_R [OF w(2)]
      by (auto simp: client_flush_pending_def on_platform_wrappers [OF on] Let_def bind_Some_iff split: if_splits)
  qed (use r in \<open>auto simp: client_flush_pending_def\<close>)
  then show "R w w'" "c_state c' = c_state c" by simp_all
qed

lemma deliver_all_rel: "cb \<in> {None, Some deliver} \<Longrightarrow> R w (deliver_all cb ms w)"
proof (induction ms arbitrary: w rule: rev_induct)
  case (snoc m ms)
  then show ?case using R_trans [OF _ deliver_R] by (auto simp: deliver_all_def split_def)
qed simp

lemma client_read_rel:
  assumes wf: "wf_rx c" and on: "on_platform c" and inv: "inv w" and r: "client_read c w = Some (st, c', w')"
  shows "R w w' \<and> c_state c' = c_state c"
proof -
  obtain st0 n rx w1 where 1: "rx_read c w = Some (st0, n, c\<lparr>c_rx_buffer := Some rx\<rparr>, w1)"
    "wf_rx (c\<lparr>c_rx_buffer := Some rx\<rparr>)" "st0 = AEMLIB_STATUS_OK \<longrightarrow> wf_rx (c\<lparr>c_rx_buffer := Some rx, c_rx_len := c_rx_len c + n\<rparr>)"
    using rx_read_ok [OF wf on inv] by metis
  note k = rx_read_rel(1) [OF on 1(1)]
  have cb: "c_on_message c \<in> {None, Some deliver}" using on by (simp add: runs_on_def)
  show ?thesis
  proof (cases "st0 \<noteq> AEMLIB_STATUS_OK \<and> \<not> would_block st0")
    case True
    then show ?thesis using r 1(1) k by (auto simp: client_read_def)
  next
    case False
    define l where "l = (if would_block st0 then 0 else n)"
    let ?c = "c\<lparr>c_rx_buffer := Some rx, c_rx_len := c_rx_len c + l\<rparr>"
    have "wf_rx ?c" using False 1(2,3) by (auto simp: l_def would_block_not_OK)
    from client_read_loop_ok [OF this, of w1] obtain ms where "w' = deliver_all (c_on_message c) ms w1" "c_state c' = c_state c"
      using False r 1(1) by (auto simp: client_read_def l_def drain_outcome_def rx_frame_def)
    then show ?thesis using R_trans [OF k deliver_all_rel [OF cb]] by simp
  qed
qed

lemma send_encoded_rel:
  assumes on: "on_platform c"
    and r: "(do { tx \<leftarrow> c_tx_buffer c; (status, tx, out_len) \<leftarrow> enc tx;
       AEMLIB_CHECK_STATUS status (Some (status, c\<lparr>c_tx_buffer := Some tx\<rparr>, w)) (client_send (c\<lparr>c_tx_buffer := Some tx\<rparr>) out_len w) })
       = Some (st, c', w')"
  shows "R w w' \<and> c_state c' = c_state c"
proof -
  have on': "on_platform (c\<lparr>c_tx_buffer := Some tx\<rparr>)" for tx using on by simp
  show ?thesis
    using r client_send_rel [OF on'] by (fastforce simp: bind_Some_iff AEMLIB_CHECK_STATUS_def split: if_splits)
qed

lemma client_send_packet_rel:
  assumes "on_platform c" "client_send_connect c w = Some (st, c', w') \<or> client_send_ping c w = Some (st, c', w')"
  shows "R w w' \<and> c_state c' = c_state c"
  using assms(2) send_encoded_rel [OF assms(1), of _ w st c' w']
  by (auto simp: client_send_connect_def client_send_ping_def Let_def AEMLIB_CHECK_STATUS_def cong: if_cong)

lemma publish_rel:
  assumes on: "on_platform c" and r: "aemlib_publish (Some c) topic payload n qos w = Some (st, Some c', w')"
  shows "R w w' \<and> c_state c' = c_state c"
proof (cases "qos = 0")
  case True
  then obtain tx st1 tx' len where e: "c_tx_buffer c = Some tx"
    "aemlib_proto_encode_publish tx (c_tx_buffer_size c) 0 topic payload n = Some (st1, tx', len)"
    using r by (auto simp: aemlib_publish_def bind_Some_iff)
  have on': "on_platform (c\<lparr>c_tx_buffer := Some tx'\<rparr>)" using on by simp
  note send = client_send_rel [OF on']
  show ?thesis
    using r True e
    by (auto simp: aemlib_publish_def to_pcall_def AEMLIB_CHECK_STATUS_def Let_def dest: send split: if_splits)
qed (use r in \<open>auto simp: aemlib_publish_def\<close>)

lemma subscribe_rel:
  assumes on: "on_platform c" and r: "aemlib_subscribe (Some c) topic qos w = Some (st, Some c', w')"
  shows "R w w' \<and> c_state c' = c_state c"
proof (cases "qos = 0")
  case True
  obtain pid where pid: "aemlib_core_next_packet_id (Some c) = (pid, Some (c\<lparr>c_packet_id := pid\<rparr>))"
    using next_packet_id_ok by metis
  obtain tx st1 tx' len where e: "c_tx_buffer c = Some tx"
    "aemlib_proto_encode_subscribe tx (c_tx_buffer_size c) 0 pid topic = Some (st1, tx', len)"
    using r True pid by (auto simp: aemlib_subscribe_def bind_Some_iff)
  have on': "on_platform (c\<lparr>c_packet_id := pid, c_tx_buffer := Some tx'\<rparr>)" using on by (simp add: runs_on_def)
  note send = client_send_rel [OF on']
  show ?thesis
    using r True pid e
    by (auto simp: aemlib_subscribe_def to_pcall_def AEMLIB_CHECK_STATUS_def Let_def dest: send split: if_splits)
qed (use r in \<open>auto simp: aemlib_subscribe_def\<close>)

text \<open>The work of a poll behind the state machine.\<close>

lemma poll_state_rel:
  assumes g: "good c w" and r: "poll_state c w = Some (st, c', w')"
  shows "R w w' \<and> c_state c' = c_state c"
proof (cases "c_state c")
  case AEMLIB_STATE_MQTT_CONNECT_SENT
  note p = good_parts [OF g]
  show ?thesis
  proof (cases "c_connect_sent c = 0")
    case True
    then obtain st1 c1 w1 where 1: "client_send_connect c w = Some (st1, c1, w1)"
      using r AEMLIB_STATE_MQTT_CONNECT_SENT by (auto simp: poll_state_def bind_Some_iff)
    have "R w w1 \<and> c_state c1 = c_state c" using client_send_packet_rel [of c w st1 c1 w1] p 1 by blast
    then show ?thesis using r True 1 AEMLIB_STATE_MQTT_CONNECT_SENT by (auto simp: poll_state_def split: if_splits)
  qed (use r AEMLIB_STATE_MQTT_CONNECT_SENT in \<open>auto simp: poll_state_def\<close>)
next
  case AEMLIB_STATE_MQTT_CONNECTED
  note p = good_parts [OF g]
  obtain st1 c1 w1 where 1: "client_read c w = Some (st1, c1, w1)" "rx_frame c c1" "wf_rx c1" "inv w1"
    using client_read_ok [of c w] p by blast
  have k1: "R w w1" "c_state c1 = c_state c" using client_read_rel [OF _ _ _ 1(1)] p by blast+
  have on1: "on_platform c1" using good_rx [OF g 1(2-4)] good_parts by blast
  obtain t w2 where t: "now w1 = (t, w2)" by (cases "now w1")
  have k2: "R w w2" using R_trans [OF k1(1) now_R [OF t]] .
  have ping: "R w w3 \<and> c_state c2 = c_state c" if "client_send_ping c1 w2 = Some (st2, c2, w3)" for st2 c2 w3
    using client_send_packet_rel [OF on1, of w2 st2 c2 w3] that R_trans [OF k2] k1(2) by auto
  show ?thesis
    using r 1(1) k1 k2 t AEMLIB_STATE_MQTT_CONNECTED
    by (auto simp: poll_state_def AEMLIB_CHECK_STATUS_def on_platform_wrappers [OF on1] bind_Some_iff dest: ping split: if_splits)
qed (use r in \<open>auto simp: poll_state_def\<close>)

text \<open>A poll, given what the state machine does.\<close>

lemma poll_split:
  assumes g: "good c w" and r: "aemlib_poll (Some c) w = Some (st, Some c', w')"
  obtains (flush) "R w w'" "c_state c' = c_state c"
    | (core) c1 w1 st2 c2 w2 where "good c1 w1" "R w w1" "c_state c1 = c_state c"
        "core_poll_state c1 w1 = Some (st2, c2, w2)" "R w2 w'" "c_state c' = c_state c2"
proof -
  note p = good_parts [OF g]
  obtain st1 c1 w1 where 1: "client_flush_pending c w = Some (st1, c1, w1)" "tx_frame c c1" "wf_tx c1" "inv w1"
    using client_flush_ok [of c w] p by blast
  have g1: "good c1 w1" by (rule good_tx [OF g 1(2-4)])
  have k1: "R w w1" "c_state c1 = c_state c" using client_flush_rel [OF _ 1(1)] p by blast+
  obtain st2 c2 w2 where 2: "core_poll_state c1 w1 = Some (st2, c2, w2)" "core_frame c1 c2" "wf_client c2" "inv w2"
    using core_poll_ok [of c1 w1] good_parts [OF g1] by blast
  have g2: "good c2 w2" using 2 good_parts [OF g1] on_platform_frame [OF 2(2)] by (simp add: good_def)
  note step = core [OF g1 k1 2(1)]
  show thesis
  proof (cases "st1 = AEMLIB_STATUS_OK \<and> st2 = AEMLIB_STATUS_OK")
    case True
    then have "poll_state c2 w2 = Some (st, c', w')"
      using r 1(1) 2(1) by (auto simp: aemlib_poll_def aemlib_core_poll_def to_pcall_def)
    then show ?thesis using poll_state_rel [OF g2] step by blast
  next
    case False
    then show ?thesis
      using r 1(1) 2(1) k1 flush step by (auto simp: aemlib_poll_def aemlib_core_poll_def to_pcall_def AEMLIB_CHECK_STATUS_def split: if_splits)
  qed
qed

end

section \<open>Everything a client does to its platform\<close>

locale evolving = stepped conn disc rd wr inv inq outq now deliver seen R
  for conn :: "'w \<Rightarrow> (aemlib_status_t \<times> 'w) option" and disc and rd and wr and inv and inq and outq
    and now and deliver and seen and R +
  assumes conn_R: "conn w = Some (st, w') \<Longrightarrow> R w w'"
    and disc_R: "disc w = Some (st, w') \<Longrightarrow> R w w'"
begin

lemma drop_connection_rel: "on_platform c \<Longrightarrow> drop_connection c e w = Some (st, c', w') \<Longrightarrow> R w w'"
  by (auto simp: drop_connection_def bind_Some_iff on_platform_wrappers dest: disc_R)

lemma timeout_rel:
  assumes on: "on_platform c" and r: "check_connack_timeout c w = Some (st, c', w')"
  shows "R w w'"
proof -
  obtain t w1 where t: "now w = (t, w1)" by (cases "now w")
  show ?thesis
    using r t now_R [OF t] R_trans [OF now_R [OF t] drop_connection_rel [OF on]]
    by (auto simp: check_connack_timeout_def on_platform_wrappers [OF on] split: if_splits)
qed

lemma connect_sent_rel:
  assumes on: "on_platform c" and r: "handle_state_mqtt_connect_sent c w = Some (st, c', w')"
  shows "R w w'"
proof -
  obtain st0 n c1 w1 where 1: "rx_read c w = Some (st0, n, c1, w1)"
    using r by (auto simp: handle_state_mqtt_connect_sent_def bind_Some_iff)
  note k = rx_read_rel [OF on 1]
  show ?thesis
  proof (cases "st0 \<noteq> AEMLIB_STATUS_OK \<and> \<not> would_block st0")
    case True
    then show ?thesis
      using r 1 R_trans [OF k(1) drop_connection_rel [OF k(3)]] by (auto simp: handle_state_mqtt_connect_sent_def)
  next
    case False
    define l where "l = c_rx_len c1 + (if would_block st0 then 0 else n)"
    have p: "connect_sent_process (c1\<lparr>c_rx_len := l\<rparr>) w1 = Some (st, c', w')"
      using r 1 False by (auto simp: handle_state_mqtt_connect_sent_def l_def)
    have on1: "on_platform (c1\<lparr>c_rx_len := l\<rparr>)" using k(3) by simp
    have "R w1 w'"
      using on1 p by (cases rule: connect_sent_process_cases) (auto intro: drop_connection_rel timeout_rel [OF on1] now_R)
    then show ?thesis by (rule R_trans [OF k(1)])
  qed
qed

lemma connecting_rel:
  assumes on: "on_platform c" and r: "handle_state_connecting c w = Some (st, c', w')"
  shows "R w w'"
proof -
  obtain st0 w1 where 1: "conn w = Some (st0, w1)"
    using r by (auto simp: handle_state_connecting_def bind_Some_iff on_platform_wrappers [OF on])
  obtain t w2 where t: "now w1 = (t, w2)" by (cases "now w1")
  show ?thesis
    using r 1 t conn_R [OF 1] R_trans [OF conn_R [OF 1] now_R [OF t]]
    by (auto simp: handle_state_connecting_def on_platform_wrappers [OF on] split: if_splits)
qed

lemma core_poll_rel: "on_platform c \<Longrightarrow> core_poll_state c w = Some (st, c', w') \<Longrightarrow> R w w'"
  by (cases "c_state c")
     (auto simp: core_poll_state_def handle_state_disconnected_def handle_state_mqtt_connected_def bind_Some_iff
        handle_state_mqtt_disconnecting_def on_platform_wrappers intro: connecting_rel connect_sent_rel dest: disc_R)

lemma poll_rel:
  assumes g: "good c w" and r: "aemlib_poll (Some c) w = Some (st, Some c', w')"
  shows "R w w'"
  using g r
proof (cases rule: poll_split)
  case (core c1 w1 st2 c2 w2)
  have "R w1 w2" using core_poll_rel [OF _ core(4)] good_parts [OF core(1)] by blast
  then show ?thesis using R_trans core(2,5) by blast
qed

end

section \<open>The life of a connection\<close>

text \<open>
  The phases of a connection, as the transport sees them: \<open>closed\<close> when nothing is held, \<open>idle\<close> when it is not open but may be
  in progress, \<open>up\<close> when it is open. The states of the client go with them.
\<close>

definition link_ok :: "('w \<Rightarrow> bool) \<Rightarrow> ('w \<Rightarrow> bool) \<Rightarrow> ('w \<Rightarrow> bool) \<Rightarrow> 'w aemlib_client \<Rightarrow> 'w \<Rightarrow> bool" where
  "link_ok closed idle up c w \<longleftrightarrow>
     (if c_state c = AEMLIB_STATE_DISCONNECTED then closed w else if c_state c = AEMLIB_STATE_CONNECTING then idle w else up w)"

definition same_link :: "('w \<Rightarrow> bool) \<Rightarrow> ('w \<Rightarrow> bool) \<Rightarrow> ('w \<Rightarrow> bool) \<Rightarrow> 'w \<Rightarrow> 'w \<Rightarrow> bool" where
  "same_link closed idle up w w' \<longleftrightarrow> closed w' = closed w \<and> idle w' = idle w \<and> up w' = up w"

lemma link_ok_same:
  "same_link closed idle up w w' \<Longrightarrow> c_state c' = c_state c \<Longrightarrow> link_ok closed idle up c' w' = link_ok closed idle up c w"
  by (simp add: same_link_def link_ok_def)

text \<open>A call that opens the connection and reports an error other than WOULD_BLOCK, and one that closes it, leave nothing behind.\<close>

locale phased = platform conn disc rd wr inv inq outq now deliver seen
  for conn :: "'w \<Rightarrow> (aemlib_status_t \<times> 'w) option" and disc and rd and wr and inv and inq and outq
    and now and deliver and seen +
  fixes closed :: "'w \<Rightarrow> bool" and idle :: "'w \<Rightarrow> bool" and up :: "'w \<Rightarrow> bool"
  assumes closed_idle: "closed w \<Longrightarrow> idle w"
    and conn_link: "idle w \<Longrightarrow> conn w = Some (st, w') \<Longrightarrow>
      if st = AEMLIB_STATUS_OK then up w' else if would_block st then idle w' else closed w'"
    and disc_link: "idle w \<or> up w \<Longrightarrow> disc w = Some (st, w') \<Longrightarrow> closed w'"
    and rd_link: "rd w buf len n0 = Some (st, buf', n, w') \<Longrightarrow> same_link closed idle up w w'"
    and wr_link: "wr w data len n0 = Some (st, n, w') \<Longrightarrow> same_link closed idle up w w'"
    and now_link: "now w = (t, w') \<Longrightarrow> same_link closed idle up w w'"
    and deliver_link: "same_link closed idle up w (deliver topic payload w)"

text \<open>A transport that is never in progress has two phases.\<close>

locale linked = phased conn disc rd wr inv inq outq now deliver seen idle idle up
  for conn :: "'w \<Rightarrow> (aemlib_status_t \<times> 'w) option" and disc and rd and wr and inv and inq and outq
    and now and deliver and seen and idle and up

sublocale phased \<subseteq> kept: stepped conn disc rd wr inv inq outq now deliver seen "same_link closed idle up"
  using rd_link wr_link now_link deliver_link by unfold_locales (auto simp: same_link_def)

context phased
begin

lemma drop_connection_link:
  assumes "on_platform c" "idle w \<or> up w" "drop_connection c e w = Some (st, c', w')"
  shows "link_ok closed idle up c' w'"
  using assms(2,3) disc_link by (auto simp: drop_connection_def bind_Some_iff on_platform_wrappers [OF assms(1)] link_ok_def)

lemma timeout_link:
  assumes on: "on_platform c" and up: "up w" and s: "c_state c = AEMLIB_STATE_MQTT_CONNECT_SENT"
    and r: "check_connack_timeout c w = Some (st, c', w')"
  shows "link_ok closed idle up c' w'"
proof -
  obtain t w1 where t: "now w = (t, w1)" by (cases "now w")
  then have "up w1" using now_link [OF t] up by (simp add: same_link_def)
  then show ?thesis
    using r t s drop_connection_link [OF on, of w1]
    by (auto simp: check_connack_timeout_def on_platform_wrappers [OF on] link_ok_def split: if_splits)
qed

lemma connect_sent_process_link:
  assumes on: "on_platform c" and up: "up w" and s: "c_state c = AEMLIB_STATE_MQTT_CONNECT_SENT"
    and r: "connect_sent_process c w = Some (st, c', w')"
  shows "link_ok closed idle up c' w'"
  using on r
proof (cases rule: connect_sent_process_cases)
  case (drop e c1)
  then show ?thesis using drop_connection_link up by blast
next
  case wait
  then show ?thesis by (rule timeout_link [OF on up s])
next
  case accept
  then show ?thesis using now_link [OF accept(1)] up by (simp add: same_link_def link_ok_def)
qed

lemma connect_sent_link:
  assumes on: "on_platform c" and up: "up w" and s: "c_state c = AEMLIB_STATE_MQTT_CONNECT_SENT"
    and r: "handle_state_mqtt_connect_sent c w = Some (st, c', w')"
  shows "link_ok closed idle up c' w'"
proof -
  obtain st0 n c1 w1 where 1: "rx_read c w = Some (st0, n, c1, w1)"
    using r by (auto simp: handle_state_mqtt_connect_sent_def bind_Some_iff)
  note k = kept.rx_read_rel [OF on 1]
  have c1: "up w1" "on_platform (c1\<lparr>c_rx_len := l\<rparr>)" "c_state (c1\<lparr>c_rx_len := l\<rparr>) = AEMLIB_STATE_MQTT_CONNECT_SENT" for l
    using k up s by (simp_all add: same_link_def)
  show ?thesis
    using r 1 c1(1) connect_sent_process_link [OF c1(2,1,3)] drop_connection_link [OF k(3), of w1]
    by (auto simp: handle_state_mqtt_connect_sent_def Let_def split: if_splits)
qed

lemma connecting_link:
  assumes on: "on_platform c" and idle: "idle w" and s: "c_state c = AEMLIB_STATE_CONNECTING"
    and r: "handle_state_connecting c w = Some (st, c', w')"
  shows "link_ok closed idle up c' w'"
proof -
  obtain st0 w1 where 1: "conn w = Some (st0, w1)"
    using r by (auto simp: handle_state_connecting_def bind_Some_iff on_platform_wrappers [OF on])
  obtain t w2 where t: "now w1 = (t, w2)" by (cases "now w1")
  show ?thesis
    using r 1 t s conn_link [OF idle 1] now_link [OF t]
    by (auto simp: handle_state_connecting_def on_platform_wrappers [OF on] link_ok_def same_link_def split: if_splits)
qed

lemma core_poll_link:
  assumes on: "on_platform c" and l: "link_ok closed idle up c w" and r: "core_poll_state c w = Some (st, c', w')"
  shows "link_ok closed idle up c' w'"
proof (cases "c_state c")
  case AEMLIB_STATE_CONNECTING
  then show ?thesis using connecting_link [OF on] l r by (simp add: core_poll_state_def link_ok_def)
next
  case AEMLIB_STATE_MQTT_CONNECT_SENT
  then show ?thesis using connect_sent_link [OF on] l r by (simp add: core_poll_state_def link_ok_def)
next
  case AEMLIB_STATE_MQTT_DISCONNECTING
  then show ?thesis using l r disc_link
    by (auto simp: core_poll_state_def handle_state_mqtt_disconnecting_def bind_Some_iff on_platform_wrappers [OF on] link_ok_def)
qed (use l r in \<open>auto simp: core_poll_state_def handle_state_disconnected_def handle_state_mqtt_connected_def\<close>)

lemma poll_link:
  assumes g: "good c w" and l: "link_ok closed idle up c w" and r: "aemlib_poll (Some c) w = Some (st, Some c', w')"
  shows "link_ok closed idle up c' w'"
  using g r
proof (cases rule: kept.poll_split)
  case flush
  then show ?thesis using l link_ok_same [OF flush] by simp
next
  case (core c1 w1 st2 c2 w2)
  have "link_ok closed idle up c1 w1" using l link_ok_same [OF core(2,3)] by blast
  then have "link_ok closed idle up c2 w2" using core_poll_link [OF _ _ core(4)] good_parts [OF core(1)] by blast
  then show ?thesis using link_ok_same [OF core(5,6)] by blast
qed

text \<open>Every run of the interface keeps client and transport in step.\<close>

lemma api_run_link:
  assumes "api_run env c0 w0 c w" "good c0 w0" "link_ok closed idle up c0 w0"
    and env: "\<And>w w'. inv w \<Longrightarrow> env w w' \<Longrightarrow> inv w' \<and> same_link closed idle up w w'"
  shows "good c w \<and> link_ok closed idle up c w"
  using assms(1)
proof (induction rule: api_run.induct)
  case (poll c w st c' w')
  then show ?case using poll_ok [of c w] poll_link [of c w st c' w'] by (auto simp: poll_result_def)
next
  case (connect c w st c')
  then show ?case using good_request(1) [of c w st c']
    by (auto simp: aemlib_connect_def aemlib_core_connect_def link_ok_def closed_idle split: if_splits)
next
  case (disconnect c w st c')
  then show ?case using good_request(2) [of c w st c']
    by (auto simp: aemlib_disconnect_def aemlib_core_disconnect_def link_ok_def split: if_splits)
next
  case (publish c w topic payload n qos st c' w')
  have "good c' w'" using publish_good [of c w topic payload n qos] publish by auto
  moreover have "same_link closed idle up w w' \<and> c_state c' = c_state c"
    using kept.publish_rel [OF _ publish.hyps(3)] publish.IH good_parts [of c w] by blast
  ultimately show ?case using publish.IH link_ok_same [of closed idle up w w' c' c] by simp
next
  case (subscribe c w topic qos st c' w')
  have "good c' w'" using subscribe_good [of c w topic qos] subscribe by auto
  moreover have "same_link closed idle up w w' \<and> c_state c' = c_state c"
    using kept.subscribe_rel [OF _ subscribe.hyps(3)] subscribe.IH good_parts [of c w] by blast
  ultimately show ?case using subscribe.IH link_ok_same [of closed idle up w w' c' c] by simp
next
  case (environment c w w')
  then show ?case using env [of w w'] link_ok_same [of closed idle up w w' c c] by (simp add: good_def)
qed (use assms(2,3) in simp)

end

end
