(* ===== verification/Aem_Protocol.thy ===== *)
theory Aem_Protocol
  imports Aem_Session
begin

text \<open>
  The protocol that a client is meant to speak, as a machine over the events of a session, and the proof that the client
  refines it: packets sent, the acceptance of the connection, messages delivered. Nothing in the machine mentions buffers,
  partial transfers or polling; the refinement relates its packets to the bytes that the transport has accepted and its
  messages to the bytes that were read.
\<close>

section \<open>The abstract session\<close>

datatype packet =
    Connect uint16
  | Subscribe uint16 "byte list"
  | Publish "byte list" "byte list"
  | Pingreq

fun packet_bytes :: "packet \<Rightarrow> byte list" where
  "packet_bytes (Connect k) = connect_packet ([], k)"
| "packet_bytes (Subscribe pid topic) = subscribe_packet (pid, topic)"
| "packet_bytes (Publish topic payload) = publish_packet (topic, payload)"
| "packet_bytes Pingreq = [0xC0, 0]"

fun app_packet :: "packet \<Rightarrow> bool" where
  "app_packet (Subscribe pid topic) = True"
| "app_packet (Publish topic payload) = True"
| "app_packet p = False"

lemma app_not_connect: "app_packet p \<Longrightarrow> p \<noteq> Connect k"
  by auto

datatype session_event = Sent packet | Accepted | Delivered message

datatype phase = Fresh | Requested | Established

text \<open>CONNECT comes first and once, everything else waits for the acceptance of the connection.\<close>

fun protocol_step :: "phase \<Rightarrow> session_event \<Rightarrow> phase option" where
  "protocol_step Fresh (Sent (Connect k)) = Some Requested"
| "protocol_step Requested Accepted = Some Established"
| "protocol_step Established (Sent (Connect k)) = None"
| "protocol_step Established (Sent p) = Some Established"
| "protocol_step Established (Delivered m) = Some Established"
| "protocol_step ph e = None"

fun protocol_run :: "phase \<Rightarrow> session_event list \<Rightarrow> phase option" where
  "protocol_run ph [] = Some ph"
| "protocol_run ph (e # es) = protocol_step ph e \<bind> (\<lambda>ph'. protocol_run ph' es)"

lemma protocol_run_append: "protocol_run ph (es @ fs) = protocol_run ph es \<bind> (\<lambda>ph'. protocol_run ph' fs)"
  by (induction es arbitrary: ph) (simp_all add: bind_assoc)

fun packets_of :: "session_event list \<Rightarrow> packet list" where
  "packets_of [] = []"
| "packets_of (Sent p # es) = p # packets_of es"
| "packets_of (e # es) = packets_of es"

fun messages_of :: "session_event list \<Rightarrow> message list" where
  "messages_of [] = []"
| "messages_of (Delivered m # es) = m # messages_of es"
| "messages_of (e # es) = messages_of es"

lemma packets_of_append [simp]: "packets_of (es @ fs) = packets_of es @ packets_of fs"
  by (induction es rule: packets_of.induct) simp_all

lemma messages_of_append [simp]: "messages_of (es @ fs) = messages_of es @ messages_of fs"
  by (induction es rule: messages_of.induct) simp_all

lemma events_map [simp]:
  "packets_of (map Sent ps) = ps" "messages_of (map Sent ps) = []" "packets_of (map Delivered ms) = []" "messages_of (map Delivered ms) = ms"
  by (induction ps; simp)+ (induction ms; simp)+

lemma established_run [simp]:
  "protocol_run Established (map Delivered ms) = Some Established"
  "protocol_run Established (map Sent ps) = Some Established \<longleftrightarrow> (\<forall>k. Connect k \<notin> set ps)"
proof -
  show "protocol_run Established (map Delivered ms) = Some Established" by (induction ms) simp_all
  show "protocol_run Established (map Sent ps) = Some Established \<longleftrightarrow> (\<forall>k. Connect k \<notin> set ps)"
  proof (induction ps)
    case (Cons p ps)
    then show ?case by (cases p) auto
  qed simp
qed

text \<open>The sessions that the machine allows, by the phase they end in.\<close>

lemma established_only:
  assumes "protocol_run Established es = Some ph"
  shows "ph = Established \<and> Accepted \<notin> set es \<and> (\<forall>k. Sent (Connect k) \<notin> set es)"
  using assms by (induction es) (auto simp: bind_eq_Some_conv elim!: protocol_step.elims)

lemma protocol_shape:
  assumes "protocol_run Fresh es = Some ph"
  shows "case ph of Fresh \<Rightarrow> es = [] | Requested \<Rightarrow> (\<exists>k. es = [Sent (Connect k)])
    | Established \<Rightarrow> (\<exists>k fs. es = Sent (Connect k) # Accepted # fs \<and> Accepted \<notin> set fs \<and> (\<forall>k'. Sent (Connect k') \<notin> set fs))"
  using assms established_only
  by (cases es; cases "tl es") (fastforce simp: bind_eq_Some_conv elim!: protocol_step.elims)+

section \<open>What a poll adds to a session\<close>

lemma connack_accept_append:
  assumes "connack_verdict S bs = CV_Accept k"
  shows "connack_verdict S (bs @ cs) = CV_Accept k" "k \<le> length bs"
proof -
  obtain f n s where p: "fh_parse bs = FH_Ok AEMLIB_MQTT_PKT_CONNACK f n s" "s + n \<le> S" "s + n \<le> length bs" "4 \<le> s + n" "bs ! 3 = 0" "k = s + n"
    using assms by (auto simp: connack_verdict_def split: fh_result.splits if_splits)
  then have "fh_parse (bs @ cs) = fh_parse bs" by (intro fh_parse_append) simp
  then show "connack_verdict S (bs @ cs) = CV_Accept k" "k \<le> length bs" using p by (simp_all add: connack_verdict_def nth_append)
qed

context platform
begin

text \<open>The transport only adds to the bytes it has accepted.\<close>

lemma sends_grow: "sends fits pkt c w (Some (st, c', w')) \<Longrightarrow> \<exists>d. outq w' = outq w @ d"
  by (auto simp: sends_def send_outcome_def)

lemma poll_state_grows:
  assumes g: "good c w" and r: "poll_state c w = Some (st, c', w')"
  shows "\<exists>d. outq w' = outq w @ d"
proof (cases "c_state c")
  case AEMLIB_STATE_MQTT_CONNECT_SENT
  note p = good_parts [OF g]
  show ?thesis
    using r AEMLIB_STATE_MQTT_CONNECT_SENT sends_grow send_connect_ok [of c w] p
    by (cases "c_connect_sent c = 0") (auto simp: poll_state_def bind_Some_iff split: if_splits)
next
  case AEMLIB_STATE_MQTT_CONNECTED
  note p = good_parts [OF g]
  obtain st1 c1 w1 where 1: "client_read c w = Some (st1, c1, w1)" "rx_frame c c1" "wf_rx c1" "inv w1" "outq w1 = outq w"
    using client_read_ok [of c w] p by blast
  have g1: "good c1 w1" using good_rx [OF g 1(2-4)] by simp
  obtain t w2 where t: "now w1 = (t, w2)" by (cases "now w1")
  then have w2: "inv w2" "outq w2 = outq w" using now_ok [OF 1(4)] 1(5) by auto
  have ping: "\<exists>d. outq w3 = outq w @ d" if "client_send_ping c1 w2 = Some (st3, c3, w3)" for st3 c3 w3
    using sends_grow send_ping_ok [of c1 w2] good_parts [OF g1] w2 that by metis
  show ?thesis
    using r 1(1,5) w2(2) t AEMLIB_STATE_MQTT_CONNECTED good_parts [OF g1]
    by (auto simp: poll_state_def AEMLIB_CHECK_STATUS_def on_platform_wrappers bind_Some_iff dest: ping split: if_splits)
qed (use r in \<open>auto simp: poll_state_def\<close>)

lemma poll_parts:
  assumes g: "good c w" and r: "aemlib_poll (Some c) w = Some (AEMLIB_STATUS_OK, Some c', w')"
  obtains c1 w1 c2 w2 where "good c1 w1" "tx_frame c c1" "inq w1 = inq w" "seen w1 = seen w" "outq w1 @ tx_bytes c1 = outq w @ tx_bytes c"
    "\<exists>d. outq w1 = outq w @ d" "core_poll_state c1 w1 = Some (AEMLIB_STATUS_OK, c2, w2)" "good c2 w2" "core_frame c1 c2"
    "outq w2 = outq w1" "seen w2 = seen w1" "poll_state c2 w2 = Some (AEMLIB_STATUS_OK, c', w')"
proof -
  note p = good_parts [OF g]
  obtain st1 c1 w1 where 1: "client_flush_pending c w = Some (st1, c1, w1)" "tx_frame c c1" "wf_tx c1" "inv w1"
    "inq w1 = inq w" "seen w1 = seen w" "outq w1 @ tx_bytes c1 = outq w @ tx_bytes c" "\<exists>d. outq w1 = outq w @ d"
    using client_flush_ok [of c w] p by blast
  have g1: "good c1 w1" by (rule good_tx [OF g 1(2-4)])
  obtain st2 c2 w2 where 2: "core_poll_state c1 w1 = Some (st2, c2, w2)" "core_frame c1 c2" "wf_client c2" "inv w2"
    "outq w2 = outq w1" "seen w2 = seen w1"
    using core_poll_ok [of c1 w1] good_parts [OF g1] by blast
  have g2: "good c2 w2" using 2 good_parts [OF g1] on_platform_frame [OF 2(2)] by (simp add: good_def)
  have "st1 = AEMLIB_STATUS_OK" "st2 = AEMLIB_STATUS_OK" "poll_state c2 w2 = Some (AEMLIB_STATUS_OK, c', w')"
    using r 1(1) 2(1) by (auto simp: aemlib_poll_def aemlib_core_poll_def to_pcall_def AEMLIB_CHECK_STATUS_def split: if_splits)
  then show thesis using that [OF g1 1(2,5,6,7,8) _ g2 2(2,5,6)] 2(1) by simp
qed

lemma poll_grows:
  assumes "good c w" "aemlib_poll (Some c) w = Some (AEMLIB_STATUS_OK, Some c', w')"
  shows "\<exists>d. outq w' = outq w @ d"
  using assms
proof (rule poll_parts)
  fix c1 w1 c2 w2
  assume "\<exists>d. outq w1 = outq w @ d" "good c2 w2" "outq w2 = outq w1" "poll_state c2 w2 = Some (AEMLIB_STATUS_OK, c', w')"
  then show ?thesis using poll_state_grows [of c2 w2] by fastforce
qed

text \<open>A poll that opens the transport sends CONNECT at once, and reads nothing.\<close>

lemma poll_connecting:
  assumes g: "good c w" and s: "c_state c = AEMLIB_STATE_CONNECTING" and r: "aemlib_poll (Some c) w = Some (AEMLIB_STATUS_OK, Some c', w')"
  shows "rx_bytes c' = rx_bytes c \<and> (c_state c' = AEMLIB_STATE_MQTT_CONNECT_SENT \<longrightarrow> c_connect_sent c' \<noteq> 0)"
  using g r
proof (rule poll_parts)
  fix c1 w1 c2 w2
  assume f: "good c1 w1" "tx_frame c c1" "core_poll_state c1 w1 = Some (AEMLIB_STATUS_OK, c2, w2)" "good c2 w2"
    "poll_state c2 w2 = Some (AEMLIB_STATUS_OK, c', w')"
  have s1: "c_state c1 = AEMLIB_STATE_CONNECTING" "rx_bytes c1 = rx_bytes c" using f(2) s tx_frame_rx [OF f(2)] by (auto simp: tx_frame_def)
  have h: "handle_state_connecting c1 w1 = Some (AEMLIB_STATUS_OK, c2, w2)" using f(3) s1(1) by (simp add: core_poll_state_def)
  have on: "on_platform c1" using good_parts [OF f(1)] by simp
  obtain st0 w0 where "conn w1 = Some (st0, w0)" using h by (auto simp: handle_state_connecting_def bind_Some_iff on_platform_wrappers [OF on])
  then have "rx_bytes c2 = rx_bytes c1 \<and> c_state c2 \<in> {AEMLIB_STATE_CONNECTING, AEMLIB_STATE_MQTT_CONNECT_SENT, AEMLIB_STATE_DISCONNECTED}"
    using h s1(1) by (cases "now w0") (auto simp: handle_state_connecting_def on_platform_wrappers [OF on] rx_bytes_def split: if_splits)
  moreover have "rx_bytes c' = rx_bytes c2 \<and> (c_state c' = AEMLIB_STATE_MQTT_CONNECT_SENT \<longrightarrow> c_connect_sent c' \<noteq> 0)"
    if s2: "c_state c2 = AEMLIB_STATE_MQTT_CONNECT_SENT"
  proof (cases "c_connect_sent c2 = 0")
    case True
    then obtain c3 where c3: "client_send_connect c2 w2 = Some (AEMLIB_STATUS_OK, c3, w')" "c' = c3\<lparr>c_connect_sent := 1\<rparr>"
      using f(5) s2 by (auto simp: poll_state_def bind_Some_iff split: if_splits)
    then have "tx_frame c2 c3" using send_connect_ok [of c2 w2] good_parts [OF f(4)] by (auto simp: sends_def)
    then show ?thesis using c3(2) tx_frame_rx by (auto simp: rx_bytes_def)
  qed (use f(5) s2 in \<open>auto simp: poll_state_def\<close>)
  ultimately show ?thesis using f(5) s1(2) by (auto simp: poll_state_def)
qed

text \<open>A poll that waits for the CONNACK, and what it does once that has arrived.\<close>

lemma poll_waiting:
  assumes g: "good c w" and s: "c_state c = AEMLIB_STATE_MQTT_CONNECT_SENT" "c_connect_sent c \<noteq> 0"
    and r: "aemlib_poll (Some c) w = Some (AEMLIB_STATUS_OK, Some c', w')"
  obtains m where "m \<le> length (inq w)" "inq w' = drop m (inq w)" "c_state c' = AEMLIB_STATE_MQTT_CONNECT_SENT" "c_connect_sent c' \<noteq> 0"
      "rx_bytes c' = rx_bytes c @ take m (inq w)" "seen w' = seen w" "outq w' @ tx_bytes c' = outq w @ tx_bytes c"
  | m k ms e where "m \<le> length (inq w)" "inq w' = drop m (inq w)" "c_state c' = AEMLIB_STATE_MQTT_CONNECTED"
      "connack_verdict (unat (c_rx_buffer_size c)) (rx_bytes c @ take m (inq w)) = CV_Accept k"
      "drain (unat (c_rx_buffer_size c)) (drop k (rx_bytes c @ take m (inq w))) = (ms, rx_bytes c', AEMLIB_STATUS_OK)"
      "seen w' = seen w @ (if c_on_message c = None then [] else ms)" "outq w' @ tx_bytes c' = outq w @ tx_bytes c @ e" "e \<in> {[], [0xC0, 0]}"
  using g r
proof (rule poll_parts)
  fix c1 w1 c2 w2
  assume f: "good c1 w1" "tx_frame c c1" "inq w1 = inq w" "seen w1 = seen w" "outq w1 @ tx_bytes c1 = outq w @ tx_bytes c"
    "core_poll_state c1 w1 = Some (AEMLIB_STATUS_OK, c2, w2)" "good c2 w2" "core_frame c1 c2" "outq w2 = outq w1" "seen w2 = seen w1"
    "poll_state c2 w2 = Some (AEMLIB_STATUS_OK, c', w')"
  have s1: "c_state c1 = AEMLIB_STATE_MQTT_CONNECT_SENT" "c_connect_sent c1 \<noteq> 0" "rx_bytes c1 = rx_bytes c" "c_rx_buffer_size c1 = c_rx_buffer_size c"
    "c_on_message c1 = c_on_message c" using f(2) s tx_frame_rx [OF f(2)] by (auto simp: tx_frame_def)
  have tx2: "tx_bytes c2 = tx_bytes c1" "c_connect_sent c2 \<noteq> 0" "c_rx_buffer_size c2 = c_rx_buffer_size c" "c_on_message c2 = c_on_message c"
    using f(8) s1 by (auto simp: core_frame_def tx_bytes_def)
  obtain m w0 where m: "m \<le> length (inq w)" "c_state c2 \<noteq> AEMLIB_STATE_DISCONNECTED \<longrightarrow> inq w2 = drop m (inq w)"
    and o: "connack_outcome (fst (now w0)) c1 (rx_bytes c @ take m (inq w)) AEMLIB_STATUS_OK c2"
    using connect_sent_ok [of c1 w1] good_parts [OF f(1)] f(3,6) s1 by (auto simp: core_poll_state_def)
  let ?A = "rx_bytes c @ take m (inq w)" and ?S = "unat (c_rx_buffer_size c)"
  show thesis
  proof (cases "connack_verdict ?S ?A")
    case CV_Wait
    then have "c_state c2 = AEMLIB_STATE_MQTT_CONNECT_SENT" "rx_bytes c2 = ?A" using o s1 by (auto simp: connack_outcome_def split: if_splits)
    moreover have "c' = c2" "w' = w2" using calculation f(11) tx2(2) by (auto simp: poll_state_def)
    ultimately show thesis using that(1) [OF m(1)] m(2) tx2 f(4,5,9,10) by simp
  next
    case (CV_Accept k)
    then have c2: "c_state c2 = AEMLIB_STATE_MQTT_CONNECTED" "rx_bytes c2 = drop k ?A" using o s1 by (auto simp: connack_outcome_def)
    note k = connack_accept_append [OF CV_Accept]
    obtain m2 ms where m2: "m2 \<le> length (inq w2)" "inq w' = drop m2 (inq w2)" "c_state c' = AEMLIB_STATE_MQTT_CONNECTED"
      "drain ?S (rx_bytes c2 @ take m2 (inq w2)) = (ms, rx_bytes c', AEMLIB_STATUS_OK)"
      "seen w' = seen w2 @ (if c_on_message c = None then [] else ms)"
      and e: "\<exists>e. outq w' @ tx_bytes c' = outq w2 @ tx_bytes c2 @ e \<and> poll_emission c2 c' e"
      using poll_connected_ok [OF f(7) c2(1)] f(11) tx2(3,4) by (auto simp: c2(1) poll_reception_def)
    have A: "rx_bytes c @ take (m + m2) (inq w) = ?A @ take m2 (inq w2)" using m c2(1) by (simp add: take_add)
    have "drop k (?A @ take m2 (inq w2)) = rx_bytes c2 @ take m2 (inq w2)" using k(2) c2(2) by simp
    moreover have x: "outq w2 @ tx_bytes c2 @ x = outq w @ tx_bytes c @ x" for x using f(5,9) tx2(1) by (metis append.assoc)
    obtain e where "outq w' @ tx_bytes c' = outq w @ tx_bytes c @ e" "e \<in> {[], [0xC0, 0]}"
      using e [unfolded x] m2(3) by (auto simp: poll_emission_def)
    ultimately show thesis
      using that(2) [of "m + m2" k ms e, unfolded A] k(1) m m2 c2(1) f(4,10) by (simp add: add.commute)
  qed (use o s1 in \<open>auto simp: connack_outcome_def connack_verdict_def split: fh_result.splits if_splits\<close>)
qed

end

section \<open>Sessions\<close>

text \<open>
  A session of a client whose connect request has been accepted: successful polls, packets of the application (handed
  over when the client is connected and has nothing staged), a disconnect request, and whatever the environment does to the world in
  between. \<open>Q\<close> are the packets that the calls of the application have reported as sent, \<open>B\<close> the bytes that
  the transport has taken over from the client, \<open>A\<close> the bytes that the client has taken over from the transport.
\<close>

definition outgoing :: "('w \<Rightarrow> byte list) \<Rightarrow> 'w \<Rightarrow> 'w \<Rightarrow> byte list" where
  "outgoing outq w w' = drop (length (outq w)) (outq w')"

definition incoming :: "('w \<Rightarrow> byte list) \<Rightarrow> 'w aemlib_client \<Rightarrow> 'w \<Rightarrow> 'w \<Rightarrow> byte list" where
  "incoming inq c w w' = (if c_state c \<in> {AEMLIB_STATE_MQTT_CONNECT_SENT, AEMLIB_STATE_MQTT_CONNECTED}
     then take (length (inq w) - length (inq w')) (inq w) else [])"

definition requested :: "aemlib_status_t \<Rightarrow> packet \<Rightarrow> packet list" where
  "requested st p = (if st = AEMLIB_STATUS_OK then [p] else [])"

inductive session ::
    "('w \<Rightarrow> bool) \<Rightarrow> ('w \<Rightarrow> byte list) \<Rightarrow> ('w \<Rightarrow> byte list) \<Rightarrow> ('w \<Rightarrow> message list) \<Rightarrow> 'w aemlib_client \<Rightarrow> 'w \<Rightarrow>
     packet list \<Rightarrow> byte list \<Rightarrow> byte list \<Rightarrow> 'w aemlib_client \<Rightarrow> 'w \<Rightarrow> bool"
  for inv inq outq seen c0 w0 where
  start: "session inv inq outq seen c0 w0 [] [] [] c0 w0"
| poll: "session inv inq outq seen c0 w0 Q B A c w \<Longrightarrow> aemlib_poll (Some c) w = Some (AEMLIB_STATUS_OK, Some c', w') \<Longrightarrow>
    session inv inq outq seen c0 w0 Q (B @ outgoing outq w w') (A @ incoming inq c w w') c' w'"
| publish: "session inv inq outq seen c0 w0 Q B A c w \<Longrightarrow> c_state c = AEMLIB_STATE_MQTT_CONNECTED \<Longrightarrow> c_tx_pending_len c = 0 \<Longrightarrow>
    publish_arg_ok (topic, payload, n) \<Longrightarrow> aemlib_publish (Some c) (cstring topic) payload n 0 w = Some (st, Some c', w') \<Longrightarrow>
    session inv inq outq seen c0 w0 (Q @ requested st (Publish topic (take (unat n) payload))) (B @ outgoing outq w w') A c' w'"
| subscribe: "session inv inq outq seen c0 w0 Q B A c w \<Longrightarrow> c_state c = AEMLIB_STATE_MQTT_CONNECTED \<Longrightarrow> c_tx_pending_len c = 0 \<Longrightarrow>
    topic_ok topic \<Longrightarrow> aemlib_subscribe (Some c) (cstring topic) 0 w = Some (st, Some c', w') \<Longrightarrow>
    session inv inq outq seen c0 w0 (Q @ requested st (Subscribe (c_packet_id c') topic)) (B @ outgoing outq w w') A c' w'"
| disconnect: "session inv inq outq seen c0 w0 Q B A c w \<Longrightarrow> aemlib_disconnect (Some c) = (st, Some c') \<Longrightarrow>
    session inv inq outq seen c0 w0 Q B A c' w"
| others: "session inv inq outq seen c0 w0 Q B A c w \<Longrightarrow> inv w' \<Longrightarrow> seen w' = seen w \<Longrightarrow> session inv inq outq seen c0 w0 Q B A c w'"

text \<open>
  The phase of the protocol that a state of the client stands for, and the refinement relation: the packets of the abstract session are
  the bytes sent and staged, its messages are those that the bytes received after the acceptance carry.
\<close>

definition in_phase :: "aemlib_state \<Rightarrow> phase \<Rightarrow> bool" where
  "in_phase s ph \<longleftrightarrow> (case s of AEMLIB_STATE_CONNECTING \<Rightarrow> ph = Fresh | AEMLIB_STATE_MQTT_CONNECT_SENT \<Rightarrow> ph = Requested
     | AEMLIB_STATE_MQTT_CONNECTED \<Rightarrow> ph = Established | AEMLIB_STATE_MQTT_DISCONNECTING \<Rightarrow> ph = Established | _ \<Rightarrow> True)"

definition session_abs ::
    "nat \<Rightarrow> uint16 \<Rightarrow> packet list \<Rightarrow> byte list \<Rightarrow> byte list \<Rightarrow> message list \<Rightarrow> session_event list \<Rightarrow> phase \<Rightarrow> bool" where
  "session_abs S k Q B A ms T ph \<longleftrightarrow> protocol_run Fresh T = Some ph \<and> B = concat (map packet_bytes (packets_of T))
     \<and> filter app_packet (packets_of T) = Q \<and> (\<forall>k'. Connect k' \<in> set (packets_of T) \<longrightarrow> k' = k) \<and> messages_of T = ms
     \<and> (ph = Established \<longrightarrow> (\<exists>a rest. connack_verdict S A = CV_Accept a \<and> drain S (drop a A) = (ms, rest, AEMLIB_STATUS_OK)))"

text \<open>What the client holds while the session goes on, beyond the abstract session.\<close>

definition session_rx :: "'w aemlib_client \<Rightarrow> nat \<Rightarrow> byte list \<Rightarrow> message list \<Rightarrow> bool" where
  "session_rx c S A ms \<longleftrightarrow> (case c_state c of
       AEMLIB_STATE_CONNECTING \<Rightarrow> A = [] \<and> rx_bytes c = [] \<and> c_connect_sent c = 0
     | AEMLIB_STATE_MQTT_CONNECT_SENT \<Rightarrow> rx_bytes c = A \<and> c_connect_sent c \<noteq> 0
     | AEMLIB_STATE_MQTT_CONNECTED \<Rightarrow> (\<exists>a. connack_verdict S A = CV_Accept a \<and> drain S (drop a A) = (ms, rx_bytes c, AEMLIB_STATUS_OK))
     | _ \<Rightarrow> True)"

text \<open>The moves of the abstract session.\<close>

lemma session_abs_start: "session_abs S k [] [] [] [] [] Fresh"
  by (simp add: session_abs_def)

lemma session_abs_connect:
  "session_abs S k Q B A ms T Fresh \<Longrightarrow> session_abs S k Q (B @ packet_bytes (Connect k)) A' ms (T @ [Sent (Connect k)]) Requested"
  by (auto simp: session_abs_def protocol_run_append)

lemma session_abs_requested: "session_abs S k Q B A ms T Requested \<Longrightarrow> ms = [] \<and> session_abs S k Q B A' ms T Requested"
  using protocol_shape [of T Requested] by (fastforce simp: session_abs_def)

lemma session_abs_accept:
  assumes "session_abs S k Q B A ms T Requested" "connack_verdict S A' = CV_Accept a" "drain S (drop a A') = (ms', rest, AEMLIB_STATUS_OK)"
  shows "session_abs S k Q B A' ms' (T @ Accepted # map Delivered ms') Established"
  using assms session_abs_requested [OF assms(1)] by (auto simp: session_abs_def protocol_run_append)

lemma session_abs_deliver:
  assumes "session_abs S k Q B A ms T Established" "connack_verdict S (A @ x) = CV_Accept a"
    "drain S (drop a (A @ x)) = (ms @ ms', rest, AEMLIB_STATUS_OK)"
  shows "session_abs S k Q B (A @ x) (ms @ ms') (T @ map Delivered ms') Established"
  using assms by (auto simp: session_abs_def protocol_run_append)

lemma session_abs_send:
  assumes "session_abs S k Q B A ms T Established" "\<And>k. p \<noteq> Connect k"
  shows "session_abs S k (Q @ (if app_packet p then [p] else [])) (B @ packet_bytes p) A ms (T @ [Sent p]) Established"
proof -
  have "protocol_step Established (Sent p) = Some Established" using assms(2) by (cases p) auto
  then show ?thesis using assms by (auto simp: session_abs_def protocol_run_append)
qed

lemma to_pcall_iff: "Some (st, Some c, w) = to_pcall r \<longleftrightarrow> r = Some (st, c, w)"
  by (cases r) (auto simp: to_pcall_def)

lemma session_rx_id [simp]: "session_rx (c\<lparr>c_packet_id := pid\<rparr>) S A ms = session_rx c S A ms"
  by (simp add: session_rx_def rx_bytes_def split: aemlib_state.split)

context platform
begin

lemma outgoing_stream:
  assumes "\<exists>d. outq w' = outq w @ d" "outq w' @ tx_bytes c' = outq w @ tx_bytes c @ e"
  shows "(B @ outgoing outq w w') @ tx_bytes c' = (B @ tx_bytes c) @ e"
  using assms by (auto simp: outgoing_def)

definition refines ::
    "'w aemlib_client \<Rightarrow> 'w \<Rightarrow> packet list \<Rightarrow> byte list \<Rightarrow> byte list \<Rightarrow> 'w aemlib_client \<Rightarrow> 'w \<Rightarrow> bool" where
  "refines c0 w0 Q B A c w \<longleftrightarrow> good c w \<and> same_config c0 c \<and> (\<exists>ms T ph. seen w = seen w0 @ ms
     \<and> session_abs (unat (c_rx_buffer_size c0)) (keepalive_sec c0) Q (B @ tx_bytes c) A ms T ph \<and> in_phase (c_state c) ph
     \<and> session_rx c (unat (c_rx_buffer_size c0)) A ms)"

text \<open>The poll, by the state of the client.\<close>

lemma refines_poll_connecting:
  assumes s: "c_state c = AEMLIB_STATE_CONNECTING" and R: "refines c0 w0 Q B A c w"
    and r: "aemlib_poll (Some c) w = Some (AEMLIB_STATUS_OK, Some c', w')"
  shows "refines c0 w0 Q (B @ outgoing outq w w') (A @ incoming inq c w w') c' w'"
proof -
  let ?S = "unat (c_rx_buffer_size c0)" and ?k = "keepalive_sec c0"
  from R obtain ms T where R: "good c w" "same_config c0 c" "seen w = seen w0 @ ms" "session_abs ?S ?k Q (B @ tx_bytes c) A ms T Fresh"
    "A = []" "rx_bytes c = []" "c_connect_sent c = 0"
    using s by (auto simp: refines_def in_phase_def session_rx_def)
  have k: "keepalive_sec c = ?k" using R(2) by (simp add: same_config_def keepalive_sec_def)
  have res: "poll_result c w AEMLIB_STATUS_OK c' w'" using poll_ok [OF R(1)] r by auto
  then obtain e where e: "outq w' @ tx_bytes c' = outq w @ tx_bytes c @ e" "poll_emission c c' e"
    by (auto simp: poll_result_def)
  have n: "good c' w'" "same_config c0 c'" "c_state c' \<noteq> AEMLIB_STATE_MQTT_CONNECTED"
    "c_state c' \<in> {AEMLIB_STATE_CONNECTING, AEMLIB_STATE_MQTT_CONNECT_SENT, AEMLIB_STATE_DISCONNECTED}" "seen w' = seen w"
    using res s same_config_trans [OF R(2)] by (auto simp: poll_result_def)
  have A: "A @ incoming inq c w w' = []" using R(5) s by (simp add: incoming_def)
  have B: "(B @ outgoing outq w w') @ tx_bytes c' = (B @ tx_bytes c) @ e" by (rule outgoing_stream [OF poll_grows [OF R(1) r] e(1)])
  note c' = poll_connecting [OF R(1) s r]
  show ?thesis
  proof (cases "c_state c' = AEMLIB_STATE_MQTT_CONNECT_SENT")
    case True
    then have "e = packet_bytes (Connect ?k)" using c' e(2) R(7) k by (auto simp: poll_emission_def)
    then show ?thesis
      using session_abs_connect [OF R(4)] True c' n R(3,6) unfolding refines_def A B
      by (auto simp: in_phase_def session_rx_def)
  next
    case False
    then have "e = []" "c_connect_sent c' = 0" using e(2) n(3) R(7) by (auto simp: poll_emission_def)
    then show ?thesis
      using R c' n False unfolding refines_def A B by (auto simp: in_phase_def session_rx_def intro!: exI)
  qed
qed

text \<open>At the end of a poll of a connected client a PINGREQ may follow.\<close>

lemma session_abs_ping:
  assumes "session_abs S k Q B A ms T Established" "e \<in> {[], [0xC0, 0]}"
  shows "\<exists>T. session_abs S k Q (B @ e) A ms T Established"
  using assms session_abs_send [OF assms(1), of Pingreq] by auto

lemma refines_poll_waiting:
  assumes s: "c_state c = AEMLIB_STATE_MQTT_CONNECT_SENT" and R: "refines c0 w0 Q B A c w" and m0: "c_on_message c0 = Some deliver"
    and r: "aemlib_poll (Some c) w = Some (AEMLIB_STATUS_OK, Some c', w')"
  shows "refines c0 w0 Q (B @ outgoing outq w w') (A @ incoming inq c w w') c' w'"
proof -
  let ?S = "unat (c_rx_buffer_size c0)" and ?k = "keepalive_sec c0"
  from R obtain ms T where R: "good c w" "same_config c0 c" "seen w = seen w0 @ ms" "session_abs ?S ?k Q (B @ tx_bytes c) A ms T Requested"
    "rx_bytes c = A" "c_connect_sent c \<noteq> 0"
    using s by (auto simp: refines_def in_phase_def session_rx_def)
  have cfg: "c_rx_buffer_size c = c_rx_buffer_size c0" "c_on_message c = Some deliver" using R(2) m0 by (simp_all add: same_config_def)
  have res: "good c' w'" "same_config c0 c'" using poll_ok [OF R(1)] r same_config_trans [OF R(2)] by (auto simp: poll_result_def)
  have taken: "A @ incoming inq c w w' = A @ take m (inq w)" if "m \<le> length (inq w)" "inq w' = drop m (inq w)" for m
    using that s by (simp add: incoming_def)
  note stream = outgoing_stream [OF poll_grows [OF R(1) r]] and req = session_abs_requested [OF R(4)]
  from R(1) s R(6) r show ?thesis
  proof (cases rule: poll_waiting)
    case (1 m)
    then have B: "(B @ outgoing outq w w') @ tx_bytes c' = B @ tx_bytes c" using stream [where e = "[]"] by simp
    show ?thesis using req R(3,5) res 1 unfolding refines_def taken [OF 1(1,2)] B by (auto simp: in_phase_def session_rx_def)
  next
    case (2 m a ms' e)
    let ?A = "A @ take m (inq w)"
    have B: "(B @ outgoing outq w w') @ tx_bytes c' = (B @ tx_bytes c) @ e" by (rule stream [OF 2(7)])
    have d: "connack_verdict ?S ?A = CV_Accept a" "drain ?S (drop a ?A) = (ms', rx_bytes c', AEMLIB_STATUS_OK)" "seen w' = seen w0 @ ms'"
      using 2(4-6) R(3,5) req cfg by simp_all
    obtain T' where "session_abs ?S ?k Q ((B @ tx_bytes c) @ e) ?A ms' T' Established"
      using session_abs_ping [OF session_abs_accept [OF R(4) d(1,2)] 2(8)] by blast
    then show ?thesis using res 2(3) d unfolding refines_def taken [OF 2(1,2)] B by (auto simp: in_phase_def session_rx_def)
  qed
qed

lemma refines_poll_connected:
  assumes s: "c_state c = AEMLIB_STATE_MQTT_CONNECTED" and R: "refines c0 w0 Q B A c w" and m0: "c_on_message c0 = Some deliver"
    and r: "aemlib_poll (Some c) w = Some (AEMLIB_STATUS_OK, Some c', w')"
  shows "refines c0 w0 Q (B @ outgoing outq w w') (A @ incoming inq c w w') c' w'"
proof -
  let ?S = "unat (c_rx_buffer_size c0)" and ?k = "keepalive_sec c0"
  from R obtain ms T a where R: "good c w" "same_config c0 c" "seen w = seen w0 @ ms" "session_abs ?S ?k Q (B @ tx_bytes c) A ms T Established"
    "connack_verdict ?S A = CV_Accept a" "drain ?S (drop a A) = (ms, rx_bytes c, AEMLIB_STATUS_OK)"
    using s by (auto simp: refines_def in_phase_def session_rx_def)
  have cfg: "c_rx_buffer_size c = c_rx_buffer_size c0" "c_on_message c = Some deliver" using R(2) m0 by (simp_all add: same_config_def)
  have res: "poll_result c w AEMLIB_STATUS_OK c' w'" using poll_ok [OF R(1)] r by auto
  then have n: "good c' w'" "same_config c0 c'" "c_state c' = AEMLIB_STATE_MQTT_CONNECTED"
    using s same_config_trans [OF R(2)] by (auto simp: poll_result_def)
  obtain e where e: "outq w' @ tx_bytes c' = outq w @ tx_bytes c @ e" "e \<in> {[], [0xC0, 0]}"
    using res n(3) by (auto simp: poll_result_def poll_emission_def)
  obtain m ms' where m: "m \<le> length (inq w)" "inq w' = drop m (inq w)"
    "drain ?S (rx_bytes c @ take m (inq w)) = (ms', rx_bytes c', AEMLIB_STATUS_OK)" "seen w' = seen w @ ms'"
    using res s cfg by (auto simp: poll_result_def poll_reception_def)
  have A: "A @ incoming inq c w w' = A @ take m (inq w)" using m s by (simp add: incoming_def)
  have B: "(B @ outgoing outq w w') @ tx_bytes c' = (B @ tx_bytes c) @ e" by (rule outgoing_stream [OF poll_grows [OF R(1) r] e(1)])
  note acc = connack_accept_append [OF R(5)]
  have d: "drain ?S (drop a (A @ take m (inq w))) = (ms @ ms', rx_bytes c', AEMLIB_STATUS_OK)"
    using drain_append [OF R(6)] m(3) acc(2) by simp
  obtain T' where "session_abs ?S ?k Q ((B @ tx_bytes c) @ e) (A @ take m (inq w)) (ms @ ms') T' Established"
    using session_abs_ping [OF session_abs_deliver [OF R(4) acc(1) d] e(2)] by blast
  then show ?thesis using n acc(1) d m(4) R(3) unfolding refines_def A B by (auto simp: in_phase_def session_rx_def)
qed

lemma refines_poll_closed:
  assumes s: "c_state c \<in> {AEMLIB_STATE_DISCONNECTED, AEMLIB_STATE_MQTT_DISCONNECTING}" and R: "refines c0 w0 Q B A c w"
    and r: "aemlib_poll (Some c) w = Some (AEMLIB_STATUS_OK, Some c', w')"
  shows "refines c0 w0 Q (B @ outgoing outq w w') (A @ incoming inq c w w') c' w'"
proof -
  have g: "good c w" "same_config c0 c" using R by (auto simp: refines_def)
  have res: "poll_result c w AEMLIB_STATUS_OK c' w'" using poll_ok [OF g(1)] r by auto
  then have n: "good c' w'" "same_config c0 c'" "c_state c' = AEMLIB_STATE_DISCONNECTED" "seen w' = seen w"
    using s same_config_trans [OF g(2)] by (auto simp: poll_result_def)
  have A: "A @ incoming inq c w w' = A" using s by (auto simp: incoming_def)
  have "outq w' @ tx_bytes c' = outq w @ tx_bytes c @ []" using res n(3) by (auto simp: poll_result_def poll_emission_def)
  then have B: "(B @ outgoing outq w w') @ tx_bytes c' = B @ tx_bytes c" using outgoing_stream [OF poll_grows [OF g(1) r]] by fastforce
  show ?thesis using R n unfolding refines_def A B by (auto simp: in_phase_def session_rx_def)
qed

text \<open>A packet of the application.\<close>

lemma refines_send:
  assumes R: "refines c0 w0 Q B A c w" and s: "c_state c = AEMLIB_STATE_MQTT_CONNECTED" "c_tx_pending_len c = 0"
    and o: "sends fits (packet_bytes p) c w (Some (st, c', w'))" and p: "app_packet p"
  shows "refines c0 w0 (Q @ requested st p) (B @ outgoing outq w w') A c' w'"
proof -
  let ?S = "unat (c_rx_buffer_size c0)" and ?k = "keepalive_sec c0"
  from R obtain ms T a where R: "good c w" "same_config c0 c" "seen w = seen w0 @ ms" "session_abs ?S ?k Q (B @ tx_bytes c) A ms T Established"
    "connack_verdict ?S A = CV_Accept a" "drain ?S (drop a A) = (ms, rx_bytes c, AEMLIB_STATUS_OK)"
    using s by (auto simp: refines_def in_phase_def session_rx_def)
  from o have t: "tx_frame c c'" "wf_tx c'" "inv w'" "seen w' = seen w" by (auto simp: sends_def)
  have n: "good c' w'" "same_config c0 c'" "c_state c' = AEMLIB_STATE_MQTT_CONNECTED" "rx_bytes c' = rx_bytes c"
    using good_tx [OF R(1) t(1-3)] same_config_trans [OF R(2) same_config_frame(1) [OF t(1)]] t(1) s tx_frame_rx [OF t(1)]
    by (auto simp: tx_frame_def)
  have "outq w' @ tx_bytes c' = outq w @ tx_bytes c @ (if st = AEMLIB_STATUS_OK then packet_bytes p else [])"
    using o s(2) by (auto simp: sends_def send_outcome_def tx_bytes_def split: if_splits)
  then have B: "(B @ outgoing outq w w') @ tx_bytes c' = (B @ tx_bytes c) @ (if st = AEMLIB_STATUS_OK then packet_bytes p else [])"
    by (rule outgoing_stream [OF sends_grow [OF o]])
  have "\<exists>T. session_abs ?S ?k (Q @ requested st p) ((B @ tx_bytes c) @ (if st = AEMLIB_STATUS_OK then packet_bytes p else [])) A ms T Established"
    using session_abs_send [OF R(4) app_not_connect [OF p]] R(4) p by (auto simp: requested_def)
  then show ?thesis using n R t(4) unfolding refines_def B by (auto simp: in_phase_def session_rx_def)
qed

lemma refines_publish:
  assumes R: "refines c0 w0 Q B A c w" and s: "c_state c = AEMLIB_STATE_MQTT_CONNECTED" "c_tx_pending_len c = 0"
    and a: "publish_arg_ok (topic, payload, n)" and r: "aemlib_publish (Some c) (cstring topic) payload n 0 w = Some (st, Some c', w')"
  shows "refines c0 w0 (Q @ requested st (Publish topic (take (unat n) payload))) (B @ outgoing outq w w') A c' w'"
proof -
  have g: "good c w" using R by (simp add: refines_def)
  obtain fits where "sends fits (publish_packet (topic, take (unat n) payload)) c w (Some (st, c', w'))"
    using publish_ok [OF _ _ _ a, of c w] good_parts [OF g] r by (auto simp: to_pcall_iff)
  then show ?thesis using refines_send [OF R s, of fits "Publish topic (take (unat n) payload)"] by simp
qed

lemma refines_subscribe:
  assumes R: "refines c0 w0 Q B A c w" and s: "c_state c = AEMLIB_STATE_MQTT_CONNECTED" "c_tx_pending_len c = 0"
    and a: "topic_ok topic" and r: "aemlib_subscribe (Some c) (cstring topic) 0 w = Some (st, Some c', w')"
  shows "refines c0 w0 (Q @ requested st (Subscribe (c_packet_id c') topic)) (B @ outgoing outq w w') A c' w'"
proof -
  have g: "good c w" using R by (simp add: refines_def)
  obtain pid where pid: "aemlib_core_next_packet_id (Some c) = (pid, Some (c\<lparr>c_packet_id := pid\<rparr>))" "pid \<noteq> 0"
    using next_packet_id_ok by metis
  let ?c = "c\<lparr>c_packet_id := pid\<rparr>"
  obtain fits where o: "sends fits (subscribe_packet (pid, topic)) ?c w (Some (st, c', w'))"
    using subscribe_ok [OF _ _ _ a, of c w] good_parts [OF g] r pid(1) by (auto simp: to_pcall_iff)
  then have "c_packet_id c' = pid" by (auto simp: sends_def tx_frame_def)
  moreover have "good ?c w" using g pid(2) by (simp add: good_def wf_client_def wf_rx_def wf_tx_def runs_on_def)
  then have "refines c0 w0 Q B A ?c w" using R by (simp add: refines_def same_config_def tx_bytes_def)
  ultimately show ?thesis using refines_send [of c0 w0 Q B A ?c w fits "Subscribe pid topic"] s o by simp
qed

lemma refines_disconnect:
  assumes R: "refines c0 w0 Q B A c w" and r: "aemlib_disconnect (Some c) = (st, Some c')"
  shows "refines c0 w0 Q B A c' w"
proof (cases "c_state c = AEMLIB_STATE_MQTT_CONNECTED")
  case True
  then have "c' = c\<lparr>c_state := AEMLIB_STATE_MQTT_DISCONNECTING\<rparr>" using r by (auto simp: aemlib_disconnect_def aemlib_core_disconnect_def)
  then show ?thesis
    using R True good_request(2) [of c w, OF _ r]
    by (auto simp: refines_def same_config_def session_rx_def in_phase_def tx_bytes_def)
next
  case False
  then have "c' = c" using r by (auto simp: aemlib_disconnect_def aemlib_core_disconnect_def)
  then show ?thesis using R by simp
qed

text \<open>Every session of a client refines a session of the protocol.\<close>

lemma session_refines:
  assumes "session inv inq outq seen c0 w0 Q B A c w" "good c0 w0" "c_state c0 = AEMLIB_STATE_CONNECTING" "c_connect_sent c0 = 0"
    and "rx_bytes c0 = []" "tx_bytes c0 = []" and m: "c_on_message c0 = Some deliver"
  shows "refines c0 w0 Q B A c w"
  using assms(1)
proof (induction rule: session.induct)
  case start
  show ?case
    using assms(2-6) session_abs_start by (fastforce simp: refines_def in_phase_def session_rx_def)
next
  case (poll Q B A c w c' w')
  have "wf_state (c_state c)" using poll.IH by (simp add: refines_def good_def wf_client_def)
  then show ?case
    using poll.hyps(2) poll.IH m
    by (cases "c_state c") (simp_all add: refines_poll_connecting refines_poll_waiting refines_poll_connected refines_poll_closed)
next
  case (others Q B A c w w')
  then show ?case by (auto simp: refines_def good_def)
qed (blast intro: refines_publish refines_subscribe refines_disconnect)+

end

end
