(* ===== verification/Aem_Handshake.thy ===== *)
theory Aem_Handshake
  imports Aem_Link Aem_Protocol
begin

text \<open>
  Progress: over a transport that does not fail while it is up and hands over what has arrived, a connection attempt that the
  broker answers ends, and ends well unless the time limit of the code has passed. The locale \<^verbatim>\<open>lively\<close> adds these promises to those of
  \<^verbatim>\<open>linked\<close>; the in-memory transport keeps them.
\<close>

lemma connack_prefix:
  assumes "connack_verdict S (A @ B) = CV_Accept k"
  shows "connack_verdict S A = CV_Wait \<or> connack_verdict S A = CV_Accept k"
proof (cases "fh_parse A = FH_Incomplete")
  case False
  from fh_parse_append [OF this, of B] assms show ?thesis
    by (auto simp: connack_verdict_def nth_append split: fh_result.splits if_splits)
qed (simp add: connack_verdict_def)

text \<open>Polling a number of times, up to the first poll that does not succeed.\<close>

fun polls :: "nat \<Rightarrow> 'w aemlib_client \<Rightarrow> 'w \<Rightarrow> 'w call" where
  "polls 0 c w = Some (AEMLIB_STATUS_OK, c, w)"
| "polls (Suc n) c w = do {
     (status, client, w) \<leftarrow> aemlib_poll (Some c) w;
     c \<leftarrow> client;
     if status \<noteq> AEMLIB_STATUS_OK then Some (status, c, w) else polls n c w
   }"

text \<open>The end of the wait for a CONNACK: the client is connected, or its time is up.\<close>

definition wait_over :: "('w \<Rightarrow> bool) \<Rightarrow> ('w \<Rightarrow> uint64 \<times> 'w) \<Rightarrow> 'w aemlib_client \<Rightarrow> aemlib_status_t \<Rightarrow> 'w aemlib_client \<Rightarrow> bool" where
  "wait_over winv now c st c' \<longleftrightarrow> c_state c' = AEMLIB_STATE_MQTT_CONNECTED
     \<or> c_state c' = AEMLIB_STATE_DISCONNECTED \<and> st = AEMLIB_STATUS AEMLIB_LAYER_GENERAL AEMLIB_CODE_TIMEOUT
       \<and> (\<exists>w. winv w \<and> fst (now w) - c_last_activity_ms c \<ge> 5000)"

locale lively = linked conn disc rd wr inv inq outq now deliver seen idle up
  for conn :: "'w \<Rightarrow> (aemlib_status_t \<times> 'w) option" and disc and rd and wr and inv and inq and outq
    and now and deliver and seen and idle and up +
  assumes wr_up: "inv w \<Longrightarrow> up w \<Longrightarrow> unat len \<le> length data \<Longrightarrow> length data < 2 ^ 63 \<Longrightarrow> wr w data len n0 = Some (st, n, w') \<Longrightarrow>
      st = AEMLIB_STATUS_OK \<or> would_block st"
    and rd_up: "inv w \<Longrightarrow> up w \<Longrightarrow> unat len \<le> length buf \<Longrightarrow> length buf < 2 ^ 63 \<Longrightarrow> rd w buf len n0 = Some (st, buf', n, w') \<Longrightarrow>
      (st = AEMLIB_STATUS_OK \<or> would_block st) \<and> (inq w \<noteq> [] \<and> 0 < unat len \<longrightarrow> st = AEMLIB_STATUS_OK \<and> 0 < unat n)"
begin

text \<open>Nothing fails on the way out.\<close>

lemma flush_up:
  assumes g: "good c w" and up: "up w" and r: "client_flush_pending c w = Some (st, c', w')"
  shows "st = AEMLIB_STATUS_OK"
proof -
  note p = good_parts [OF g]
  obtain tx where tx: "c_tx_buffer c = Some tx" "unat (c_tx_pending_len c) \<le> length tx" "length tx < 2 ^ 63"
    using p by (auto simp: wf_tx_def)
  show ?thesis
    using r tx wr_up [OF _ up tx(2,3)] p
    by (auto simp: client_flush_pending_def bind_Some_iff Let_def on_platform_wrappers split: if_splits)
qed

lemma sends_up:
  assumes "sends True pkt c w (Some (st, c', w'))" "c_tx_pending_len c = 0" "inv w" "up w"
  shows "st = AEMLIB_STATUS_OK"
proof (rule ccontr)
  assume st: "st \<noteq> AEMLIB_STATUS_OK"
  then have "wr_failed w st w'" "\<not> would_block st" using assms(1,2) by (auto simp: sends_def send_outcome_def)
  then show False using wr_up [OF assms(3,4)] st unfolding wr_failed_def by blast
qed

text \<open>A read takes at least one byte if there is one.\<close>

lemma rx_read_up:
  assumes g: "good c w" and up: "up w" and r: "rx_read c w = Some (st, n, c', w')"
  shows "(st = AEMLIB_STATUS_OK \<or> would_block st)
    \<and> (inq w \<noteq> [] \<and> length (rx_bytes c) < unat (c_rx_buffer_size c) \<longrightarrow> st = AEMLIB_STATUS_OK \<and> 0 < unat n)"
proof -
  note p = good_parts [OF g]
  obtain rx where rx: "c_rx_buffer c = Some rx" "unat (c_rx_buffer_size c) \<le> length rx" "length rx < 2 ^ 63"
    "unat (c_rx_len c) \<le> unat (c_rx_buffer_size c)" using p by (auto simp: wf_rx_def)
  have room: "unat (c_rx_buffer_size c - c_rx_len c) = unat (c_rx_buffer_size c) - unat (c_rx_len c)"
    using rx(4) by (simp add: unat_diff_size)
  have "length (rx_bytes c) = unat (c_rx_len c)" using length_rx_bytes p by blast
  moreover obtain buf' where "rd w (drop (unat (c_rx_len c)) rx) (c_rx_buffer_size c - c_rx_len c) 0 = Some (st, buf', n, w')"
    using r rx p by (auto simp: rx_read_def mem_from_def bind_Some_iff on_platform_wrappers split: if_splits)
  ultimately show ?thesis using rd_up [of w "c_rx_buffer_size c - c_rx_len c" "drop (unat (c_rx_len c)) rx"] p up rx room by force
qed

lemma connect_sent_up:
  assumes g: "good c w" and up: "up w" and r: "handle_state_mqtt_connect_sent c w = Some (st, c', w')"
  shows "\<exists>m w1. m \<le> length (inq w) \<and> (inq w \<noteq> [] \<and> length (rx_bytes c) < unat (c_rx_buffer_size c) \<longrightarrow> 0 < m)
    \<and> (c_state c' \<noteq> AEMLIB_STATE_DISCONNECTED \<longrightarrow> inq w' = drop m (inq w))
    \<and> inv w1 \<and> connack_outcome (fst (now w1)) c (rx_bytes c @ take m (inq w)) st c'"
proof -
  have p: "wf_rx c" "on_platform c" "inv w" using good_parts [OF g] by simp_all
  obtain st0 n rx w1 where 1: "rx_read c w = Some (st0, n, c\<lparr>c_rx_buffer := Some rx\<rparr>, w1)" "inv w1" "wf_rx (c\<lparr>c_rx_buffer := Some rx\<rparr>)"
      "rx_bytes (c\<lparr>c_rx_buffer := Some rx\<rparr>) = rx_bytes c" "st0 \<noteq> AEMLIB_STATUS_OK \<longrightarrow> inq w1 = inq w"
    and yes: "st0 = AEMLIB_STATUS_OK \<longrightarrow> unat n \<le> length (inq w) \<and> inq w1 = drop (unat n) (inq w)
      \<and> wf_rx (c\<lparr>c_rx_buffer := Some rx, c_rx_len := c_rx_len c + n\<rparr>)
      \<and> rx_bytes (c\<lparr>c_rx_buffer := Some rx, c_rx_len := c_rx_len c + n\<rparr>) = rx_bytes c @ take (unat n) (inq w)"
    by (rule rx_read_ok [OF p]) (rule that; assumption)
  note up1 = rx_read_up [OF g up 1(1)]
  define l where "l = (if would_block st0 then c_rx_len c else c_rx_len c + n)"
  define m where "m = (if would_block st0 then 0 else unat n)"
  let ?c = "c\<lparr>c_rx_buffer := Some rx, c_rx_len := l\<rparr>"
  have on: "on_platform ?c" using p by (simp add: runs_on_def)
  have m: "m \<le> length (inq w)" "inq w1 = drop m (inq w)" "wf_rx ?c" "rx_bytes ?c = rx_bytes c @ take m (inq w)"
    "inq w \<noteq> [] \<and> length (rx_bytes c) < unat (c_rx_buffer_size c) \<longrightarrow> 0 < m"
    using up1 yes 1(3-5) by (auto simp: m_def l_def)
  have "connect_sent_process ?c w1 = Some (st, c', w')"
    using r 1(1) up1 by (auto simp: handle_state_mqtt_connect_sent_def l_def Let_def split: if_splits)
  then have "c_state c' \<noteq> AEMLIB_STATE_DISCONNECTED \<longrightarrow> inq w' = inq w1" "connack_outcome (fst (now w1)) c (rx_bytes c @ take m (inq w)) st c'"
    using connect_sent_process_ok [OF m(3) on 1(2)] m(4) by auto
  then show ?thesis using m 1(2) by auto
qed

text \<open>A client that waits for an answer that is on its way.\<close>

definition answered :: "nat \<Rightarrow> uint64 \<Rightarrow> byte list \<Rightarrow> 'w aemlib_client \<Rightarrow> 'w \<Rightarrow> bool" where
  "answered S t A c w \<longleftrightarrow> good c w \<and> up w \<and> c_state c = AEMLIB_STATE_MQTT_CONNECT_SENT \<and> c_connect_sent c \<noteq> 0
     \<and> unat (c_rx_buffer_size c) = S \<and> c_last_activity_ms c = t \<and> rx_bytes c @ inq w = A"

lemma answered_poll:
  assumes a: "answered S t A c w" and v: "connack_verdict S A = CV_Accept k" "length A \<le> S"
  shows "\<exists>st c' w'. aemlib_poll (Some c) w = Some (st, Some c', w')
    \<and> (wait_over inv now c st c' \<or> st = AEMLIB_STATUS_OK \<and> answered S t A c' w' \<and> length (inq w') < length (inq w))"
proof -
  have c: "good c w" "up w" "c_state c = AEMLIB_STATE_MQTT_CONNECT_SENT" "c_connect_sent c \<noteq> 0" "unat (c_rx_buffer_size c) = S"
    "c_last_activity_ms c = t" "rx_bytes c @ inq w = A" using a by (simp_all add: answered_def)
  obtain st1 c1 w1 where 1: "client_flush_pending c w = Some (st1, c1, w1)" "tx_frame c c1" "wf_tx c1" "inv w1" "inq w1 = inq w"
    using client_flush_ok [of c w] good_parts [OF c(1)] by blast
  have ok1: "st1 = AEMLIB_STATUS_OK" by (rule flush_up [OF c(1,2) 1(1)])
  have g1: "good c1 w1" by (rule good_tx [OF c(1) 1(2-4)])
  have f1: "c_state c1 = AEMLIB_STATE_MQTT_CONNECT_SENT" "c_connect_sent c1 \<noteq> 0" "unat (c_rx_buffer_size c1) = S" "c_last_activity_ms c1 = t"
    "rx_bytes c1 = rx_bytes c" using 1(2) c tx_frame_rx [OF 1(2)] by (auto simp: tx_frame_def)
  have up1: "up w1" using kept.client_flush_rel [OF _ 1(1)] good_parts [OF c(1)] c(2) by (auto simp: same_link_def)
  obtain st2 c2 w2 where 2: "handle_state_mqtt_connect_sent c1 w1 = Some (st2, c2, w2)" "core_frame c1 c2" "wf_client c2" "inv w2"
    using core_poll_ok [of c1 w1] good_parts [OF g1] f1(1) by (auto simp: core_poll_state_def)
  have g2: "good c2 w2" using 2 good_parts [OF g1] on_platform_frame [OF 2(2)] by (simp add: good_def)
  have f2: "c_connect_sent c2 \<noteq> 0" "unat (c_rx_buffer_size c2) = S" using 2(2) f1 by (auto simp: core_frame_def)
  obtain m w0 where m: "m \<le> length (inq w)" "inq w \<noteq> [] \<and> length (rx_bytes c) < S \<longrightarrow> 0 < m"
      "c_state c2 \<noteq> AEMLIB_STATE_DISCONNECTED \<longrightarrow> inq w2 = drop m (inq w)"
    and o: "inv w0" "connack_outcome (fst (now w0)) c1 (rx_bytes c @ take m (inq w)) st2 c2"
    using connect_sent_up [OF g1 up1 2(1)] f1(3,5) 1(5) by auto
  let ?P = "rx_bytes c @ take m (inq w)"
  have A: "?P @ drop m (inq w) = A" using c(7) by simp
  have poll: "aemlib_poll (Some c) w = (if st2 \<noteq> AEMLIB_STATUS_OK then Some (st2, Some c2, w2) else to_pcall (poll_state c2 w2))"
    using 1(1) ok1 2(1) f1(1) by (simp add: aemlib_poll_def aemlib_core_poll_def core_poll_state_def to_pcall_def)
  from connack_prefix [of S ?P "drop m (inq w)" k] v(1) consider (wait) "connack_verdict S ?P = CV_Wait" | (accept) "connack_verdict S ?P = CV_Accept k"
    unfolding A by blast
  then show ?thesis
  proof cases
    case accept
    then have "st2 = AEMLIB_STATUS_OK" "c_state c2 = AEMLIB_STATE_MQTT_CONNECTED" using o(2) f1(3) by (auto simp: connack_outcome_def)
    then show ?thesis using poll poll_state_ok [OF g2] by (fastforce simp: to_pcall_def wait_over_def)
  next
    case wait
    have "inq w \<noteq> []" using wait v(1) A by (cases "inq w") auto
    then have "0 < m" using m(2) c(7) v(2) by (auto simp: neq_Nil_conv)
    have rx2: "rx_bytes c2 = ?P" using wait o(2) f1(3) by (simp add: connack_outcome_def)
    consider (late) "st2 = AEMLIB_STATUS AEMLIB_LAYER_GENERAL AEMLIB_CODE_TIMEOUT" "c_state c2 = AEMLIB_STATE_DISCONNECTED"
        "fst (now w0) - t \<ge> 5000" | (on_time) "st2 = AEMLIB_STATUS_OK" "c_state c2 = AEMLIB_STATE_MQTT_CONNECT_SENT" "c_last_activity_ms c2 = t"
      using wait o(2) f1 by (auto simp: connack_outcome_def split: if_splits)
    then show ?thesis
    proof cases
      case late
      then show ?thesis using poll o(1) c(6) by (auto simp: wait_over_def)
    next
      case on_time
      have p: "aemlib_poll (Some c) w = Some (AEMLIB_STATUS_OK, Some c2, w2)"
        using poll on_time f2(1) by (simp add: to_pcall_def poll_state_def)
      have "up w2" using poll_link [OF c(1) _ p] c(2,3) on_time(2) by (simp add: link_ok_def)
      then show ?thesis
        using p g2 f2 on_time m A \<open>0 < m\<close> rx2 \<open>inq w \<noteq> []\<close> by (simp add: answered_def)
    qed
  qed
qed

lemma answered_polls:
  assumes "answered S t A c w" "connack_verdict S A = CV_Accept k" "length A \<le> S"
  shows "\<exists>n \<le> length (inq w) + 1. \<exists>st c' w'. polls n c w = Some (st, c', w') \<and> wait_over inv now c st c'"
  using assms(1)
proof (induction "length (inq w)" arbitrary: c w rule: less_induct)
  case less
  obtain st c1 w1 where p: "aemlib_poll (Some c) w = Some (st, Some c1, w1)"
    and o: "wait_over inv now c st c1 \<or> st = AEMLIB_STATUS_OK \<and> answered S t A c1 w1 \<and> length (inq w1) < length (inq w)"
    using answered_poll [OF less.prems assms(2,3)] by blast
  show ?case
  proof (cases "wait_over inv now c st c1")
    case True
    then have "polls 1 c w = Some (st, c1, w1)" using p by auto
    then show ?thesis using True by (intro exI [of _ 1]) auto
  next
    case False
    then have r: "st = AEMLIB_STATUS_OK" "answered S t A c1 w1" "length (inq w1) < length (inq w)" using o by auto
    obtain n st' c' w' where n: "n \<le> length (inq w1) + 1" "polls n c1 w1 = Some (st', c', w')" "wait_over inv now c1 st' c'"
      using less.hyps [OF r(3,2)] by blast
    have "c_last_activity_ms c1 = c_last_activity_ms c" using r(2) less.prems by (simp add: answered_def)
    then show ?thesis using n r p by (intro exI [of _ "Suc n"]) (auto simp: wait_over_def)
  qed
qed

text \<open>The poll that opens the transport, after an accepted connect request.\<close>

lemma opening_poll:
  assumes g: "good c w" and idle: "idle w" and s: "c_state c = AEMLIB_STATE_CONNECTING" "c_connect_sent c = 0" "c_tx_pending_len c = 0"
    and fits: "17 \<le> unat (c_tx_buffer_size c)" and opens: "conn w = Some (AEMLIB_STATUS_OK, w1)"
  shows "\<exists>c' w'. aemlib_poll (Some c) w = Some (AEMLIB_STATUS_OK, Some c', w') \<and> good c' w' \<and> up w' \<and> same_config c c'
    \<and> c_state c' = AEMLIB_STATE_MQTT_CONNECT_SENT \<and> c_connect_sent c' \<noteq> 0 \<and> rx_bytes c' = rx_bytes c
    \<and> outq w' @ tx_bytes c' = outq w @ connect_packet ([], keepalive_sec c)"
proof -
  note p = good_parts [OF g]
  obtain t w2 where t: "now w1 = (t, w2)" by (cases "now w1")
  have w1: "inv w1" "up w1" using conn_keeps [of w] p opens conn_link [OF idle opens] by auto
  have w2: "inv w2" "up w2" using now_ok [OF w1(1)] now_link [OF t] t w1(2) by (auto simp: same_link_def)
  let ?c = "c\<lparr>c_state := AEMLIB_STATE_MQTT_CONNECT_SENT, c_last_activity_ms := t\<rparr>"
  have c: "wf_tx ?c" "on_platform ?c" using p by (simp_all add: wf_tx_def runs_on_def)
  obtain st c3 w3 where r: "client_send_connect ?c w2 = Some (st, c3, w3)" "sends True (connect_packet ([], keepalive_sec ?c)) ?c w2 (Some (st, c3, w3))"
    using send_connect_ok [OF c w2(1)] fits by (auto simp: sends_def)
  have ok: "st = AEMLIB_STATUS_OK" by (rule sends_up [OF r(2) _ w2]) (simp add: s(3))
  have c3: "c_state c3 = AEMLIB_STATE_MQTT_CONNECT_SENT" using r(2) by (auto simp: sends_def tx_frame_def)
  have poll: "aemlib_poll (Some c) w = Some (AEMLIB_STATUS_OK, Some (c3\<lparr>c_connect_sent := 1\<rparr>), w3)"
    using s r(1) ok opens t p
    by (simp add: aemlib_poll_def client_flush_pending_def aemlib_core_poll_def core_poll_state_def handle_state_connecting_def on_platform_wrappers
        to_pcall_def poll_state_def)
  have res: "poll_result c w AEMLIB_STATUS_OK (c3\<lparr>c_connect_sent := 1\<rparr>) w3" using poll_ok [OF g] poll by auto
  moreover have "up w3" using poll_link [OF g _ poll] idle s(1) c3 by (simp add: link_ok_def)
  moreover have "tx_bytes c = []" using s(3) by (simp add: tx_bytes_def)
  ultimately show ?thesis
    using poll poll_connecting [OF g s(1) poll] c3 s(2) by (auto simp: poll_result_def poll_emission_def)
qed

end

end
