(* ===== verification/Aem_Virtual_Transport.thy ===== *)
theory Aem_Virtual_Transport
  imports Aem_Platform
begin

text \<open>
  The in-memory transport (\<^verbatim>\<open>platform/virtual_transport.h\<close>, \<^verbatim>\<open>platform/virtual_transport.c\<close>): a byte
  channel as a ring buffer over caller-provided storage, and endpoints that share a pair of channels.
  The ring buffer refines a bounded FIFO of bytes (locale \<^verbatim>\<open>byte_pipe\<close>), and an endpoint satisfies the
  transport contract of \<^verbatim>\<open>Aem_Platform\<close>.
\<close>

section \<open>Channels\<close>

record aemlib_virtual_channel =
  ch_buf :: mem
  ch_buf_size :: size_t
  ch_head :: size_t
  ch_len :: size_t

definition aemlib_virtual_channel_init ::
    "aemlib_virtual_channel \<Rightarrow> mem \<Rightarrow> size_t \<Rightarrow> aemlib_virtual_channel" where
  "aemlib_virtual_channel_init channel buf buf_size =
     channel\<lparr>ch_buf := buf, ch_buf_size := buf_size, ch_head := 0, ch_len := 0\<rparr>"

text \<open>The two for loops, from index \<open>i\<close> on.\<close>

function channel_write_loop :: "mem \<Rightarrow> size_t \<Rightarrow> size_t \<Rightarrow> mem \<Rightarrow> size_t \<Rightarrow> size_t \<Rightarrow> mem option" where
  "channel_write_loop buf buf_size tail data n i =
     (if i < n then do {
        d \<leftarrow> mem_read data (unat i);
        k \<leftarrow> size_mod (tail + i) buf_size;
        buf \<leftarrow> mem_write buf (unat k) d;
        channel_write_loop buf buf_size tail data n (i + 1)
      }
      else Some buf)"
  by pat_completeness auto
termination
  by (relation "measure (\<lambda>(buf, buf_size, tail, data, n, i). unat n - unat i)")
     (auto simp: unat_rules word_less_nat_alt)

function channel_read_loop :: "mem \<Rightarrow> mem \<Rightarrow> size_t \<Rightarrow> size_t \<Rightarrow> size_t \<Rightarrow> size_t \<Rightarrow> mem option" where
  "channel_read_loop buf ring buf_size head n i =
     (if i < n then do {
        k \<leftarrow> size_mod (head + i) buf_size;
        d \<leftarrow> mem_read ring (unat k);
        buf \<leftarrow> mem_write buf (unat i) d;
        channel_read_loop buf ring buf_size head n (i + 1)
      }
      else Some buf)"
  by pat_completeness auto
termination
  by (relation "measure (\<lambda>(buf, ring, buf_size, head, n, i). unat n - unat i)")
     (auto simp: unat_rules word_less_nat_alt)

declare channel_write_loop.simps [simp del] channel_read_loop.simps [simp del]

definition channel_write ::
    "aemlib_virtual_channel \<Rightarrow> mem \<Rightarrow> size_t \<Rightarrow> (aemlib_status_t \<times> aemlib_virtual_channel \<times> size_t) option" where
  "channel_write ch data len = do {
     let space = ch_buf_size ch - ch_len ch;
         n = (if len < space then len else space)
     in do {
       tail \<leftarrow> size_mod (ch_head ch + ch_len ch) (ch_buf_size ch);
       buf \<leftarrow> channel_write_loop (ch_buf ch) (ch_buf_size ch) tail data n 0;
       let ch = ch\<lparr>ch_buf := buf, ch_len := ch_len ch + n\<rparr>
       in Some (if n = 0 \<and> len > 0 then io_would_block else AEMLIB_STATUS_OK, ch, n)
     }
   }"

definition channel_read ::
    "aemlib_virtual_channel \<Rightarrow> mem \<Rightarrow> size_t \<Rightarrow> (aemlib_status_t \<times> aemlib_virtual_channel \<times> mem \<times> size_t) option" where
  "channel_read ch buf len = do {
     let n = (if len < ch_len ch then len else ch_len ch)
     in do {
       buf \<leftarrow> channel_read_loop buf (ch_buf ch) (ch_buf_size ch) (ch_head ch) n 0;
       head \<leftarrow> size_mod (ch_head ch + n) (ch_buf_size ch);
       Some (AEMLIB_STATUS_OK, ch\<lparr>ch_head := head, ch_len := ch_len ch - n\<rparr>, buf, n)
     }
   }"

section \<open>Endpoints\<close>

text \<open>Channels and endpoints are objects of a store; a pointer to one is its number.\<close>

record aemlib_virtual_transport =
  vt_tx :: nat
  vt_rx :: nat
  vt_connected :: byte

record vt_store =
  vs_channel :: "nat \<Rightarrow> aemlib_virtual_channel option"
  vs_endpoint :: "nat \<Rightarrow> aemlib_virtual_transport option"

definition aemlib_virtual_transport_pair_init ::
    "nat \<Rightarrow> nat \<Rightarrow> nat \<Rightarrow> nat \<Rightarrow> 'x vt_store_scheme \<Rightarrow> 'x vt_store_scheme option" where
  "aemlib_virtual_transport_pair_init a a_to_b b b_to_a w = do {
     va \<leftarrow> vs_endpoint w a;
     let w = w\<lparr>vs_endpoint := (vs_endpoint w)(a \<mapsto> va\<lparr>vt_tx := a_to_b, vt_rx := b_to_a, vt_connected := 0\<rparr>)\<rparr> in do {
     vb \<leftarrow> vs_endpoint w b;
     Some (w\<lparr>vs_endpoint := (vs_endpoint w)(b \<mapsto> vb\<lparr>vt_tx := b_to_a, vt_rx := a_to_b, vt_connected := 0\<rparr>)\<rparr>)
     }}"

definition vt_connect :: "nat \<Rightarrow> 'x vt_store_scheme \<Rightarrow> (aemlib_status_t \<times> 'x vt_store_scheme) option" where
  "vt_connect ctx w = do {
     vt \<leftarrow> vs_endpoint w ctx;
     Some (AEMLIB_STATUS_OK, w\<lparr>vs_endpoint := (vs_endpoint w)(ctx \<mapsto> vt\<lparr>vt_connected := 1\<rparr>)\<rparr>)
   }"

definition vt_disconnect :: "nat \<Rightarrow> 'x vt_store_scheme \<Rightarrow> (aemlib_status_t \<times> 'x vt_store_scheme) option" where
  "vt_disconnect ctx w = do {
     vt \<leftarrow> vs_endpoint w ctx;
     Some (AEMLIB_STATUS_OK, w\<lparr>vs_endpoint := (vs_endpoint w)(ctx \<mapsto> vt\<lparr>vt_connected := 0\<rparr>)\<rparr>)
   }"

definition vt_read ::
    "nat \<Rightarrow> 'x vt_store_scheme \<Rightarrow> mem \<Rightarrow> size_t \<Rightarrow> size_t \<Rightarrow> (aemlib_status_t \<times> mem \<times> size_t \<times> 'x vt_store_scheme) option" where
  "vt_read ctx w buf len out_len = do {
     vt \<leftarrow> vs_endpoint w ctx;
     if vt_connected vt = 0 then Some (io_closed, buf, out_len, w)
     else do {
       ch \<leftarrow> vs_channel w (vt_rx vt);
       (st, ch, buf, n) \<leftarrow> channel_read ch buf len;
       Some (st, buf, n, w\<lparr>vs_channel := (vs_channel w)(vt_rx vt \<mapsto> ch)\<rparr>)
     }
   }"

definition vt_write ::
    "nat \<Rightarrow> 'x vt_store_scheme \<Rightarrow> mem \<Rightarrow> size_t \<Rightarrow> size_t \<Rightarrow> (aemlib_status_t \<times> size_t \<times> 'x vt_store_scheme) option" where
  "vt_write ctx w buf len out_len = do {
     vt \<leftarrow> vs_endpoint w ctx;
     if vt_connected vt = 0 then Some (io_closed, out_len, w)
     else do {
       ch \<leftarrow> vs_channel w (vt_tx vt);
       (st, ch, n) \<leftarrow> channel_write ch buf len;
       Some (st, n, w\<lparr>vs_channel := (vs_channel w)(vt_tx vt \<mapsto> ch)\<rparr>)
     }
   }"

definition aemlib_virtual_transport_bind :: "nat \<Rightarrow> 'x vt_store_scheme aemlib_transport" where
  "aemlib_virtual_transport_bind vt =
     transport_of (vt_connect vt) (vt_disconnect vt) (vt_read vt) (vt_write vt)"

section \<open>The ring buffer is a FIFO\<close>

definition chan_inv :: "aemlib_virtual_channel \<Rightarrow> bool" where
  "chan_inv ch \<longleftrightarrow> 0 < unat (ch_buf_size ch) \<and> unat (ch_buf_size ch) \<le> length (ch_buf ch)
     \<and> length (ch_buf ch) < 2 ^ 63 \<and> unat (ch_head ch) < unat (ch_buf_size ch)
     \<and> unat (ch_len ch) \<le> unat (ch_buf_size ch)"

definition ring_at :: "mem \<Rightarrow> nat \<Rightarrow> nat \<Rightarrow> nat \<Rightarrow> byte" where
  "ring_at buf S start k = buf ! ((start + k) mod S)"

definition chan_bytes :: "aemlib_virtual_channel \<Rightarrow> byte list" where
  "chan_bytes ch = map (ring_at (ch_buf ch) (unat (ch_buf_size ch)) (unat (ch_head ch))) [0..<unat (ch_len ch)]"

lemma ring_index_inj_le:
  assumes "(t + k) mod S = (t + j) mod S" "k < S" "j \<le> (k :: nat)"
  shows "k = j"
proof -
  obtain q where "t + k = t + j + S * q"
    using mod_eq_nat1E [OF assms(1)] assms(3) by auto
  with assms(2) show ?thesis by (cases q) auto
qed

lemma ring_index_inj: "(t + k) mod S = (t + j) mod S \<Longrightarrow> k < S \<Longrightarrow> j < S \<Longrightarrow> k = (j :: nat)"
  by (metis nle_le ring_index_inj_le)

lemma size_mod_unat:
  assumes "0 < unat b" "unat a + unat c < 2 ^ 64"
  obtains k where "size_mod (a + c) b = Some k" "unat k = (unat a + unat c) mod unat b"
proof
  show "size_mod (a + c) b = Some ((a + c) mod b)" using assms(1) by (auto simp: size_mod_def)
  show "unat ((a + c) mod b) = (unat a + unat c) mod unat b"
    using assms(2) by (simp add: unat_mod unat_add_size)
qed

lemma channel_write_loop_spec:
  assumes S: "0 < unat S" "unat S \<le> length buf" "length buf < 2 ^ 63" "unat t < unat S"
    and n: "unat n \<le> unat S" "unat n \<le> length data" and i: "unat i \<le> unat n"
  shows "\<exists>buf'. channel_write_loop buf S t data n i = Some buf' \<and> length buf' = length buf
    \<and> (\<forall>k < unat S. ring_at buf' (unat S) (unat t) k =
          (if unat i \<le> k \<and> k < unat n then data ! k else ring_at buf (unat S) (unat t) k))"
  using assms
proof (induction "unat n - unat i" arbitrary: buf i)
  case 0
  then show ?case by (subst channel_write_loop.simps) (auto simp: word_less_nat_alt)
next
  case (Suc m)
  then have lt: "i < n" "unat i < length data" "unat (i + 1) = unat i + 1"
    using unat_inc_size [of i n] by (simp_all add: word_less_nat_alt)
  obtain k where k: "size_mod (t + i) S = Some k" "unat k = (unat t + unat i) mod unat S"
    by (rule size_mod_unat [of S t i]) (use Suc.prems in simp_all)
  have in_buf: "unat k < length buf" using k(2) S(1) Suc.prems(2) by (simp add: less_le_trans [OF mod_less_divisor])
  let ?buf = "buf[unat k := data ! unat i]"
  have unfold: "channel_write_loop buf S t data n i = channel_write_loop ?buf S t data n (i + 1)"
    using lt k in_buf by (subst channel_write_loop.simps) (simp add: c_mem)
  obtain buf' where IH: "channel_write_loop ?buf S t data n (i + 1) = Some buf'" "length buf' = length buf"
    "\<And>j. j < unat S \<Longrightarrow> ring_at buf' (unat S) (unat t) j =
          (if unat i + 1 \<le> j \<and> j < unat n then data ! j else ring_at ?buf (unat S) (unat t) j)"
  proof -
    have "m = unat n - unat (i + 1)" "unat (i + 1) \<le> unat n"
      using Suc.hyps(2) lt by (simp_all add: word_less_nat_alt)
    then show thesis
      using Suc.hyps(1) [of "i + 1" ?buf] Suc.prems lt(3) that by auto
  qed
  have "ring_at ?buf (unat S) (unat t) j = (if j = unat i then data ! unat i else ring_at buf (unat S) (unat t) j)"
    if "j < unat S" for j
  proof -
    have "unat i < unat S" using lt(1) n(1) by (simp add: word_less_nat_alt)
    then show ?thesis
      using that in_buf k(2) ring_index_inj [of "unat t" j "unat S" "unat i"]
      by (auto simp: ring_at_def nth_list_update)
  qed
  then have "ring_at buf' (unat S) (unat t) j = (if unat i \<le> j \<and> j < unat n then data ! j else ring_at buf (unat S) (unat t) j)"
    if "j < unat S" for j
    using that IH(3) [of j] lt by (auto simp: word_less_nat_alt)
  with unfold IH(1,2) show ?case by auto
qed

lemma channel_read_loop_spec:
  assumes S: "0 < unat S" "unat S \<le> length ring" "length ring < 2 ^ 63" "unat h < unat S"
    and n: "unat n \<le> unat S" "unat n \<le> length buf" and i: "unat i \<le> unat n"
  shows "channel_read_loop buf ring S h n i =
    Some (overwrite (unat i) (map (ring_at ring (unat S) (unat h)) [unat i..<unat n]) buf)"
  using assms
proof (induction "unat n - unat i" arbitrary: buf i)
  case 0
  then show ?case by (subst channel_read_loop.simps) (auto simp: word_less_nat_alt)
next
  case (Suc m)
  then have lt: "i < n" "unat i < length buf" "unat (i + 1) = unat i + 1"
    using unat_inc_size [of i n] by (simp_all add: word_less_nat_alt)
  obtain k where k: "size_mod (h + i) S = Some k" "unat k = (unat h + unat i) mod unat S"
    by (rule size_mod_unat [of S h i]) (use Suc.prems in simp_all)
  have in_ring: "unat k < length ring" using k(2) S by (simp add: less_le_trans [OF mod_less_divisor])
  let ?d = "ring_at ring (unat S) (unat h) (unat i)"
  have "channel_read_loop buf ring S h n i = channel_read_loop (buf[unat i := ?d]) ring S h n (i + 1)"
    using lt k in_ring by (subst channel_read_loop.simps) (simp add: c_mem ring_at_def)
  also have "\<dots> = Some (overwrite (Suc (unat i)) (map (ring_at ring (unat S) (unat h)) [Suc (unat i)..<unat n]) (buf[unat i := ?d]))"
    using Suc.hyps(1) [of "i + 1" "buf[unat i := ?d]"] Suc.hyps(2) Suc.prems lt by simp
  finally show ?case
    using lt by (simp add: overwrite_Cons upt_conv_Cons word_less_nat_alt)
qed

lemma chan_bytes_length [simp]: "length (chan_bytes ch) = unat (ch_len ch)"
  by (simp add: chan_bytes_def)

text \<open>A write appends to the byte queue as much as there is room for.\<close>

lemma ring_append:
  assumes "0 < S" "L \<le> S" and t: "t = (H + L) mod S" and n: "n \<le> S - L" "n \<le> length data"
    and upd: "\<And>k. k < S \<Longrightarrow> ring_at buf' S t k = (if k < n then data ! k else ring_at buf S t k)"
  shows "map (ring_at buf' S H) [0..<L + n] = map (ring_at buf S H) [0..<L] @ take n data"
proof (rule nth_equalityI)
  fix j assume "j < length (map (ring_at buf' S H) [0..<L + n])"
  then have j: "j < L + n" by simp
  have old: "ring_at b S H j = ring_at b S t (S - L + j)" if "j < L" for b
  proof -
    have "H + L + (S - L + j) = H + j + S" using assms(2) by simp
    then show ?thesis by (simp only: ring_at_def t mod_add_left_eq mod_add_self2)
  qed
  have new: "ring_at b S H j = ring_at b S t (j - L)" if "\<not> j < L" for b
  proof -
    have "H + L + (j - L) = H + j" using that by simp
    then show ?thesis by (simp only: ring_at_def t mod_add_left_eq)
  qed
  show "map (ring_at buf' S H) [0..<L + n] ! j = (map (ring_at buf S H) [0..<L] @ take n data) ! j"
    using j n assms(2) old new upd [of "S - L + j"] upd [of "j - L"] by (auto simp: nth_append)
qed (use n in simp)

lemma channel_write_spec:
  assumes inv: "chan_inv ch" and len: "unat len \<le> length data"
  shows "\<exists>ch' n. channel_write ch data len =
      Some (if n = 0 \<and> len > 0 then io_would_block else AEMLIB_STATUS_OK, ch', n)
    \<and> chan_inv ch' \<and> ch_buf_size ch' = ch_buf_size ch
    \<and> unat n = min (unat len) (unat (ch_buf_size ch) - length (chan_bytes ch))
    \<and> chan_bytes ch' = chan_bytes ch @ take (unat n) data"
proof -
  define n where "n = (if len < ch_buf_size ch - ch_len ch then len else ch_buf_size ch - ch_len ch)"
  let ?S = "unat (ch_buf_size ch)" and ?L = "unat (ch_len ch)" and ?H = "unat (ch_head ch)"
  note I = inv [unfolded chan_inv_def]
  have n: "unat n = min (unat len) (?S - ?L)"
    using I by (auto simp: n_def word_less_nat_alt unat_diff_size min_def)
  then have n_le: "unat n \<le> ?S - ?L" "unat n \<le> ?S" "unat n \<le> length data" using len by auto
  obtain t where t: "size_mod (ch_head ch + ch_len ch) (ch_buf_size ch) = Some t" "unat t = (?H + ?L) mod ?S"
    by (rule size_mod_unat [of "ch_buf_size ch" "ch_head ch" "ch_len ch"]) (use I in simp_all)
  then have "unat t < ?S" using I by simp
  then obtain buf where w: "channel_write_loop (ch_buf ch) (ch_buf_size ch) t data n 0 = Some buf" "length buf = length (ch_buf ch)"
    "\<And>k. k < ?S \<Longrightarrow> ring_at buf ?S (unat t) k = (if k < unat n then data ! k else ring_at (ch_buf ch) ?S (unat t) k)"
    using channel_write_loop_spec [of "ch_buf_size ch" "ch_buf ch" t n data 0] I n_le by auto
  have sum: "unat (ch_len ch + n) = ?L + unat n" using I n_le by (intro unat_add_size) simp
  define ch' where "ch' = ch\<lparr>ch_buf := buf, ch_len := ch_len ch + n\<rparr>"
  have "chan_bytes ch' = chan_bytes ch @ take (unat n) data"
    using ring_append [OF _ _ t(2) n_le(1,3) w(3)] I sum by (simp add: chan_bytes_def ch'_def)
  moreover have "chan_inv ch'" using I n_le sum w(2) by (auto simp: chan_inv_def ch'_def)
  moreover have "channel_write ch data len = Some (if n = 0 \<and> len > 0 then io_would_block else AEMLIB_STATUS_OK, ch', n)"
    using t(1) w(1) by (simp add: channel_write_def n_def [symmetric] ch'_def Let_def)
  ultimately show ?thesis using n by (auto simp: ch'_def)
qed

text \<open>A read takes bytes from the front of the byte queue.\<close>

lemma ring_advance:
  assumes "h' = (H + n) mod S" "n \<le> L"
  shows "map (ring_at buf S h') [0..<L - n] = drop n (map (ring_at buf S H) [0..<L])"
  using assms by (intro nth_equalityI) (auto simp: ring_at_def mod_simps ac_simps)

lemma channel_read_spec:
  assumes inv: "chan_inv ch" and len: "unat len \<le> length buf"
  shows "\<exists>ch' n. channel_read ch buf len = Some (AEMLIB_STATUS_OK, ch', overwrite 0 (take (unat n) (chan_bytes ch)) buf, n)
    \<and> chan_inv ch' \<and> ch_buf_size ch' = ch_buf_size ch
    \<and> unat n = min (unat len) (length (chan_bytes ch)) \<and> chan_bytes ch' = drop (unat n) (chan_bytes ch)"
proof -
  define n where "n = (if len < ch_len ch then len else ch_len ch)"
  let ?S = "unat (ch_buf_size ch)" and ?L = "unat (ch_len ch)" and ?H = "unat (ch_head ch)"
  note I = inv [unfolded chan_inv_def]
  have n: "unat n = min (unat len) ?L" by (auto simp: n_def word_less_nat_alt min_def)
  then have n_le: "unat n \<le> ?L" "unat n \<le> ?S" "unat n \<le> length buf" using len I by auto
  obtain h where h: "size_mod (ch_head ch + n) (ch_buf_size ch) = Some h" "unat h = (?H + unat n) mod ?S"
    by (rule size_mod_unat [of "ch_buf_size ch" "ch_head ch" n]) (use I n_le in simp_all)
  have r: "channel_read_loop buf (ch_buf ch) (ch_buf_size ch) (ch_head ch) n 0 = Some (overwrite 0 (take (unat n) (chan_bytes ch)) buf)"
    using channel_read_loop_spec [of "ch_buf_size ch" "ch_buf ch" "ch_head ch" n buf 0] I n_le
    by (simp add: chan_bytes_def take_map min_absorb1)
  have diff: "unat (ch_len ch - n) = ?L - unat n" using n_le by (simp add: unat_diff_size)
  define ch' where "ch' = ch\<lparr>ch_head := h, ch_len := ch_len ch - n\<rparr>"
  have "chan_bytes ch' = drop (unat n) (chan_bytes ch)"
    using ring_advance [OF h(2) n_le(1)] diff by (simp add: chan_bytes_def ch'_def)
  moreover have "chan_inv ch'" using I h(2) diff by (auto simp: chan_inv_def ch'_def)
  moreover have "channel_read ch buf len = Some (AEMLIB_STATUS_OK, ch', overwrite 0 (take (unat n) (chan_bytes ch)) buf, n)"
    using r h(1) by (simp add: channel_read_def n_def [symmetric] ch'_def Let_def)
  ultimately show ?thesis using n by (auto simp: ch'_def)
qed

section \<open>The FIFO contract\<close>

text \<open>
  A bounded pipe of bytes: \<open>put\<close> appends a prefix of its data, \<open>get\<close> removes a prefix of the content,
  and both transfer as much as possible.
\<close>

locale byte_pipe =
  fixes put :: "'c \<Rightarrow> mem \<Rightarrow> size_t \<Rightarrow> (aemlib_status_t \<times> 'c \<times> size_t) option"
    and get :: "'c \<Rightarrow> mem \<Rightarrow> size_t \<Rightarrow> (aemlib_status_t \<times> 'c \<times> mem \<times> size_t) option"
    and pinv :: "'c \<Rightarrow> bool"
    and content :: "'c \<Rightarrow> byte list"
    and capacity :: "'c \<Rightarrow> nat"
  assumes put_ok: "pinv c \<Longrightarrow> unat len \<le> length data \<Longrightarrow>
      \<exists>c' n. put c data len = Some (if n = 0 \<and> len > 0 then io_would_block else AEMLIB_STATUS_OK, c', n)
        \<and> pinv c' \<and> capacity c' = capacity c \<and> unat n = min (unat len) (capacity c - length (content c))
        \<and> content c' = content c @ take (unat n) data"
    and get_ok: "pinv c \<Longrightarrow> unat len \<le> length buf \<Longrightarrow>
      \<exists>c' n. get c buf len = Some (AEMLIB_STATUS_OK, c', overwrite 0 (take (unat n) (content c)) buf, n)
        \<and> pinv c' \<and> capacity c' = capacity c \<and> unat n = min (unat len) (length (content c))
        \<and> content c' = drop (unat n) (content c)"
begin

text \<open>Bytes that fit into an empty pipe come out whole and in order, and leave it empty.\<close>

lemma put_get:
  assumes "pinv c" "content c = []" "unat len \<le> length data" "unat len \<le> capacity c"
    and "unat len \<le> unat blen" "unat blen \<le> length buf"
  shows "\<exists>c1 c2 buf'. put c data len = Some (AEMLIB_STATUS_OK, c1, len)
    \<and> get c1 buf blen = Some (AEMLIB_STATUS_OK, c2, buf', len) \<and> pinv c2 \<and> content c2 = []
    \<and> take (unat len) buf' = take (unat len) data \<and> drop (unat len) buf' = drop (unat len) buf"
proof -
  obtain c1 n where p: "put c data len = Some (if n = 0 \<and> len > 0 then io_would_block else AEMLIB_STATUS_OK, c1, n)"
    "pinv c1" "unat n = min (unat len) (capacity c - length (content c))" "content c1 = content c @ take (unat n) data"
    using put_ok [OF assms(1,3)] by blast
  then have n: "n = len" using assms(2,4) by (simp add: word_unat_eq_iff)
  obtain c2 m where g: "get c1 buf blen = Some (AEMLIB_STATUS_OK, c2, overwrite 0 (take (unat m) (content c1)) buf, m)"
    "pinv c2" "unat m = min (unat blen) (length (content c1))" "content c2 = drop (unat m) (content c1)"
    using get_ok [OF p(2) assms(6)] by blast
  have m: "m = len" using g(3) p(4) n assms(2,3,5) by (simp add: word_unat_eq_iff min_def)
  show ?thesis
    using p g n m assms by (auto simp: overwrite_def)
qed

text \<open>A full pipe refuses every byte and keeps its content.\<close>

lemma put_full:
  assumes "pinv c" "length (content c) = capacity c" "0 < len" "unat len \<le> length data"
  shows "\<exists>c'. put c data len = Some (io_would_block, c', 0) \<and> pinv c' \<and> content c' = content c"
  using put_ok [OF assms(1,4)] assms(2,3) by (auto simp: unat_eq_zero)

end

interpretation channel: byte_pipe channel_write channel_read chan_inv chan_bytes "\<lambda>ch. unat (ch_buf_size ch)"
  by unfold_locales (metis channel_write_spec, metis channel_read_spec)

section \<open>An endpoint is a transport\<close>

text \<open>The endpoint exists, its two channels are distinct, exist and are well formed.\<close>

definition vt_inv :: "nat \<Rightarrow> 'x vt_store_scheme \<Rightarrow> bool" where
  "vt_inv ctx w \<longleftrightarrow> (\<exists>vt rx tx. vs_endpoint w ctx = Some vt \<and> vt_rx vt \<noteq> vt_tx vt
     \<and> vs_channel w (vt_rx vt) = Some rx \<and> chan_inv rx \<and> vs_channel w (vt_tx vt) = Some tx \<and> chan_inv tx)"

definition vt_inq :: "nat \<Rightarrow> 'x vt_store_scheme \<Rightarrow> byte list" where
  "vt_inq ctx w = chan_bytes (the (vs_channel w (vt_rx (the (vs_endpoint w ctx)))))"

definition vt_outq :: "nat \<Rightarrow> 'x vt_store_scheme \<Rightarrow> byte list" where
  "vt_outq ctx w = chan_bytes (the (vs_channel w (vt_tx (the (vs_endpoint w ctx)))))"

lemmas vt_state_defs = vt_inv_def vt_inq_def vt_outq_def

lemma vt_read_ok:
  assumes "vt_inv ctx w" "unat len \<le> length buf"
  shows "\<exists>st buf' n w'. vt_read ctx w buf len n0 = Some (st, buf', n, w') \<and> vt_inv ctx w' \<and> vt_outq ctx w' = vt_outq ctx w
    \<and> length buf' = length buf \<and> drop (unat len) buf' = drop (unat len) buf
    \<and> (if st = AEMLIB_STATUS_OK
       then unat n \<le> unat len \<and> unat n \<le> length (vt_inq ctx w)
         \<and> take (unat n) buf' = take (unat n) (vt_inq ctx w) \<and> vt_inq ctx w' = drop (unat n) (vt_inq ctx w)
       else vt_inq ctx w' = vt_inq ctx w)"
proof -
  obtain vt rx tx where w: "vs_endpoint w ctx = Some vt" "vt_rx vt \<noteq> vt_tx vt"
    "vs_channel w (vt_rx vt) = Some rx" "chan_inv rx" "vs_channel w (vt_tx vt) = Some tx" "chan_inv tx"
    using assms(1) by (auto simp: vt_inv_def)
  obtain ch n where r: "channel_read rx buf len = Some (AEMLIB_STATUS_OK, ch, overwrite 0 (take (unat n) (chan_bytes rx)) buf, n)"
    "chan_inv ch" "unat n = min (unat len) (length (chan_bytes rx))" "chan_bytes ch = drop (unat n) (chan_bytes rx)"
    using channel.get_ok [OF w(4) assms(2)] by blast
  show ?thesis
  proof (cases "vt_connected vt = 0")
    case True
    then show ?thesis using w assms by (auto simp: vt_read_def vt_state_defs)
  next
    case False
    then show ?thesis
      using w r assms(2) by (auto simp: vt_read_def vt_state_defs overwrite_def)
  qed
qed

lemma vt_write_ok:
  assumes "vt_inv ctx w" "unat len \<le> length data"
  shows "\<exists>st n w'. vt_write ctx w data len n0 = Some (st, n, w') \<and> vt_inv ctx w' \<and> vt_inq ctx w' = vt_inq ctx w
    \<and> (if st = AEMLIB_STATUS_OK then unat n \<le> unat len \<and> vt_outq ctx w' = vt_outq ctx w @ take (unat n) data
       else vt_outq ctx w' = vt_outq ctx w)"
proof -
  obtain vt rx tx where w: "vs_endpoint w ctx = Some vt" "vt_rx vt \<noteq> vt_tx vt"
    "vs_channel w (vt_rx vt) = Some rx" "chan_inv rx" "vs_channel w (vt_tx vt) = Some tx" "chan_inv tx"
    using assms(1) by (auto simp: vt_inv_def)
  obtain ch n where r: "channel_write tx data len = Some (if n = 0 \<and> len > 0 then io_would_block else AEMLIB_STATUS_OK, ch, n)"
    "chan_inv ch" "unat n = min (unat len) (unat (ch_buf_size tx) - length (chan_bytes tx))"
    "chan_bytes ch = chan_bytes tx @ take (unat n) data"
    using channel.put_ok [OF w(6) assms(2)] by blast
  show ?thesis
    using w r assms by (cases "vt_connected vt = 0") (auto simp: vt_write_def vt_state_defs)
qed

text \<open>A connected endpoint hands over as much as fits.\<close>

lemma vt_read_all:
  assumes "vt_inv ctx w" "vs_endpoint w ctx = Some vt" "vt_connected vt \<noteq> 0" "unat len \<le> length buf"
  shows "\<exists>buf' n w'. vt_read ctx w buf len n0 = Some (AEMLIB_STATUS_OK, buf', n, w') \<and> unat n = min (unat len) (length (vt_inq ctx w))"
proof -
  obtain rx where rx: "vs_channel w (vt_rx vt) = Some rx" "chan_inv rx" using assms(1,2) by (auto simp: vt_inv_def)
  then show ?thesis
    using channel.get_ok [OF rx(2) assms(4)] assms(2,3) by (auto simp: vt_read_def vt_inq_def)
qed

lemma vt_write_status:
  assumes "vt_inv ctx w" "vs_endpoint w ctx = Some vt" "vt_connected vt \<noteq> 0" "unat len \<le> length data"
    and "vt_write ctx w data len n0 = Some (st, n, w')"
  shows "st = AEMLIB_STATUS_OK \<or> st = io_would_block"
proof -
  obtain tx where tx: "vs_channel w (vt_tx vt) = Some tx" "chan_inv tx" using assms(1,2) by (auto simp: vt_inv_def)
  then show ?thesis
    using channel.put_ok [OF tx(2) assms(4)] assms(2,3,5) by (auto simp: vt_write_def split: if_splits)
qed

interpretation vt: transport_impl "vt_connect ctx" "vt_disconnect ctx" "vt_read ctx" "vt_write ctx"
  "vt_inv ctx" "vt_inq ctx" "vt_outq ctx" for ctx
proof (unfold_locales, goal_cases)
  case (1 w)
  then show ?case by (auto simp: vt_connect_def vt_state_defs)
next
  case (2 w)
  then show ?case by (auto simp: vt_disconnect_def vt_state_defs)
qed (use vt_read_ok vt_write_ok in blast)+

section \<open>A pair of endpoints\<close>

text \<open>
  Two endpoints that share two channels, as \<^const>\<open>aemlib_virtual_transport_pair_init\<close> links them: what
  is under way from one is what has arrived at the other.
\<close>

definition vt_pair :: "nat \<Rightarrow> nat \<Rightarrow> 'x vt_store_scheme \<Rightarrow> bool" where
  "vt_pair a b w \<longleftrightarrow> a \<noteq> b \<and> vt_inv a w \<and> vt_inv b w
     \<and> vt_tx (the (vs_endpoint w a)) = vt_rx (the (vs_endpoint w b))
     \<and> vt_rx (the (vs_endpoint w a)) = vt_tx (the (vs_endpoint w b))"

lemma vt_pair_commute: "vt_pair a b w \<longleftrightarrow> vt_pair b a w"
  by (auto simp: vt_pair_def)

lemma vt_pair_queues: "vt_pair a b w \<Longrightarrow> vt_inq b w = vt_outq a w \<and> vt_outq b w = vt_inq a w"
  by (simp add: vt_pair_def vt_inq_def vt_outq_def)

lemma vt_pairE:
  assumes "vt_pair a b w"
  obtains va vb rx tx where "a \<noteq> b" "vs_endpoint w a = Some va" "vs_endpoint w b = Some vb"
    "vt_tx vb = vt_rx va" "vt_rx vb = vt_tx va" "vt_rx va \<noteq> vt_tx va"
    "vs_channel w (vt_rx va) = Some rx" "chan_inv rx" "vs_channel w (vt_tx va) = Some tx" "chan_inv tx"
  using assms that by (auto simp: vt_pair_def vt_inv_def)

lemma vt_pairI:
  assumes "a \<noteq> b" "vs_endpoint w a = Some va" "vs_endpoint w b = Some vb"
    "vt_tx vb = vt_rx va" "vt_rx vb = vt_tx va" "vt_rx va \<noteq> vt_tx va"
    "vs_channel w (vt_rx va) = Some rx" "chan_inv rx" "vs_channel w (vt_tx va) = Some tx" "chan_inv tx"
  shows "vt_pair a b w"
  using assms by (auto simp: vt_pair_def vt_inv_def)

lemma vt_read_pair:
  assumes "vt_pair a b w" "unat len \<le> length buf" "vt_read a w buf len n0 = Some (st, buf', n, w')"
  shows "vt_pair a b w'"
  using assms(1)
proof (rule vt_pairE)
  fix va vb rx tx
  assume w: "a \<noteq> b" "vs_endpoint w a = Some va" "vs_endpoint w b = Some vb"
    "vt_tx vb = vt_rx va" "vt_rx vb = vt_tx va" "vt_rx va \<noteq> vt_tx va"
    "vs_channel w (vt_rx va) = Some rx" "chan_inv rx" "vs_channel w (vt_tx va) = Some tx" "chan_inv tx"
  obtain ch m where "channel_read rx buf len = Some (AEMLIB_STATUS_OK, ch, overwrite 0 (take (unat m) (chan_bytes rx)) buf, m)" "chan_inv ch"
    using channel.get_ok [OF w(8) assms(2)] by blast
  then show ?thesis
    using w assms(1,3) by (cases "vt_connected va = 0") (auto simp: vt_read_def intro!: vt_pairI)
qed

lemma vt_write_pair:
  assumes "vt_pair a b w" "unat len \<le> length data" "vt_write a w data len n0 = Some (st, n, w')"
  shows "vt_pair a b w'"
  using assms(1)
proof (rule vt_pairE)
  fix va vb rx tx
  assume w: "a \<noteq> b" "vs_endpoint w a = Some va" "vs_endpoint w b = Some vb"
    "vt_tx vb = vt_rx va" "vt_rx vb = vt_tx va" "vt_rx va \<noteq> vt_tx va"
    "vs_channel w (vt_rx va) = Some rx" "chan_inv rx" "vs_channel w (vt_tx va) = Some tx" "chan_inv tx"
  obtain ch m st' where "channel_write tx data len = Some (st', ch, m)" "chan_inv ch"
    using channel.put_ok [OF w(10) assms(2)] by blast
  then show ?thesis
    using w assms(1,3) by (cases "vt_connected va = 0") (auto simp: vt_write_def intro!: vt_pairI)
qed

lemma vt_link_pair:
  "vt_pair a b w \<Longrightarrow> vt_connect a w = Some (st, w') \<Longrightarrow> vt_pair a b w'"
  "vt_pair a b w \<Longrightarrow> vt_disconnect a w = Some (st, w') \<Longrightarrow> vt_pair a b w'"
  by (auto elim!: vt_pairE simp: vt_connect_def vt_disconnect_def intro!: vt_pairI)

lemmas vt_pair_keep = vt_read_pair vt_write_pair vt_link_pair

text \<open>
  Runs of a pair: any interleaving of calls on the two endpoints, with the bytes accepted from and handed
  to each side so far. \<open>vt_log\<close> has the bytes accepted from \<open>a\<close>, handed to \<open>b\<close>, accepted from \<open>b\<close> and
  handed to \<open>a\<close>.
\<close>

record vt_log =
  from_a :: "byte list"
  to_b :: "byte list"
  from_b :: "byte list"
  to_a :: "byte list"

definition accepted :: "aemlib_status_t \<Rightarrow> size_t \<Rightarrow> mem \<Rightarrow> byte list" where
  "accepted st n data = (if st = AEMLIB_STATUS_OK then take (unat n) data else [])"

inductive vt_run :: "nat \<Rightarrow> nat \<Rightarrow> 'x vt_store_scheme \<Rightarrow> vt_log \<Rightarrow> 'x vt_store_scheme \<Rightarrow> bool"
  for a b w0 where
  start: "vt_run a b w0 \<lparr>from_a = [], to_b = [], from_b = [], to_a = []\<rparr> w0"
| link: "vt_run a b w0 l w \<Longrightarrow> x \<in> {a, b} \<Longrightarrow> vt_connect x w = Some (st, w') \<Longrightarrow> vt_run a b w0 l w'"
| unlink: "vt_run a b w0 l w \<Longrightarrow> x \<in> {a, b} \<Longrightarrow> vt_disconnect x w = Some (st, w') \<Longrightarrow> vt_run a b w0 l w'"
| write_a: "vt_run a b w0 l w \<Longrightarrow> unat len \<le> length data \<Longrightarrow> length data < 2 ^ 63 \<Longrightarrow>
    vt_write a w data len n0 = Some (st, n, w') \<Longrightarrow>
    vt_run a b w0 (l\<lparr>from_a := from_a l @ accepted st n data\<rparr>) w'"
| write_b: "vt_run a b w0 l w \<Longrightarrow> unat len \<le> length data \<Longrightarrow> length data < 2 ^ 63 \<Longrightarrow>
    vt_write b w data len n0 = Some (st, n, w') \<Longrightarrow>
    vt_run a b w0 (l\<lparr>from_b := from_b l @ accepted st n data\<rparr>) w'"
| read_a: "vt_run a b w0 l w \<Longrightarrow> unat len \<le> length buf \<Longrightarrow> length buf < 2 ^ 63 \<Longrightarrow>
    vt_read a w buf len n0 = Some (st, buf', n, w') \<Longrightarrow>
    vt_run a b w0 (l\<lparr>to_a := to_a l @ accepted st n buf'\<rparr>) w'"
| read_b: "vt_run a b w0 l w \<Longrightarrow> unat len \<le> length buf \<Longrightarrow> length buf < 2 ^ 63 \<Longrightarrow>
    vt_read b w buf len n0 = Some (st, buf', n, w') \<Longrightarrow>
    vt_run a b w0 (l\<lparr>to_b := to_b l @ accepted st n buf'\<rparr>) w'"

definition vt_log_ok :: "nat \<Rightarrow> vt_log \<Rightarrow> 'x vt_store_scheme \<Rightarrow> bool" where
  "vt_log_ok a l w \<longleftrightarrow> from_a l = to_b l @ vt_outq a w \<and> from_b l = to_a l @ vt_inq a w"

lemma vt_write_queues:
  assumes "vt_pair a b w" "unat len \<le> length data" "length data < 2 ^ 63" "vt_write a w data len n0 = Some (st, n, w')"
  shows "vt_pair a b w'" "vt_outq a w' = vt_outq a w @ accepted st n data" "vt_inq a w' = vt_inq a w"
  using assms vt_write_pair [OF assms(1,2,4)] vt.wr_ok [of a w len data n0]
  by (auto simp: vt_pair_def accepted_def split: if_splits)

lemma vt_read_queues:
  assumes "vt_pair a b w" "unat len \<le> length buf" "length buf < 2 ^ 63" "vt_read a w buf len n0 = Some (st, buf', n, w')"
  shows "vt_pair a b w'" "vt_inq a w = accepted st n buf' @ vt_inq a w'" "vt_outq a w' = vt_outq a w"
proof -
  show "vt_pair a b w'" by (rule vt_read_pair [OF assms(1,2,4)])
  show "vt_inq a w = accepted st n buf' @ vt_inq a w'" "vt_outq a w' = vt_outq a w"
    using assms vt.rd_ok [of a w len buf n0] by (auto simp: vt_pair_def accepted_def split: if_splits)
qed

lemma vt_link_queues:
  assumes "vt_pair a b w" "vt_connect a w = Some (st, w') \<or> vt_disconnect a w = Some (st, w')"
  shows "vt_pair a b w'" "vt_inq a w' = vt_inq a w" "vt_outq a w' = vt_outq a w"
  using assms vt_link_pair [of a b w st w']
  by (auto simp: vt_state_defs vt_connect_def vt_disconnect_def bind_Some_iff)

text \<open>The same facts for a call on the other endpoint, told with the first one's queues.\<close>

lemma vt_peer_queues:
  assumes "vt_pair a b w" "vt_pair b a w'"
  shows "vt_pair a b w'" "vt_outq b w' = vt_inq a w'" "vt_inq b w' = vt_outq a w'"
    "vt_outq b w = vt_inq a w" "vt_inq b w = vt_outq a w"
  using assms vt_pair_queues [of a b w] vt_pair_queues [of a b w'] vt_pair_commute by (metis, metis+)

lemma vt_run_log_ok:
  assumes "vt_run a b w0 l w" "vt_pair a b w0" "vt_outq a w0 = []" "vt_inq a w0 = []"
  shows "vt_pair a b w \<and> vt_log_ok a l w"
  using assms
proof (induction rule: vt_run.induct)
  case start
  then show ?case by (simp add: vt_log_ok_def)
next
  case (link l w x st w')
  show ?case
  proof (cases "x = a")
    case True
    then show ?thesis using link vt_link_queues [of a b w st w'] by (simp add: vt_log_ok_def)
  next
    case False
    then have q: "vt_pair b a w'" "vt_inq b w' = vt_inq b w" "vt_outq b w' = vt_outq b w"
      using link vt_link_queues [of b a w st w'] vt_pair_commute by auto
    show ?thesis using link q vt_peer_queues [of a b w w'] by (simp add: vt_log_ok_def)
  qed
next
  case (unlink l w x st w')
  show ?case
  proof (cases "x = a")
    case True
    then show ?thesis using unlink vt_link_queues [of a b w st w'] by (simp add: vt_log_ok_def)
  next
    case False
    then have q: "vt_pair b a w'" "vt_inq b w' = vt_inq b w" "vt_outq b w' = vt_outq b w"
      using unlink vt_link_queues [of b a w st w'] vt_pair_commute by auto
    show ?thesis using unlink q vt_peer_queues [of a b w w'] by (simp add: vt_log_ok_def)
  qed
next
  case (write_a l w len data n0 st n w')
  then show ?case using vt_write_queues [of a b w len data n0 st n w'] by (simp add: vt_log_ok_def)
next
  case (write_b l w len data n0 st n w')
  then have "vt_pair a b w" "vt_log_ok a l w" "vt_pair b a w" using vt_pair_commute by auto
  then show ?case
    using write_b.hyps vt_write_queues [of b a w len data n0 st n w'] vt_peer_queues [of a b w w']
    by (simp add: vt_log_ok_def)
next
  case (read_a l w len buf n0 st buf' n w')
  then show ?case using vt_read_queues [of a b w len buf n0 st buf' n w'] by (simp add: vt_log_ok_def)
next
  case (read_b l w len buf n0 st buf' n w')
  then have "vt_pair a b w" "vt_log_ok a l w" "vt_pair b a w" using vt_pair_commute by auto
  then show ?case
    using read_b.hyps vt_read_queues [of b a w len buf n0 st buf' n w'] vt_peer_queues [of a b w w']
    by (simp add: vt_log_ok_def)
qed

lemma channel_init_inv:
  assumes "0 < unat n" "unat n \<le> length buf" "length buf < 2 ^ 63"
  shows "chan_inv (aemlib_virtual_channel_init ch buf n)" "chan_bytes (aemlib_virtual_channel_init ch buf n) = []"
  using assms by (simp_all add: chan_inv_def chan_bytes_def aemlib_virtual_channel_init_def)

lemma pair_init_pair:
  assumes "a \<noteq> b" "ab \<noteq> ba" "vs_channel w ab = Some x" "chan_inv x" "vs_channel w ba = Some y" "chan_inv y"
    and "vs_endpoint w a = Some va" "vs_endpoint w b = Some vb"
  shows "\<exists>w0. aemlib_virtual_transport_pair_init a ab b ba w = Some w0 \<and> vt_pair a b w0
    \<and> vt_outq a w0 = chan_bytes x \<and> vt_inq a w0 = chan_bytes y"
  using assms by (auto simp: aemlib_virtual_transport_pair_init_def vt_inq_def vt_outq_def intro!: vt_pairI)

section \<open>Properties\<close>

text \<open>
  C6: the ring buffer refines a bounded FIFO of bytes. On a well-formed channel a write and a read are
  free of undefined behaviour and keep the channel well formed; a write appends the longest prefix of the
  data that fits (and reports WOULD_BLOCK exactly when it cannot take a single byte of a non-empty
  request), a read removes the longest prefix of the content that was asked for and stores it in the
  buffer, changing no other byte of it.
\<close>

theorem channel_refines_fifo:
  assumes "chan_inv ch" "unat wlen \<le> length data" "unat rlen \<le> length buf"
  shows "(\<exists>ch' n. channel_write ch data wlen = Some (if n = 0 \<and> wlen > 0 then io_would_block else AEMLIB_STATUS_OK, ch', n)
      \<and> chan_inv ch' \<and> unat n = min (unat wlen) (unat (ch_buf_size ch) - length (chan_bytes ch))
      \<and> chan_bytes ch' = chan_bytes ch @ take (unat n) data)
    \<and> (\<exists>ch' n. channel_read ch buf rlen = Some (AEMLIB_STATUS_OK, ch', overwrite 0 (take (unat n) (chan_bytes ch)) buf, n)
      \<and> chan_inv ch' \<and> unat n = min (unat rlen) (length (chan_bytes ch))
      \<and> chan_bytes ch' = drop (unat n) (chan_bytes ch))"
  using channel.put_ok [OF assms(1,2)] channel.get_ok [OF assms(1,3)] by blast

text \<open>A ring of three bytes whose content wraps around, and which has room for one more byte.\<close>

lemma wrapped_ring:
  "chan_inv \<lparr>ch_buf = [7, 0, 9], ch_buf_size = 3, ch_head = 2, ch_len = 2\<rparr>"
  "chan_bytes \<lparr>ch_buf = [7, 0, 9], ch_buf_size = 3, ch_head = 2, ch_len = 2\<rparr> = [9, 7]"
  by (simp_all add: chan_inv_def chan_bytes_def ring_at_def upt_conv_Cons)

theorem channel_refines_fifo_witness:
  "\<exists>ch'. channel_write \<lparr>ch_buf = [7, 0, 9], ch_buf_size = 3, ch_head = 2, ch_len = 2\<rparr> [4, 5] 2 = Some (AEMLIB_STATUS_OK, ch', 1)
    \<and> chan_bytes ch' = [9, 7, 4]"
proof -
  let ?ch = "\<lparr>ch_buf = [7, 0, 9], ch_buf_size = 3, ch_head = 2, ch_len = 2\<rparr>"
  obtain ch' n where "channel_write ?ch [4, 5] 2 = Some (if n = 0 \<and> (2 :: size_t) > 0 then io_would_block else AEMLIB_STATUS_OK, ch', n)"
    "unat n = min (unat (2 :: size_t)) (unat (ch_buf_size ?ch) - length (chan_bytes ?ch))"
    "chan_bytes ch' = chan_bytes ?ch @ take (unat n) [4, 5]"
    using channel_refines_fifo [of ?ch 2 "[4, 5]" 2 "[0, 0]"] wrapped_ring(1) by auto
  moreover have "n = 1" using calculation(2) wrapped_ring(2) by (simp add: word_unat_eq_iff)
  ultimately show ?thesis using wrapped_ring(2) by auto
qed

text \<open>
  C15: a pair of endpoints over two fresh channels is a lossless full-duplex byte stream. After any
  interleaving of connects, disconnects, reads and writes on the two ends, the bytes the transport has
  accepted from either end are exactly the bytes handed to the other end so far, in order and without
  loss or duplication, followed by those still buffered for it.
\<close>

theorem virtual_pair_lossless:
  assumes "a \<noteq> b" "ab \<noteq> ba"
    and "vs_channel w ab = Some (aemlib_virtual_channel_init c1 m1 n1)"
    and "vs_channel w ba = Some (aemlib_virtual_channel_init c2 m2 n2)"
    and "0 < unat n1" "unat n1 \<le> length m1" "length m1 < 2 ^ 63"
    and "0 < unat n2" "unat n2 \<le> length m2" "length m2 < 2 ^ 63"
    and "aemlib_virtual_transport_pair_init a ab b ba w = Some w0"
    and "vt_run a b w0 l w1"
  shows "from_a l = to_b l @ vt_inq b w1 \<and> from_b l = to_a l @ vt_inq a w1"
proof -
  obtain va vb where "vs_endpoint w a = Some va" "vs_endpoint w b = Some vb"
    using assms(1,11) by (auto simp: aemlib_virtual_transport_pair_init_def bind_Some_iff)
  then have p: "vt_pair a b w0" "vt_outq a w0 = []" "vt_inq a w0 = []"
    using pair_init_pair [OF assms(1-3) _ assms(4)] channel_init_inv assms by auto
  show ?thesis
    using vt_run_log_ok [OF assms(12) p] vt_pair_queues [of a b w1] by (simp add: vt_log_ok_def)
qed

definition demo_store :: vt_store where
  "demo_store =
     (let ch = aemlib_virtual_channel_init \<lparr>ch_buf = [], ch_buf_size = 0, ch_head = 0, ch_len = 0\<rparr> [0, 0, 0] 3;
          vt = \<lparr>vt_tx = 0, vt_rx = 0, vt_connected = 0\<rparr>
      in \<lparr>vs_channel = [0 \<mapsto> ch, 1 \<mapsto> ch], vs_endpoint = [0 \<mapsto> vt, 1 \<mapsto> vt]\<rparr>)"

lemma demo_run:
  "\<exists>w0 w1. aemlib_virtual_transport_pair_init 0 0 1 1 demo_store = Some w0
    \<and> vt_run 0 1 w0 \<lparr>from_a = [4, 5], to_b = [4], from_b = [], to_a = []\<rparr> w1"
proof -
  obtain w0 where i: "aemlib_virtual_transport_pair_init 0 0 1 1 demo_store = Some w0"
    by (simp add: aemlib_virtual_transport_pair_init_def demo_store_def Let_def)
  obtain w1 where c: "vt_connect 0 w0 = Some (AEMLIB_STATUS_OK, w1)"
    using i by (auto simp: aemlib_virtual_transport_pair_init_def demo_store_def Let_def vt_connect_def)
  obtain w2 where d: "vt_connect 1 w1 = Some (AEMLIB_STATUS_OK, w2)"
    using i c by (auto simp: aemlib_virtual_transport_pair_init_def demo_store_def Let_def vt_connect_def)
  have w2: "w2 = \<lparr>vs_channel = vs_channel demo_store,
      vs_endpoint = [0 \<mapsto> \<lparr>vt_tx = 0, vt_rx = 1, vt_connected = 1\<rparr>, 1 \<mapsto> \<lparr>vt_tx = 1, vt_rx = 0, vt_connected = 1\<rparr>]\<rparr>"
    using i c d by (auto simp: aemlib_virtual_transport_pair_init_def demo_store_def Let_def vt_connect_def fun_upd_twist)
  obtain w3 where e: "vt_write 0 w2 [4, 5] 2 0 = Some (AEMLIB_STATUS_OK, 2, w3)"
    by (simp add: w2 demo_store_def Let_def vt_write_def channel_write_def size_mod_def
        aemlib_virtual_channel_init_def channel_write_loop.simps mem_read_def mem_write_def)
  obtain w4 where f: "vt_read 1 w3 [0] 1 0 = Some (AEMLIB_STATUS_OK, [4], 1, w4)"
    using e by (auto simp: w2 demo_store_def Let_def vt_write_def channel_write_def size_mod_def vt_read_def channel_read_def
        aemlib_virtual_channel_init_def channel_write_loop.simps channel_read_loop.simps mem_read_def mem_write_def)
  have "vt_run 0 1 w0 \<lparr>from_a = [], to_b = [], from_b = [], to_a = []\<rparr> w2"
    using vt_run.link [OF vt_run.link [OF vt_run.start _ c] _ d] by simp
  then have "vt_run 0 1 w0 \<lparr>from_a = [4, 5], to_b = [], from_b = [], to_a = []\<rparr> w3"
    using vt_run.write_a [OF _ _ _ e] by (fastforce simp: accepted_def)
  then have "vt_run 0 1 w0 \<lparr>from_a = [4, 5], to_b = [4], from_b = [], to_a = []\<rparr> w4"
    using vt_run.read_b [OF _ _ _ f] by (fastforce simp: accepted_def)
  then show ?thesis using i by blast
qed

theorem virtual_pair_lossless_witness:
  "\<exists>w0 w1. vt_run 0 1 w0 \<lparr>from_a = [4, 5], to_b = [4], from_b = [], to_a = []\<rparr> w1
    \<and> aemlib_virtual_transport_pair_init 0 0 1 1 demo_store = Some w0 \<and> vt_inq 1 w1 = [5] \<and> vt_inq 0 w1 = []"
proof -
  obtain w0 w1 where r: "aemlib_virtual_transport_pair_init 0 0 1 1 demo_store = Some w0"
    "vt_run 0 1 w0 \<lparr>from_a = [4, 5], to_b = [4], from_b = [], to_a = []\<rparr> w1"
    using demo_run by blast
  let ?c = "\<lparr>ch_buf = [], ch_buf_size = 0, ch_head = 0, ch_len = 0\<rparr>"
  have "[4, 5] = [4] @ vt_inq 1 w1 \<and> [] = [] @ vt_inq 0 w1"
    using virtual_pair_lossless [OF _ _ _ _ _ _ _ _ _ _ r, of ?c "[0, 0, 0]" 3 ?c "[0, 0, 0]" 3]
    by (simp add: demo_store_def Let_def)
  then show ?thesis using r by auto
qed

end
