(* ===== verification/Aem_Demo.thy ===== *)
theory Aem_Demo
  imports Aem_Handshake Aem_Virtual_Transport
begin

text \<open>
  The demonstration program (\<^verbatim>\<open>examples/pubsub_demo.c\<close>): a client and a small broker in one process, connected by
  a pair of virtual endpoints. It is the place where the contract of the platform is discharged for the
  transport, the clock and the callback that the repository itself provides.
\<close>

section \<open>The world of the demonstration\<close>

text \<open>
  The store of the virtual transport, the static variables of the broker, the variable \<^verbatim>\<open>received\<close> that the
  callback sets through its context pointer, and the messages it prints.
\<close>

record demo_world = vt_store +
  broker_topic :: mem
  broker_topic_len :: size_t
  broker_subscribed :: int
  broker_buf :: mem
  broker_buf_len :: size_t
  received :: int
  printed :: "message list"

section \<open>Client side\<close>

definition stub_time_now :: "demo_world \<Rightarrow> uint64 \<times> demo_world" where
  "stub_time_now w = (0, w)"

definition on_message :: "demo_world aemlib_message_fn" where
  "on_message topic payload w = w\<lparr>printed := printed w @ [(topic, payload)], received := 1\<rparr>"

text \<open>The endpoint \<open>ctx\<close> with this clock and this callback is a platform.\<close>

lemma vt_inv_demo [simp]:
  "vt_inv ctx (w\<lparr>received := r\<rparr>) = vt_inv ctx (w :: demo_world)" "vt_inv ctx (w\<lparr>printed := p\<rparr>) = vt_inv ctx w"
  "vt_inq ctx (w\<lparr>received := r\<rparr>) = vt_inq ctx w" "vt_inq ctx (w\<lparr>printed := p\<rparr>) = vt_inq ctx w"
  "vt_outq ctx (w\<lparr>received := r\<rparr>) = vt_outq ctx w" "vt_outq ctx (w\<lparr>printed := p\<rparr>) = vt_outq ctx w"
  by (simp_all add: vt_state_defs)

interpretation demo: platform "vt_connect ctx" "vt_disconnect ctx" "vt_read ctx" "vt_write ctx" "vt_inv ctx" "vt_inq ctx" "vt_outq ctx"
  stub_time_now on_message printed for ctx
proof (unfold_locales, goal_cases)
  case (5 w buf len n0 st buf' n w')
  then show ?case by (auto simp: vt_read_def bind_Some_iff split: if_splits)
next
  case (6 w data len n0 st n w')
  then show ?case by (auto simp: vt_write_def bind_Some_iff split: if_splits)
qed (auto simp: stub_time_now_def on_message_def vt_connect_def vt_disconnect_def bind_Some_iff)

text \<open>Its endpoint is up between \<^verbatim>\<open>connect\<close> and \<^verbatim>\<open>disconnect\<close>, and only the callback touches what is printed.\<close>

definition vt_idle :: "nat \<Rightarrow> demo_world \<Rightarrow> bool" where
  "vt_idle ctx w \<longleftrightarrow> (\<exists>vt. vs_endpoint w ctx = Some vt \<and> vt_connected vt = 0)"

definition vt_up :: "nat \<Rightarrow> demo_world \<Rightarrow> bool" where
  "vt_up ctx w \<longleftrightarrow> (\<exists>vt. vs_endpoint w ctx = Some vt \<and> vt_connected vt \<noteq> 0)"

definition demo_progress :: "demo_world \<Rightarrow> demo_world \<Rightarrow> bool" where
  "demo_progress w w' \<longleftrightarrow> (\<exists>new. printed w' = printed w @ new \<and> received w' = (if new = [] then received w else 1))"

interpretation demo_link: linked "vt_connect ctx" "vt_disconnect ctx" "vt_read ctx" "vt_write ctx" "vt_inv ctx" "vt_inq ctx" "vt_outq ctx"
  stub_time_now on_message printed "vt_idle ctx" "vt_up ctx" for ctx
  by unfold_locales
     (auto simp: same_link_def vt_idle_def vt_up_def vt_connect_def vt_disconnect_def vt_read_def vt_write_def stub_time_now_def
        on_message_def bind_Some_iff split: if_splits)

text \<open>While it is up it takes what fits and hands over what is there.\<close>

interpretation demo_lively: lively "vt_connect ctx" "vt_disconnect ctx" "vt_read ctx" "vt_write ctx" "vt_inv ctx" "vt_inq ctx" "vt_outq ctx"
  stub_time_now on_message printed "vt_idle ctx" "vt_up ctx" for ctx
proof (unfold_locales, goal_cases)
  case (1 w len data n0 st n w')
  then show ?case using vt_write_status [of ctx w _ len data n0 st n w'] by (auto simp: vt_up_def)
next
  case (2 w len buf n0 st buf' n w')
  then show ?case using vt_read_all [of ctx w _ len buf n0] by (auto simp: vt_up_def)
qed

lemma demo_progress_quiet: "printed w' = printed w \<Longrightarrow> received w' = received w \<Longrightarrow> demo_progress w w'"
  by (simp add: demo_progress_def)

lemma demo_progress_trans [trans]: "demo_progress w w1 \<Longrightarrow> demo_progress w1 w2 \<Longrightarrow> demo_progress w w2"
  unfolding demo_progress_def
proof (elim conjE exE, goal_cases)
  case (1 new new')
  then show ?case by (intro exI [of _ "new @ new'"]) simp
qed

interpretation demo_calls: evolving "vt_connect ctx" "vt_disconnect ctx" "vt_read ctx" "vt_write ctx" "vt_inv ctx" "vt_inq ctx" "vt_outq ctx"
  stub_time_now on_message printed demo_progress for ctx
proof (unfold_locales, goal_cases)
  case (2 w w1 w2)
  then show ?case by (rule demo_progress_trans)
next
  case (6 w topic payload)
  then show ?case by (simp add: demo_progress_def on_message_def)
qed (auto simp: vt_connect_def vt_disconnect_def vt_read_def vt_write_def stub_time_now_def bind_Some_iff
      intro!: demo_progress_quiet split: if_splits)

section \<open>Broker\<close>

text \<open>
  The argument of a \<^verbatim>\<open>%.*s\<close> conversion: \<^verbatim>\<open>printf\<close> reads from \<open>off\<close> to the first NUL and at most \<open>prec\<close> bytes, all of which have to be
  inside the object. What is printed is not part of the state.
\<close>

definition printf_str :: "mem \<Rightarrow> nat \<Rightarrow> nat \<Rightarrow> unit option" where
  "printf_str m off prec = (if off + prec \<le> length m \<or> off \<le> length m \<and> 0 \<in> set (drop off m) then Some () else None)"

definition broker_process_packet ::
    "demo_world aemlib_transport \<Rightarrow> mem \<Rightarrow> aemlib_mqtt_fixed_header \<Rightarrow> size_t \<Rightarrow> demo_world \<Rightarrow> demo_world option" where
  "broker_process_packet broker_transport buf header packet_len w =
     (case header_type header of
        AEMLIB_MQTT_PKT_CONNECT \<Rightarrow> do {
          (_, _, w) \<leftarrow> aemlib_transport_write broker_transport [0x20, 0x02, 0x00, 0x00] 4 0 w;
          Some w
        }
      | AEMLIB_MQTT_PKT_SUBSCRIBE \<Rightarrow>
          let offset = header_size header in do {
          hi \<leftarrow> mem_read buf (unat offset);
          lo \<leftarrow> mem_read buf (unat (offset + 1));
          let packet_id = (push_bit 8 (ucast hi) OR ucast lo :: uint16);
              offset = offset + 2 in do {
          thi \<leftarrow> mem_read buf (unat offset);
          tlo \<leftarrow> mem_read buf (unat (offset + 1));
          let topic_len = (push_bit 8 (ucast thi) OR ucast tlo :: size_t);
              offset = offset + 2 in do {
          w \<leftarrow> (if topic_len \<le> 128 then do {
                    t \<leftarrow> mem_copy (broker_topic w) 0 buf (unat offset) (unat topic_len);
                    Some (w\<lparr>broker_topic := t, broker_topic_len := topic_len, broker_subscribed := 1\<rparr>)
                  } else Some w);
          _ \<leftarrow> printf_str buf (unat offset) (unat topic_len);
          (_, _, w) \<leftarrow> aemlib_transport_write broker_transport
             [0x90, 0x03, ucast (drop_bit 8 packet_id), ucast (packet_id AND 0xFF), 0x00] 5 0 w;
          Some w
          }}}
      | AEMLIB_MQTT_PKT_PUBLISH \<Rightarrow> do {
          (status, view) \<leftarrow> aemlib_proto_decode_publish (Some buf) packet_len (Some header) (Some null_view);
          if status \<noteq> AEMLIB_STATUS_OK then Some w
          else do {
            v \<leftarrow> view;
            _ \<leftarrow> printf_str buf (unat (view_topic v)) (unat (view_topic_len v));
            _ \<leftarrow> printf_str buf (unat (view_payload v)) (unat (view_payload_len v));
            if broker_subscribed w \<noteq> 0 \<and> view_topic_len v = broker_topic_len w then do {
              topic \<leftarrow> mem_slice buf (view_topic v) (view_topic_len v);
              mine \<leftarrow> mem_slice (broker_topic w) 0 (view_topic_len v);
              if topic = mine then do {
                (_, _, w) \<leftarrow> aemlib_transport_write broker_transport buf packet_len 0 w;
                Some w
              } else Some w
            } else Some w
          }
        }
      | _ \<Rightarrow> Some w)"

function broker_loop :: "demo_world aemlib_transport \<Rightarrow> mem \<Rightarrow> size_t \<Rightarrow> demo_world \<Rightarrow> (mem \<times> size_t \<times> demo_world) option" where
  "broker_loop t buf buf_len w =
     (if buf_len = 0 then Some (buf, buf_len, w)
      else do {
        (status, header) \<leftarrow> aemlib_proto_decode_fixed_header buf buf_len uninit_header;
        if status \<noteq> AEMLIB_STATUS_OK then Some (buf, buf_len, w)
        else
          let packet_len = header_size header + ucast (header_remaining_length header) in
          if packet_len > buf_len then Some (buf, buf_len, w)
          else do {
            w \<leftarrow> broker_process_packet t buf header packet_len w;
            let buf_len = buf_len - packet_len in do {
            buf \<leftarrow> (if buf_len > 0 then mem_move buf 0 (unat packet_len) (unat buf_len) else Some buf);
            broker_loop t buf buf_len w
            }
          }
      })"
  by pat_completeness auto
termination
proof (relation "measure (\<lambda>(t, buf, buf_len, w). unat buf_len)", goal_cases)
  case (2 t buf buf_len w p st h len w' l buf')
  then have "2 \<le> unat len" "unat len \<le> unat buf_len"
    using decode_fixed_header_len [of buf buf_len uninit_header h] by (auto simp: word_less_nat_alt)
  with 2 show ?case by (simp add: unat_diff_size)
qed simp

declare broker_loop.simps [simp del]

definition broker_tick :: "demo_world aemlib_transport \<Rightarrow> demo_world \<Rightarrow> demo_world option" where
  "broker_tick broker_transport w = do {
     dst \<leftarrow> mem_from (broker_buf w) (unat (broker_buf_len w));
     let before = take (unat (broker_buf_len w)) (broker_buf w) in do {
     (status, dst, read, w) \<leftarrow> aemlib_transport_read broker_transport dst (256 - broker_buf_len w) 0 w;
     let w = w\<lparr>broker_buf := before @ dst\<rparr> in
     if status \<noteq> AEMLIB_STATUS_OK \<and> \<not> would_block status then Some w
     else do {
       (buf, buf_len, w) \<leftarrow> broker_loop broker_transport (broker_buf w) (broker_buf_len w + read) w;
       Some (w\<lparr>broker_buf := buf, broker_buf_len := buf_len\<rparr>)
     }}
   }"

section \<open>Main program\<close>

definition DEMO_TOPIC :: "byte list" where
  "DEMO_TOPIC = map (\<lambda>c. of_nat (of_char c)) ''demo/topic''"

definition DEMO_PAYLOAD :: "byte list" where
  "DEMO_PAYLOAD = map (\<lambda>c. of_nat (of_char c)) ''hello from aemlib''"

text \<open>The loop over the ticks: \<^term>\<open>Inl\<close> is the early return of \<^verbatim>\<open>main\<close>, \<^term>\<open>Inr\<close> the client behind the loop.\<close>

fun demo_ticks ::
    "nat \<Rightarrow> demo_world aemlib_transport \<Rightarrow> demo_world aemlib_client \<Rightarrow> bool \<Rightarrow> bool \<Rightarrow> demo_world \<Rightarrow>
     ((int + demo_world aemlib_client) \<times> demo_world) option" where
  "demo_ticks 0 bt c subscribed published w = Some (Inr c, w)"
| "demo_ticks (Suc n) bt c subscribed published w =
     (if received w \<noteq> 0 then Some (Inr c, w)
      else do {
        (status, client, w) \<leftarrow> aemlib_poll (Some c) w;
        if status \<noteq> AEMLIB_STATUS_OK then Some (Inl 1, w)
        else do {
          c \<leftarrow> client;
          w \<leftarrow> broker_tick bt w;
          (subscribed, c, w) \<leftarrow>
            (if c_state c = AEMLIB_STATE_MQTT_CONNECTED \<and> \<not> subscribed then do {
               (_, client, w) \<leftarrow> aemlib_subscribe (Some c) (cstring DEMO_TOPIC) 0 w;
               c \<leftarrow> client;
               Some (True, c, w)
             } else Some (subscribed, c, w));
          (published, c, w) \<leftarrow>
            (if subscribed \<and> \<not> published then do {
               (_, client, w) \<leftarrow> aemlib_publish (Some c) (cstring DEMO_TOPIC) (cstring DEMO_PAYLOAD) (of_nat (length DEMO_PAYLOAD)) 0 w;
               c \<leftarrow> client;
               Some (True, c, w)
             } else Some (published, c, w));
          demo_ticks n bt c subscribed published w
        }
      })"

text \<open>
  \<^verbatim>\<open>main\<close>: endpoint 0 and channel 0 belong to the client's side, 1 to the broker's. The arrays of the stack
  frame and the initial \<^verbatim>\<open>aemlib_client_t\<close> are arguments.
\<close>

definition demo_config :: "mem \<Rightarrow> mem \<Rightarrow> demo_world aemlib_transport \<Rightarrow> demo_world aemlib_config" where
  "demo_config tx_buf rx_buf t = \<lparr>
     cfg_tx_buffer = Some tx_buf, cfg_tx_buffer_size = of_nat (length tx_buf),
     cfg_rx_buffer = Some rx_buf, cfg_rx_buffer_size = of_nat (length rx_buf),
     cfg_transport = t, cfg_time = \<lparr>now_ms = Some stub_time_now\<rparr>,
     cfg_storage = \<lparr>write_record = None, read_record = None, delete_record = None\<rparr>,
     cfg_keepalive_interval_ms = 60000, cfg_on_message = Some on_message\<rparr>"

definition demo_main :: "mem \<Rightarrow> mem \<Rightarrow> mem \<Rightarrow> mem \<Rightarrow> demo_world aemlib_client \<Rightarrow> demo_world \<Rightarrow> (int \<times> demo_world) option" where
  "demo_main chan_c2b chan_b2c tx_buf rx_buf client w = do {
     ch0 \<leftarrow> vs_channel w 0;
     ch1 \<leftarrow> vs_channel w 1;
     let w = w\<lparr>vs_channel := (vs_channel w)(0 \<mapsto> aemlib_virtual_channel_init ch0 chan_c2b (of_nat (length chan_c2b)),
                                          1 \<mapsto> aemlib_virtual_channel_init ch1 chan_b2c (of_nat (length chan_b2c)))\<rparr> in do {
     w \<leftarrow> aemlib_virtual_transport_pair_init 0 0 1 1 w;
     let client_transport = aemlib_virtual_transport_bind 0;
         broker_transport = aemlib_virtual_transport_bind 1 in do {
     (_, w) \<leftarrow> aemlib_transport_connect broker_transport w;
     let w = w\<lparr>received := 0\<rparr> in do {
     (status, c, w) \<leftarrow> aemlib_init (Some client) (Some (demo_config tx_buf rx_buf client_transport)) w;
     if status \<noteq> AEMLIB_STATUS_OK then Some (1, w)
     else
       let (status, c) = aemlib_connect c in
       if status \<noteq> AEMLIB_STATUS_OK then Some (1, w)
       else do {
         c \<leftarrow> c;
         (r, w) \<leftarrow> demo_ticks 20 broker_transport c False False w;
         (case r of
            Inl code \<Rightarrow> Some (code, w)
          | Inr c \<Rightarrow>
              let (_, c) = aemlib_disconnect (Some c) in do {
                (_, _, w) \<leftarrow> aemlib_poll c w;
                Some (if received w = 0 then 1 else 0, w)
              })
       }}}}
   }"

section \<open>Concrete states\<close>

text \<open>
  A world with two channels of 64 bytes in which both endpoints are connected and \<open>bs\<close> is under way to the
  client, and a client on endpoint 0 with buffers of 64 bytes, \<open>rx\<close> received and \<open>tx\<close> staged.
\<close>

definition sample_world :: "byte list \<Rightarrow> demo_world" where
  "sample_world bs = \<lparr>
     vs_channel = [0 \<mapsto> \<lparr>ch_buf = replicate 64 0, ch_buf_size = 64, ch_head = 0, ch_len = 0\<rparr>,
                   1 \<mapsto> \<lparr>ch_buf = bs @ replicate (64 - length bs) 0, ch_buf_size = 64, ch_head = 0, ch_len = of_nat (length bs)\<rparr>],
     vs_endpoint = [0 \<mapsto> \<lparr>vt_tx = 0, vt_rx = 1, vt_connected = 1\<rparr>, 1 \<mapsto> \<lparr>vt_tx = 1, vt_rx = 0, vt_connected = 1\<rparr>],
     broker_topic = replicate 128 0, broker_topic_len = 0, broker_subscribed = 0,
     broker_buf = replicate 256 0, broker_buf_len = 0, received = 0, printed = []\<rparr>"

definition sample_client :: "aemlib_state \<Rightarrow> byte list \<Rightarrow> byte list \<Rightarrow> demo_world aemlib_client" where
  "sample_client s rx tx = \<lparr>
     c_state = s, c_transport = aemlib_virtual_transport_bind 0, c_time = \<lparr>now_ms = Some stub_time_now\<rparr>,
     c_storage = \<lparr>write_record = None, read_record = None, delete_record = None\<rparr>,
     c_tx_buffer = Some (tx @ replicate (64 - length tx) 0), c_tx_buffer_size = 64,
     c_rx_buffer = Some (rx @ replicate (64 - length rx) 0), c_rx_buffer_size = 64,
     c_last_activity_ms = 0, c_keepalive_interval_ms = 60000, c_packet_id = 1, c_connect_sent = 1,
     c_tx_pending_len = of_nat (length tx), c_rx_len = of_nat (length rx), c_on_message = Some on_message\<rparr>"

abbreviation demo_runs_on :: "demo_world aemlib_client \<Rightarrow> bool" where
  "demo_runs_on \<equiv> runs_on (vt_connect 0) (vt_disconnect 0) (vt_read 0) (vt_write 0) stub_time_now on_message"

abbreviation demo_config_ok :: "demo_world aemlib_config \<Rightarrow> bool" where
  "demo_config_ok \<equiv> config_ok (vt_connect 0) (vt_disconnect 0) (vt_read 0) (vt_write 0) stub_time_now on_message"

lemma sample_world_ok:
  assumes "length bs \<le> 64"
  shows "vt_inv 0 (sample_world bs)" "vt_inq 0 (sample_world bs) = bs" "vt_outq 0 (sample_world bs) = []"
proof -
  have "unat (of_nat (length bs) :: size_t) = length bs" using assms by (intro unat_of_nat_size) simp
  then show "vt_inv 0 (sample_world bs)" "vt_inq 0 (sample_world bs) = bs" "vt_outq 0 (sample_world bs) = []"
    using assms by (auto simp: sample_world_def vt_state_defs chan_inv_def chan_bytes_def ring_at_def nth_append intro!: nth_equalityI)
qed

lemma sample_client_ok:
  assumes "length rx \<le> 64" "length tx \<le> 64"
  shows "wf_state s \<Longrightarrow> wf_client (sample_client s rx tx)" "demo_runs_on (sample_client s rx tx)"
    "rx_bytes (sample_client s rx tx) = rx" "tx_bytes (sample_client s rx tx) = tx"
proof -
  have "unat (of_nat (length rx) :: size_t) = length rx" "unat (of_nat (length tx) :: size_t) = length tx"
    using assms by (simp_all add: unat_of_nat_size)
  then show "wf_state s \<Longrightarrow> wf_client (sample_client s rx tx)" "demo_runs_on (sample_client s rx tx)"
    "rx_bytes (sample_client s rx tx) = rx" "tx_bytes (sample_client s rx tx) = tx"
    using assms by (auto simp: sample_client_def wf_client_def wf_rx_def wf_tx_def runs_on_def rx_bytes_def tx_bytes_def
        aemlib_virtual_transport_bind_def)
qed

lemma sample_client_fields [simp]:
  "c_state (sample_client s rx tx) = s" "c_on_message (sample_client s rx tx) = Some on_message"
  "c_rx_buffer_size (sample_client s rx tx) = 64" "c_tx_buffer_size (sample_client s rx tx) = 64"
  "c_tx_pending_len (sample_client s rx tx) = of_nat (length tx)" "c_connect_sent (sample_client s rx tx) = 1"
  by (simp_all add: sample_client_def)

lemma demo_config_ok:
  assumes "0 < length tx" "length tx < 2 ^ 63" "0 < length rx" "length rx < 2 ^ 63"
  shows "demo_config_ok (demo_config tx rx (aemlib_virtual_transport_bind 0))"
  using assms by (simp add: demo_config_def config_ok_def aemlib_virtual_transport_bind_def unat_of_nat_size)

text \<open>A read takes all the bytes under way to the client.\<close>

lemma sample_rx_read:
  fixes s rx bs
  defines "c \<equiv> sample_client s rx []"
  assumes "length rx + length bs \<le> 64"
  obtains n buf w where "rx_read c (sample_world bs) = Some (AEMLIB_STATUS_OK, n, c\<lparr>c_rx_buffer := Some buf\<rparr>, w)"
    "vt_inv 0 w" "vt_inq 0 w = []" "wf_rx (c\<lparr>c_rx_buffer := Some buf, c_rx_len := c_rx_len c + n\<rparr>)"
    "rx_bytes (c\<lparr>c_rx_buffer := Some buf, c_rx_len := c_rx_len c + n\<rparr>) = rx @ bs"
proof -
  let ?w = "sample_world bs"
  have wf: "wf_rx c" "demo_runs_on c" "rx_bytes c = rx"
    using sample_client_ok [of rx "[]"] sample_client_ok(1) [of rx "[]" AEMLIB_STATE_DISCONNECTED] assms(2)
    by (auto simp: c_def wf_client_def wf_rx_def sample_client_def)
  have inv: "vt_inv 0 ?w" "vt_inq 0 ?w = bs" using assms(2) by (simp_all add: sample_world_ok)
  have l: "unat (of_nat (length rx) :: size_t) = length rx" using assms(2) by (simp add: unat_of_nat_size)
  obtain st n buf w1 where r: "rx_read c ?w = Some (st, n, c\<lparr>c_rx_buffer := Some buf\<rparr>, w1)"
    and yes: "st = AEMLIB_STATUS_OK \<longrightarrow> unat n \<le> length (vt_inq 0 ?w) \<and> vt_inq 0 w1 = drop (unat n) (vt_inq 0 ?w)
      \<and> wf_rx (c\<lparr>c_rx_buffer := Some buf, c_rx_len := c_rx_len c + n\<rparr>)
      \<and> rx_bytes (c\<lparr>c_rx_buffer := Some buf, c_rx_len := c_rx_len c + n\<rparr>) = rx_bytes c @ take (unat n) (vt_inq 0 ?w)"
    and w1: "vt_inv 0 w1"
    by (rule demo.rx_read_ok [OF wf(1,2) inv(1)]) (rule that; assumption)
  let ?len = "64 - of_nat (length rx) :: size_t"
  have len: "unat ?len = 64 - length rx" using l assms(2) unat_diff_size [of "of_nat (length rx)" 64] by simp
  obtain buf' n' w' where v: "vt_read 0 ?w (replicate (64 - length rx) 0) ?len 0 = Some (AEMLIB_STATUS_OK, buf', n', w')" "unat n' = length bs"
    using vt_read_all [OF inv(1), of "\<lparr>vt_tx = 0, vt_rx = 1, vt_connected = 1\<rparr>" ?len "replicate (64 - length rx) 0" 0] inv(2) assms(2) len
    by (auto simp: sample_world_def)
  have "st = AEMLIB_STATUS_OK" "n = n'"
    using r v l by (auto simp: c_def rx_read_def sample_client_def mem_from_def aemlib_virtual_transport_bind_def transport_of_def
        aemlib_transport_read_def)
  then show thesis using that r yes w1 v(2) inv(2) wf(3) by simp
qed

lemma sample_poll:
  assumes "length bs \<le> 64" "drain 64 bs = (ms, rest, AEMLIB_STATUS_OK)"
  shows "\<exists>c' w'. aemlib_poll (Some (sample_client AEMLIB_STATE_MQTT_CONNECTED [] [])) (sample_world bs)
      = Some (AEMLIB_STATUS_OK, Some c', w') \<and> vt_inq 0 w' = []"
proof -
  let ?c = "sample_client AEMLIB_STATE_MQTT_CONNECTED [] []" and ?w = "sample_world bs"
  obtain n rx w1 where r: "rx_read ?c ?w = Some (AEMLIB_STATUS_OK, n, ?c\<lparr>c_rx_buffer := Some rx\<rparr>, w1)"
    and w1: "vt_inv 0 w1" "vt_inq 0 w1 = []" and c1: "wf_rx (?c\<lparr>c_rx_buffer := Some rx, c_rx_len := c_rx_len ?c + n\<rparr>)"
    "rx_bytes (?c\<lparr>c_rx_buffer := Some rx, c_rx_len := c_rx_len ?c + n\<rparr>) = bs"
    using sample_rx_read [of "[]" bs AEMLIB_STATE_MQTT_CONNECTED] assms(1) by auto
  let ?c1 = "?c\<lparr>c_rx_buffer := Some rx, c_rx_len := c_rx_len ?c + n\<rparr>"
  obtain c' where l: "client_read_loop ?c1 w1 = Some (AEMLIB_STATUS_OK, c', deliver_all (Some on_message) ms w1)" "rx_frame ?c c'"
    using client_read_loop_ok [OF c1(1), of w1] assms(2) c1(2) by (auto simp: drain_outcome_def)
  have f: "c_time c' = \<lparr>now_ms = Some stub_time_now\<rparr>" "c_last_activity_ms c' = 0" "c_keepalive_interval_ms c' = 60000"
    using l(2) by (simp_all add: rx_frame_def core_frame_def sample_client_def)
  have "client_read ?c ?w = Some (AEMLIB_STATUS_OK, c', deliver_all (Some on_message) ms w1)"
    using r l(1) by (simp add: client_read_def)
  then have "aemlib_poll (Some ?c) ?w = Some (AEMLIB_STATUS_OK, Some c', deliver_all (Some on_message) ms w1)"
    using f by (simp add: aemlib_poll_def client_flush_pending_def aemlib_core_poll_def core_poll_state_def
        handle_state_mqtt_connected_def to_pcall_def poll_state_def aemlib_time_now_def stub_time_now_def)
  moreover have "vt_inq 0 (deliver_all (Some on_message) ms w1) = []"
    using demo.deliver_all_ok [OF w1(1), of "Some on_message" ms] w1(2) by simp
  ultimately show ?thesis by blast
qed

lemma sample_core_poll:
  assumes "length rx + length bs \<le> 64" "connack_verdict 64 (rx @ bs) = CV_Accept k"
  shows "\<exists>c' w'. aemlib_core_poll (Some (sample_client AEMLIB_STATE_MQTT_CONNECT_SENT rx [])) (sample_world bs)
      = Some (AEMLIB_STATUS_OK, Some c', w') \<and> c_state c' = AEMLIB_STATE_MQTT_CONNECTED"
proof -
  let ?c = "sample_client AEMLIB_STATE_MQTT_CONNECT_SENT rx []" and ?w = "sample_world bs"
  obtain n buf w1 where r: "rx_read ?c ?w = Some (AEMLIB_STATUS_OK, n, ?c\<lparr>c_rx_buffer := Some buf\<rparr>, w1)" "vt_inv 0 w1"
    "wf_rx (?c\<lparr>c_rx_buffer := Some buf, c_rx_len := c_rx_len ?c + n\<rparr>)"
    "rx_bytes (?c\<lparr>c_rx_buffer := Some buf, c_rx_len := c_rx_len ?c + n\<rparr>) = rx @ bs"
    by (rule sample_rx_read [OF assms(1), of AEMLIB_STATE_MQTT_CONNECT_SENT])
  let ?c1 = "?c\<lparr>c_rx_buffer := Some buf, c_rx_len := c_rx_len ?c + n\<rparr>"
  have "demo_runs_on ?c1" using sample_client_ok(2) [of rx "[]"] assms(1) by (simp add: runs_on_def)
  then obtain st c' w' where p: "connect_sent_process ?c1 w1 = Some (st, c', w')" "connack_outcome (fst (stub_time_now w1)) ?c (rx @ bs) st c'"
    using demo.connect_sent_process_ok [OF r(3) _ r(2)] r(4) by auto
  have "handle_state_mqtt_connect_sent ?c ?w = connect_sent_process ?c1 w1"
    using r(1) by (simp add: handle_state_mqtt_connect_sent_def)
  then show ?thesis
    using p assms(2) by (auto simp: aemlib_core_poll_def core_poll_state_def to_pcall_def connack_outcome_def)
qed

lemma sample_listening:
  assumes "length bs \<le> 64" "drain 64 bs = (ms, rest, AEMLIB_STATUS_OK)"
  shows "\<exists>c w. listening (vt_inv 0) (vt_inq 0) printed (sample_client AEMLIB_STATE_MQTT_CONNECTED [] []) (sample_world bs) bs c w"
proof -
  let ?c = "sample_client AEMLIB_STATE_MQTT_CONNECTED [] []"
  obtain c w where p: "aemlib_poll (Some ?c) (sample_world bs) = Some (AEMLIB_STATUS_OK, Some c, w)" "vt_inq 0 w = []"
    using sample_poll [OF assms] by auto
  from listening.poll [OF listening.start p(1), of "vt_inv 0" "vt_inq 0" printed] p(2) show ?thesis
    using assms(1) by (auto simp: sample_world_ok)
qed

text \<open>A write on the connected endpoint can only block, so a packet that fits is accepted when nothing is staged.\<close>

lemma sample_sends:
  assumes "demo.sends 0 fits pkt c (sample_world bs) r" "length bs \<le> 64" "fits" "c_tx_pending_len c = 0"
  shows "\<exists>c' w'. to_pcall r = Some (AEMLIB_STATUS_OK, Some c', w') \<and> vt_outq 0 w' @ tx_bytes c' = pkt"
proof -
  obtain st c' w' where r: "r = Some (st, c', w')" "send_outcome fits pkt st c c' (vt_outq 0 (sample_world bs)) (vt_outq 0 w')"
    "st \<noteq> AEMLIB_STATUS_OK \<longrightarrow> demo.wr_failed 0 (sample_world bs) st w'"
    using assms(1,3,4) by (auto simp: demo.sends_def)
  have "st = AEMLIB_STATUS_OK \<or> would_block st"
    using r(3) vt_write_status [OF sample_world_ok(1) [OF assms(2)], of "\<lparr>vt_tx = 0, vt_rx = 1, vt_connected = 1\<rparr>"]
    by (fastforce simp: demo.wr_failed_def sample_world_def)
  then have "st = AEMLIB_STATUS_OK" "vt_outq 0 w' @ tx_bytes c' = pkt"
    using r(2) assms(2-4) by (auto simp: send_outcome_def sample_world_ok split: if_splits)
  with r(1) show ?thesis by (simp add: to_pcall_def)
qed

lemma sample_publish:
  assumes "publish_arg_ok (topic, payload, n)" "length topic + unat n + 7 \<le> 64" "c_tx_pending_len c = 0"
    and "wf_client c" "demo_runs_on c" "c_tx_buffer_size c = 64"
  shows "\<exists>c' w'. aemlib_publish (Some c) (cstring topic) payload n 0 (sample_world []) = Some (AEMLIB_STATUS_OK, Some c', w')
    \<and> vt_outq 0 w' @ tx_bytes c' = publish_packet (topic, take (unat n) payload)"
proof -
  obtain r where r: "aemlib_publish (Some c) (cstring topic) payload n 0 (sample_world []) = to_pcall r"
    "demo.sends 0 (body_fits (publish_body topic (take (unat n) payload)) (c_tx_buffer_size c))
       (publish_packet (topic, take (unat n) payload)) c (sample_world []) r"
    using demo.publish_ok [of c 0 "sample_world []" topic payload n] assms by (auto simp: wf_client_def sample_world_ok)
  moreover have "body_fits (publish_body topic (take (unat n) payload)) (c_tx_buffer_size c)"
    using assms by (simp add: body_fits_def publish_arg_ok_def)
  ultimately show ?thesis using sample_sends [OF r(2)] assms(3) by simp
qed

end
