(* ===== verification/Aem_Demo_Broker.thy ===== *)
theory Aem_Demo_Broker
  imports Aem_Demo
begin

text \<open>
  The broker of \<^verbatim>\<open>examples/pubsub_demo.c\<close>: an abstract broker that reads packets and answers with packets, the refinement of it by
  \<^verbatim>\<open>broker_tick\<close> on every stream whose SUBSCRIBE packets hold their topics, and the packet that makes it read behind its buffer.
\<close>

section \<open>The state of the broker\<close>

text \<open>The static arrays of the broker and the counters that index them.\<close>

definition broker_ok :: "demo_world \<Rightarrow> bool" where
  "broker_ok w \<longleftrightarrow> length (broker_buf w) = 256 \<and> unat (broker_buf_len w) \<le> 256
     \<and> length (broker_topic w) = 128 \<and> unat (broker_topic_len w) \<le> 128"

definition demo_inv :: "demo_world \<Rightarrow> bool" where
  "demo_inv w \<longleftrightarrow> vt_pair 0 1 w \<and> broker_ok w"

text \<open>The bytes it has buffered and the topic it is subscribed to.\<close>

definition broker_bytes :: "demo_world \<Rightarrow> byte list" where
  "broker_bytes w = take (unat (broker_buf_len w)) (broker_buf w)"

definition broker_sub :: "demo_world \<Rightarrow> byte list option" where
  "broker_sub w = (if broker_subscribed w = 0 then None else Some (take (unat (broker_topic_len w)) (broker_topic w)))"

text \<open>The bytes that its next turn reads.\<close>

definition broker_input :: "demo_world \<Rightarrow> byte list" where
  "broker_input w = take (256 - unat (broker_buf_len w)) (vt_inq 1 w)"

text \<open>Calls on a transport leave the variables of the program alone.\<close>

definition same_vars :: "demo_world \<Rightarrow> demo_world \<Rightarrow> bool" where
  "same_vars w w' \<longleftrightarrow> broker_topic w' = broker_topic w \<and> broker_topic_len w' = broker_topic_len w
     \<and> broker_subscribed w' = broker_subscribed w \<and> broker_buf w' = broker_buf w \<and> broker_buf_len w' = broker_buf_len w
     \<and> received w' = received w \<and> printed w' = printed w"

lemma transport_same_vars:
  "vt_read ctx w buf len n0 = Some (st, buf', n, w') \<Longrightarrow> same_vars w w'"
  "vt_write ctx w data len n0 = Some (st, n, w') \<Longrightarrow> same_vars w w'"
  by (auto simp: same_vars_def vt_read_def vt_write_def bind_Some_iff split: if_splits)

text \<open>How much the channel behind an endpoint holds.\<close>

definition vt_cap :: "nat \<Rightarrow> demo_world \<Rightarrow> nat" where
  "vt_cap ctx w = unat (ch_buf_size (the (vs_channel w (vt_tx (the (vs_endpoint w ctx))))))"

lemma vt_outq_cap: "vt_inv ctx w \<Longrightarrow> length (vt_outq ctx w) \<le> vt_cap ctx w"
  by (auto simp: vt_inv_def vt_outq_def vt_cap_def chan_inv_def word_le_nat_alt)

text \<open>The variables of the broker do not matter to the transport.\<close>

lemma vt_vars [simp]:
  "vt_pair a b (w\<lparr>broker_topic := t\<rparr>) = vt_pair a b w" "vt_pair a b (w\<lparr>broker_topic_len := n\<rparr>) = vt_pair a b w"
  "vt_pair a b (w\<lparr>broker_subscribed := s\<rparr>) = vt_pair a b w"
  "vt_pair a b (w\<lparr>broker_buf := t\<rparr>) = vt_pair a b w" "vt_pair a b (w\<lparr>broker_buf_len := n\<rparr>) = vt_pair a b w"
  by (simp_all add: vt_pair_def vt_inv_def)

lemma endpoint_vars [simp]:
  "vt_up a (w\<lparr>broker_topic := t\<rparr>) = vt_up a w" "vt_up a (w\<lparr>broker_topic_len := n\<rparr>) = vt_up a w" "vt_up a (w\<lparr>broker_subscribed := s\<rparr>) = vt_up a w"
  "vt_up a (w\<lparr>broker_buf := t\<rparr>) = vt_up a w" "vt_up a (w\<lparr>broker_buf_len := n\<rparr>) = vt_up a w"
  "vt_cap a (w\<lparr>broker_topic := t\<rparr>) = vt_cap a w" "vt_cap a (w\<lparr>broker_topic_len := n\<rparr>) = vt_cap a w" "vt_cap a (w\<lparr>broker_subscribed := s\<rparr>) = vt_cap a w"
  "vt_cap a (w\<lparr>broker_buf := t\<rparr>) = vt_cap a w" "vt_cap a (w\<lparr>broker_buf_len := n\<rparr>) = vt_cap a w"
  "vt_inq a (w\<lparr>broker_topic := t\<rparr>) = vt_inq a w" "vt_inq a (w\<lparr>broker_topic_len := n\<rparr>) = vt_inq a w" "vt_inq a (w\<lparr>broker_subscribed := s\<rparr>) = vt_inq a w"
  "vt_inq a (w\<lparr>broker_buf := t\<rparr>) = vt_inq a w" "vt_inq a (w\<lparr>broker_buf_len := n\<rparr>) = vt_inq a w"
  "vt_outq a (w\<lparr>broker_topic := t\<rparr>) = vt_outq a w" "vt_outq a (w\<lparr>broker_topic_len := n\<rparr>) = vt_outq a w" "vt_outq a (w\<lparr>broker_subscribed := s\<rparr>) = vt_outq a w"
  "vt_outq a (w\<lparr>broker_buf := t\<rparr>) = vt_outq a w" "vt_outq a (w\<lparr>broker_buf_len := n\<rparr>) = vt_outq a w"
  by (simp_all add: vt_up_def vt_cap_def vt_inq_def vt_outq_def)

text \<open>The view of the transport that a step of the broker changes: only its output grows, as far as the channel has room.\<close>

definition sends_out :: "byte list \<Rightarrow> demo_world \<Rightarrow> demo_world \<Rightarrow> bool" where
  "sends_out reply w w' \<longleftrightarrow> demo_inv w' \<and> vt_up 1 w' \<and> vt_cap 1 w' = vt_cap 1 w \<and> vt_inq 1 w' = vt_inq 1 w
     \<and> vt_outq 1 w' = take (vt_cap 1 w) (vt_outq 1 w @ reply) \<and> received w' = received w \<and> printed w' = printed w"

lemma sends_out_nothing: "demo_inv w \<Longrightarrow> vt_up 1 w \<Longrightarrow> sends_out [] w w"
  using vt_outq_cap [of 1 w] by (simp add: sends_out_def demo_inv_def vt_pair_def)

lemma take_take_append: "take c (take c xs @ ys) = take c (xs @ ys)"
  by (cases "length xs \<le> c") simp_all

lemma sends_out_trans: "sends_out r w w1 \<Longrightarrow> sends_out r' w1 w2 \<Longrightarrow> sends_out (r @ r') w w2"
  by (simp only: sends_out_def take_take_append append_assoc [symmetric] simp_thms)

lemma broker_write:
  assumes inv: "demo_inv w" "vt_up 1 w" and data: "unat len \<le> length data"
  obtains st n w' where "aemlib_transport_write (aemlib_virtual_transport_bind 1) data len 0 w = Some (st, n, w')"
    "sends_out (take (unat len) data) w w'" "broker_sub w' = broker_sub w"
proof -
  have p: "vt_pair 1 0 w" using inv(1) vt_pair_commute by (auto simp: demo_inv_def)
  then obtain vt tx where w: "vs_endpoint w 1 = Some vt" "vt_connected vt \<noteq> 0" "vs_channel w (vt_tx vt) = Some tx" "chan_inv tx" "vt_rx vt \<noteq> vt_tx vt"
    using inv(2) by (auto simp: vt_pair_def vt_inv_def vt_up_def)
  obtain ch n st where c: "channel_write tx data len = Some (st, ch, n)" "chan_inv ch" "ch_buf_size ch = ch_buf_size tx"
    "unat n = min (unat len) (unat (ch_buf_size tx) - length (chan_bytes tx))" "chan_bytes ch = chan_bytes tx @ take (unat n) data"
    using channel_write_spec [OF w(4) data] by blast
  define w' where "w' = w\<lparr>vs_channel := (vs_channel w)(vt_tx vt \<mapsto> ch)\<rparr>"
  have wr: "vt_write 1 w data len 0 = Some (st, n, w')" using w c(1) by (simp add: vt_write_def w'_def)
  have v: "same_vars w w'" by (rule transport_same_vars(2) [OF wr])
  have "vt_pair 0 1 w'" using vt_write_pair [OF p data wr] vt_pair_commute by blast
  moreover have "vt_outq 1 w' = take (vt_cap 1 w) (vt_outq 1 w @ take (unat len) data)"
    using w c vt_outq_cap [of 1 w] p by (simp add: w'_def vt_outq_def vt_cap_def vt_pair_def min_def)
  moreover have "vt_cap 1 w' = vt_cap 1 w" "vt_inq 1 w' = vt_inq 1 w" "vt_up 1 w'"
    using w c(3) by (simp_all add: w'_def vt_cap_def vt_inq_def vt_up_def)
  ultimately have "sends_out (take (unat len) data) w w'" "broker_sub w' = broker_sub w"
    using v inv(1) by (simp_all add: sends_out_def demo_inv_def broker_ok_def broker_sub_def same_vars_def)
  then show thesis using that wr by (simp add: aemlib_virtual_transport_bind_def vt.wrappers)
qed

section \<open>The abstract broker\<close>

text \<open>
  What a packet makes the broker answer, and the subscription behind it: it accepts every connection, acknowledges a SUBSCRIBE with the
  packet identifier it came with and remembers its topic, and sends a publication on that topic back as it is.
\<close>

definition sub_topic_len :: "byte list \<Rightarrow> nat" where
  "sub_topic_len body = unat (topic_length_at body 2)"

definition broker_answer ::
    "aemlib_mqtt_packet_type \<Rightarrow> byte \<Rightarrow> byte list \<Rightarrow> byte list \<Rightarrow> byte list option \<Rightarrow> byte list \<times> byte list option" where
  "broker_answer t f packet body sub =
     (if t = AEMLIB_MQTT_PKT_CONNECT then ([0x20, 0x02, 0x00, 0x00], sub)
      else if t = AEMLIB_MQTT_PKT_SUBSCRIBE then
        ([0x90, 0x03, body ! 0, body ! 1, 0x00],
         if sub_topic_len body \<le> 128 then Some (take (sub_topic_len body) (drop 4 body)) else sub)
      else case packet_event t f body of
          Inr [(topic, payload)] \<Rightarrow> (if sub = Some topic then packet else [], sub)
        | _ \<Rightarrow> ([], sub))"

text \<open>
  The broker on a stream of bytes: the answers to the complete packets at its front, the subscription behind them and the bytes that are left.
\<close>

function broker_run :: "byte list \<Rightarrow> byte list option \<Rightarrow> byte list \<times> byte list option \<times> byte list" where
  "broker_run bs sub =
     (case fh_parse bs of
        FH_Ok t f n s \<Rightarrow>
          if s + n \<le> length bs then
            case broker_answer t f (take (s + n) bs) (take n (drop s bs)) sub of (reply, sub) \<Rightarrow>
            (case broker_run (drop (s + n) bs) sub of (replies, sub, rest) \<Rightarrow> (reply @ replies, sub, rest))
          else ([], sub, bs)
      | _ \<Rightarrow> ([], sub, bs))"
  by pat_completeness auto
termination
  by (relation "measure (\<lambda>(bs, sub). length bs)") (auto dest: fh_parse_bounds(2))

text \<open>Every complete SUBSCRIBE packet of the stream holds the topic that its length field announces.\<close>

function subscribes_ok :: "byte list \<Rightarrow> bool" where
  "subscribes_ok bs =
     (case fh_parse bs of
        FH_Ok t f n s \<Rightarrow>
          if s + n \<le> length bs then
            (t = AEMLIB_MQTT_PKT_SUBSCRIBE \<longrightarrow> 4 \<le> n \<and> 4 + sub_topic_len (take n (drop s bs)) \<le> n) \<and> subscribes_ok (drop (s + n) bs)
          else True
      | _ \<Rightarrow> True)"
  by pat_completeness auto
termination
  by (relation "measure length") (auto dest: fh_parse_bounds(2))

declare broker_run.simps [simp del] subscribes_ok.simps [simp del]

lemma broker_run_cases:
  assumes "broker_run xs sub = (r, sub1, rest)"
  obtains (stop) "\<And>t f n s. fh_parse xs = FH_Ok t f n s \<Longrightarrow> length xs < s + n" "r = []" "sub1 = sub" "rest = xs"
  | (packet) t f n s reply sub' r' where "fh_parse xs = FH_Ok t f n s" "s + n \<le> length xs"
      "broker_answer t f (take (s + n) xs) (take n (drop s xs)) sub = (reply, sub')"
      "broker_run (drop (s + n) xs) sub' = (r', sub1, rest)" "r = reply @ r'"
proof (cases "\<exists>t f n s. fh_parse xs = FH_Ok t f n s \<and> s + n \<le> length xs")
  case True
  then obtain t f n s where "fh_parse xs = FH_Ok t f n s" "s + n \<le> length xs" by blast
  with assms packet show thesis by (subst (asm) broker_run.simps) (auto split: prod.splits)
next
  case False
  then have "r = [] \<and> sub1 = sub \<and> rest = xs"
    using assms by (subst (asm) broker_run.simps) (auto split: fh_result.splits if_splits)
  with False stop show thesis by (meson not_le)
qed

section \<open>One packet\<close>

lemma packet_id_bytes:
  "ucast (drop_bit 8 (push_bit 8 (ucast hi) OR ucast lo :: uint16)) = (hi :: byte)"
  "ucast ((push_bit 8 (ucast hi) OR ucast lo :: uint16) AND 0xFF) = (lo :: byte)"
proof -
  have "\<not> bit lo (8 + i)" for i using bit_imp_le_length [of lo "8 + i"] by auto
  then show "ucast (drop_bit 8 (push_bit 8 (ucast hi) OR ucast lo :: uint16)) = hi" by (auto intro!: bit_word_eqI simp: bit_simps)
qed (simp only: ucast_low_byte, auto intro!: bit_word_eqI simp: bit_simps)

lemma broker_subscribe_ok:
  fixes h buf
  defines "s \<equiv> unat (header_size h)" and "n \<equiv> unat (header_remaining_length h)"
  defines "body \<equiv> take n (drop s buf)"
  assumes inv: "demo_inv w" "vt_up 1 w" and buf: "length buf = 256" and h: "header_type h = AEMLIB_MQTT_PKT_SUBSCRIBE" "s \<le> 5" "s + n \<le> 256"
    and ok: "4 \<le> n" "4 + sub_topic_len body \<le> n"
  shows "\<exists>w'. broker_process_packet (aemlib_virtual_transport_bind 1) buf h k w = Some w' \<and> sends_out [0x90, 0x03, body ! 0, body ! 1, 0x00] w w'
    \<and> broker_sub w' = (if sub_topic_len body \<le> 128 then Some (take (sub_topic_len body) (drop 4 body)) else broker_sub w)"
proof -
  have o: "unat (header_size h + 1) = s + 1" "unat (header_size h + 2) = s + 2" "unat (header_size h + 2 + 1) = s + 3"
    "unat (header_size h + 2 + 2) = s + 4" using h(2) by (simp_all add: s_def unat_add_size)
  have nth: "body ! i = buf ! (s + i)" if "i < n" for i using that h(3) buf by (simp add: body_def)
  have r: "mem_read buf s = Some (body ! 0)" "mem_read buf (s + 1) = Some (body ! 1)" "mem_read buf (s + 2) = Some (body ! 2)"
    "mem_read buf (s + 3) = Some (body ! 3)" using h(2) buf ok(1) by (simp_all add: mem_read_def nth)
  define tl where "tl = topic_length_at body 2"
  have tl: "push_bit 8 (ucast (body ! 2)) OR ucast (body ! 3) = tl" by (simp add: tl_def topic_length_at_def)
  have len: "unat tl = sub_topic_len body" by (simp add: tl_def sub_topic_len_def)
  have topic: "take (unat tl) (drop (s + 4) buf) = take (sub_topic_len body) (drop 4 body)" "s + 4 + unat tl \<le> 256"
    using ok h(3) by (simp_all add: body_def len take_drop add.commute)
  have body: "length body = n" using h(3) buf by (simp add: body_def)
  define w1 where "w1 = (if tl \<le> 128 then w\<lparr>broker_topic := take (unat tl) (drop (s + 4) buf) @ drop (unat tl) (broker_topic w),
    broker_topic_len := tl, broker_subscribed := 1\<rparr> else w)"
  have w1: "demo_inv w1" "vt_up 1 w1" "sends_out [] w w1"
    "broker_sub w1 = (if sub_topic_len body \<le> 128 then Some (take (sub_topic_len body) (drop 4 body)) else broker_sub w)"
    using inv buf topic ok sends_out_nothing [OF inv]
    by (auto simp: w1_def demo_inv_def broker_ok_def sends_out_def word_le_nat_alt broker_sub_def len body)
  let ?ack = "[0x90, 0x03, body ! 0, body ! 1, 0x00]"
  obtain st m w2 where w2: "aemlib_transport_write (aemlib_virtual_transport_bind 1) ?ack 5 0 w1 = Some (st, m, w2)"
    "sends_out ?ack w1 w2" "broker_sub w2 = broker_sub w1"
    by (rule broker_write [OF w1(1,2), of 5 ?ack]) simp_all
  have copy: "(if tl \<le> 128 then mem_copy (broker_topic w) 0 buf (s + 4) (unat tl) \<bind>
      (\<lambda>t. Some (w\<lparr>broker_topic := t, broker_topic_len := tl, broker_subscribed := 1\<rparr>)) else Some w) = Some w1"
    using inv buf topic(2) by (auto simp: w1_def mem_copy_def demo_inv_def broker_ok_def word_le_nat_alt)
  have print: "printf_str buf (s + 4) (unat tl) = Some ()" using topic(2) buf by (simp add: printf_str_def)
  have "broker_process_packet (aemlib_virtual_transport_bind 1) buf h k w = Some w2"
    unfolding broker_process_packet_def h(1) aemlib_mqtt_packet_type.case Let_def o s_def [symmetric] r Option.bind.simps tl copy print
      packet_id_bytes w2(1) prod.case ..
  then show ?thesis using sends_out_trans [OF w1(3) w2(2)] w1(4) w2(3) by simp
qed

lemma broker_publish_ok:
  fixes h buf
  defines "s \<equiv> unat (header_size h)" and "n \<equiv> unat (header_remaining_length h)"
  assumes inv: "demo_inv w" "vt_up 1 w" and h: "header_type h = AEMLIB_MQTT_PKT_PUBLISH" and inside: "packet_inside buf k h"
  shows "\<exists>w'. broker_process_packet (aemlib_virtual_transport_bind 1) buf h k w = Some w'
    \<and> sends_out (fst (broker_answer (header_type h) (header_flags h) (take (unat k) buf) (take n (drop s buf)) (broker_sub w))) w w'
    \<and> broker_sub w' = broker_sub w"
proof (cases "header_qos (header_flags h) = 0 \<and> unat (topic_length_at buf s) + 2 \<le> n")
  case False
  then have "broker_process_packet (aemlib_virtual_transport_bind 1) buf h k w = Some w"
    using h decode_publish_eq [OF inside, of null_view]
    by (cases "header_qos (header_flags h) = 0")
       (auto simp: broker_process_packet_def aemlib_proto_decode_publish_def header_qos_def s_def n_def)
  moreover have "fst (broker_answer (header_type h) (header_flags h) (take (unat k) buf) (take n (drop s buf)) (broker_sub w)) = []"
    using False h publish_parse_ranges [OF inside] by (auto simp: broker_answer_def packet_event_def s_def n_def)
  ultimately show ?thesis using sends_out_nothing [OF inv] by simp
next
  case True
  let ?v = "publish_ranges buf h"
  have dec: "aemlib_proto_decode_publish (Some buf) k (Some h) (Some null_view) = Some (AEMLIB_STATUS_OK, Some ?v)"
    using True decode_publish_eq [OF inside, of null_view] by (simp add: s_def n_def)
  have r: "unat (view_topic ?v) + unat (view_topic_len ?v) \<le> length buf" "unat (view_payload ?v) + unat (view_payload_len ?v) \<le> length buf"
    using True inside by (auto simp: packet_inside_def s_def n_def unat_publish_ranges [OF inside])
  then have print: "printf_str buf (unat (view_topic ?v)) (unat (view_topic_len ?v)) = Some ()"
    "printf_str buf (unat (view_payload ?v)) (unat (view_payload_len ?v)) = Some ()" by (simp_all add: printf_str_def)
  have ans: "broker_answer (header_type h) (header_flags h) (take (unat k) buf) (take n (drop s buf)) (broker_sub w)
      = (if broker_sub w = Some (view_topic_bytes buf ?v) then take (unat k) buf else [], broker_sub w)"
    using True h publish_parse_ranges [OF inside] by (simp add: broker_answer_def packet_event_def s_def n_def)
  have t: "unat (0 :: size_t) + unat (view_topic_len ?v) \<le> length (broker_topic w)" if "view_topic_len ?v = broker_topic_len w"
    using that inv(1) by (simp add: demo_inv_def broker_ok_def)
  obtain st m w1 where w1: "aemlib_transport_write (aemlib_virtual_transport_bind 1) buf k 0 w = Some (st, m, w1)"
    "sends_out (take (unat k) buf) w w1" "broker_sub w1 = broker_sub w"
    by (rule broker_write [OF inv, of k buf]) (use inside in \<open>simp add: packet_inside_def\<close>)
  let ?yes = "broker_sub w = Some (view_topic_bytes buf ?v)"
  have yes: "?yes \<longleftrightarrow> broker_subscribed w \<noteq> 0 \<and> view_topic_len ?v = broker_topic_len w
      \<and> view_topic_bytes buf ?v = take (unat (view_topic_len ?v)) (broker_topic w)"
  proof -
    have "length (view_topic_bytes buf ?v) = unat (view_topic_len ?v)" using r(1) by (simp add: view_topic_bytes_def)
    moreover have "length (take (unat (broker_topic_len w)) (broker_topic w)) = unat (broker_topic_len w)"
      using inv(1) by (simp add: demo_inv_def broker_ok_def)
    ultimately show ?thesis by (metis broker_sub_def option.distinct(1) option.inject word_unat_eq_iff)
  qed
  have "broker_process_packet (aemlib_virtual_transport_bind 1) buf h k w = Some (if ?yes then w1 else w)"
    using h dec print w1(1) mem_slice_ok [OF r(1), folded view_topic_bytes_def] mem_slice_ok [OF t] yes
    by (auto simp: broker_process_packet_def)
  then show ?thesis using ans w1 sends_out_nothing [OF inv] by simp
qed

lemma broker_process_ok:
  fixes h buf
  defines "s \<equiv> unat (header_size h)" and "n \<equiv> unat (header_remaining_length h)"
  assumes inv: "demo_inv w" "vt_up 1 w" and buf: "length buf = 256" and h: "s \<le> 5" and inside: "packet_inside buf k h"
    and ok: "header_type h = AEMLIB_MQTT_PKT_SUBSCRIBE \<longrightarrow> 4 \<le> n \<and> 4 + sub_topic_len (take n (drop s buf)) \<le> n"
    and ans: "broker_answer (header_type h) (header_flags h) (take (unat k) buf) (take n (drop s buf)) (broker_sub w) = (reply, sub)"
  shows "\<exists>w'. broker_process_packet (aemlib_virtual_transport_bind 1) buf h k w = Some w' \<and> sends_out reply w w' \<and> broker_sub w' = sub"
proof -
  have sn: "s + n \<le> 256" using inside buf by (simp add: packet_inside_def s_def n_def)
  consider (connect) "header_type h = AEMLIB_MQTT_PKT_CONNECT" | (subscribe) "header_type h = AEMLIB_MQTT_PKT_SUBSCRIBE"
    | (publish) "header_type h = AEMLIB_MQTT_PKT_PUBLISH"
    | (other) "header_type h \<notin> {AEMLIB_MQTT_PKT_CONNECT, AEMLIB_MQTT_PKT_SUBSCRIBE, AEMLIB_MQTT_PKT_PUBLISH}" by blast
  then show ?thesis
  proof cases
    case connect
    obtain st m w1 where "aemlib_transport_write (aemlib_virtual_transport_bind 1) [0x20, 0x02, 0x00, 0x00] 4 0 w = Some (st, m, w1)"
      "sends_out [0x20, 0x02, 0x00, 0x00] w w1" "broker_sub w1 = broker_sub w"
      by (rule broker_write [OF inv, of 4 "[0x20, 0x02, 0x00, 0x00]"]) simp_all
    then show ?thesis using connect ans by (simp add: broker_process_packet_def broker_answer_def)
  next
    case subscribe
    have *: "4 \<le> n" "4 + sub_topic_len (take n (drop s buf)) \<le> n" using ok subscribe by simp_all
    show ?thesis
      using broker_subscribe_ok [OF inv buf subscribe h [unfolded s_def] sn [unfolded s_def n_def] * [unfolded s_def n_def]] ans subscribe
      by (simp add: broker_answer_def s_def n_def)
  next
    case publish
    have "sub = broker_sub w" using ans publish by (auto simp: broker_answer_def packet_event_def split: if_splits option.splits)
    then show ?thesis using broker_publish_ok [OF inv publish inside] ans by (simp add: s_def n_def)
  next
    case other
    then have "broker_process_packet (aemlib_virtual_transport_bind 1) buf h k w = Some w" "reply = []" "sub = broker_sub w"
      using ans by (auto simp: broker_process_packet_def broker_answer_def packet_event_def split: aemlib_mqtt_packet_type.splits)
    then show ?thesis using sends_out_nothing [OF inv] by simp
  qed
qed

section \<open>One turn\<close>

text \<open>Behind a packet, the rest of the bytes comes to the front of the buffer.\<close>

lemma broker_shift:
  fixes buf and len k :: size_t
  defines "l \<equiv> len - k"
  assumes "length buf = 256" "unat k \<le> unat len" "unat len \<le> 256"
  obtains buf' where "(if 0 < l then mem_move buf 0 (unat k) (unat l) else Some buf) = Some buf'" "length buf' = 256"
    "take (unat l) buf' = drop (unat k) (take (unat len) buf)"
proof -
  have l: "unat l = unat len - unat k" using assms(3) by (simp add: l_def unat_diff_size)
  show thesis
  proof (cases "0 < l")
    case True
    have "unat len - unat k \<le> 256" using assms(4) by simp
    then obtain m where m: "mem_move buf 0 (unat k) (unat l) = Some m" "take (unat l) m = drop (unat k) (take (unat len) buf)"
      using l assms(2-4) by (simp add: mem_move_def mem_copy_def drop_take)
    then show ?thesis using that [of m] True length_mem_move [OF m(1)] assms(2) by simp
  next
    case False
    then show ?thesis using that [of buf] assms(2,3) l by (simp add: word_gt_0)
  qed
qed

text \<open>The loop stops where no complete packet is left.\<close>

lemma broker_loop_stop:
  assumes "unat buf_len \<le> length buf" and stop: "\<And>t f n s. fh_parse (take (unat buf_len) buf) = FH_Ok t f n s \<Longrightarrow> unat buf_len < s + n"
  shows "broker_loop T buf buf_len w = Some (buf, buf_len, w)"
proof -
  obtain h where dec: "aemlib_proto_decode_fixed_header buf buf_len uninit_header = Some (fh_status (fh_parse (take (unat buf_len) buf)), h)"
    and h: "fh_header (fh_parse (take (unat buf_len) buf)) h" using decode_fixed_header_spec [OF assms(1)] by blast
  show ?thesis
  proof (cases "fh_parse (take (unat buf_len) buf)")
    case (FH_Ok t f n s)
    then have "unat (header_size h + ucast (header_remaining_length h)) = s + n" using header_packet_len [OF FH_Ok, of h] h by simp
    then have "buf_len < header_size h + ucast (header_remaining_length h)" using stop [OF FH_Ok] by (simp add: word_less_nat_alt)
    then show ?thesis using dec FH_Ok by (subst broker_loop.simps) (simp add: Let_def)
  qed (use dec in \<open>subst broker_loop.simps, simp\<close>)+
qed

text \<open>Otherwise it processes the first one and goes on with the rest.\<close>

lemma broker_loop_packet:
  assumes inv: "demo_inv w" "vt_up 1 w" and buf: "length buf = 256" "unat buf_len \<le> 256"
    and fh: "fh_parse (take (unat buf_len) buf) = FH_Ok t f n s" "s + n \<le> unat buf_len"
    and ok: "t = AEMLIB_MQTT_PKT_SUBSCRIBE \<longrightarrow> 4 \<le> n \<and> 4 + sub_topic_len (take n (drop s buf)) \<le> n"
    and ans: "broker_answer t f (take (s + n) buf) (take n (drop s buf)) (broker_sub w) = (reply, sub)"
  obtains buf' l w' where "broker_loop (aemlib_virtual_transport_bind 1) buf buf_len w = broker_loop (aemlib_virtual_transport_bind 1) buf' l w'"
    "length buf' = 256" "unat l = unat buf_len - (s + n)" "take (unat l) buf' = drop (s + n) (take (unat buf_len) buf)"
    "sends_out reply w w'" "broker_sub w' = sub"
proof -
  let ?T = "aemlib_virtual_transport_bind 1 :: demo_world aemlib_transport"
  define h where "h = \<lparr>header_type = t, header_flags = f, header_remaining_length = of_nat n, header_size = of_nat s\<rparr>"
  have dec: "aemlib_proto_decode_fixed_header buf buf_len uninit_header = Some (AEMLIB_STATUS_OK, h)"
    using decode_fixed_header_spec [of buf_len buf uninit_header] buf fh(1) by (auto simp: h_def)
  let ?k = "header_size h + ucast (header_remaining_length h)"
  have k: "unat ?k = s + n" using header_packet_len [OF fh(1), of h] by (simp add: h_def)
  have "s + n \<le> unat ?k" "unat ?k \<le> length buf" "length buf < 2 ^ 63" using k fh(2) buf by simp_all
  note hs = decoded_header_inside [OF fh(1) this, folded h_def]
  have s: "2 \<le> s" "s \<le> 5" using fh_parse_bounds [OF fh(1)] by simp_all
  obtain w' where w': "broker_process_packet ?T buf h ?k w = Some w'" "sends_out reply w w'" "broker_sub w' = sub"
    using broker_process_ok [OF inv buf(1) _ hs(3), of reply sub] hs(1,2) s ok ans k by (auto simp: h_def)
  obtain buf' where b: "(if 0 < buf_len - ?k then mem_move buf 0 (unat ?k) (unat (buf_len - ?k)) else Some buf) = Some buf'" "length buf' = 256"
    "take (unat (buf_len - ?k)) buf' = drop (s + n) (take (unat buf_len) buf)"
    by (rule broker_shift [OF buf(1) _ buf(2), of ?k]) (use k fh(2) in simp_all)
  have nz: "buf_len \<noteq> 0" "\<not> buf_len < ?k" using fh(2) s k by (auto simp: word_less_nat_alt)
  have "broker_loop ?T buf buf_len w = broker_loop ?T buf' (buf_len - ?k) w'"
    using dec nz w'(1) b(1) by (subst broker_loop.simps) (simp only: Option.bind.simps prod.case if_False Let_def simp_thms)
  then show thesis using that b(2,3) w'(2,3) k fh(2) by (simp add: unat_diff_size)
qed

lemma broker_loop_ok:
  assumes "demo_inv w" "vt_up 1 w" "length buf = 256" "unat buf_len \<le> 256" "subscribes_ok (take (unat buf_len) buf)"
    and "broker_run (take (unat buf_len) buf) (broker_sub w) = (replies, sub, rest)"
  shows "\<exists>buf' buf_len' w'. broker_loop (aemlib_virtual_transport_bind 1) buf buf_len w = Some (buf', buf_len', w')
    \<and> length buf' = 256 \<and> unat buf_len' \<le> 256 \<and> take (unat buf_len') buf' = rest \<and> sends_out replies w w' \<and> broker_sub w' = sub"
  using assms
proof (induction "unat buf_len" arbitrary: buf buf_len w replies rule: less_induct)
  case less
  let ?bs = "take (unat buf_len) buf"
  have len: "length ?bs = unat buf_len" using less.prems(3,4) by simp
  from less.prems(6) show ?case
  proof (cases rule: broker_run_cases)
    case stop
    then show ?thesis
      using broker_loop_stop [of buf_len buf] less.prems sends_out_nothing [OF less.prems(1,2)] len by auto
  next
    case (packet t f n s reply sub1 replies1)
    have fh: "s + n \<le> unat buf_len" using packet(2) len by simp
    have cut: "take (s + n) ?bs = take (s + n) buf" "take n (drop s ?bs) = take n (drop s buf)"
      using fh by (simp_all add: min_absorb1 drop_take)
    have ok: "t = AEMLIB_MQTT_PKT_SUBSCRIBE \<longrightarrow> 4 \<le> n \<and> 4 + sub_topic_len (take n (drop s buf)) \<le> n" "subscribes_ok (drop (s + n) ?bs)"
      using less.prems(5) packet(1,2) unfolding subscribes_ok.simps [of ?bs] by (simp_all add: cut)
    obtain buf1 l w1 where 1: "broker_loop (aemlib_virtual_transport_bind 1) buf buf_len w = broker_loop (aemlib_virtual_transport_bind 1) buf1 l w1"
      "length buf1 = 256" "unat l = unat buf_len - (s + n)" "take (unat l) buf1 = drop (s + n) ?bs" "sends_out reply w w1" "broker_sub w1 = sub1"
      using broker_loop_packet [OF less.prems(1-4) packet(1) fh ok(1) packet(3) [unfolded cut]] by blast
    have l: "unat l < unat buf_len" "unat l \<le> 256" using 1(3) fh fh_parse_bounds [OF packet(1)] less.prems(4) by simp_all
    have "demo_inv w1" "vt_up 1 w1" using 1(5) by (simp_all add: sends_out_def)
    from less.hyps [OF l(1) this 1(2) l(2), unfolded 1(4,6), OF ok(2) packet(4)] show ?thesis
      unfolding 1(1) packet(5) using sends_out_trans [OF 1(5)] by blast
  qed
qed

text \<open>The read at the head of a turn: it appends what is under way, as far as the buffer has room.\<close>

lemma broker_tick_read:
  assumes inv: "demo_inv w" "vt_up 1 w"
  obtains buf len w1 where "broker_tick (aemlib_virtual_transport_bind 1) w = do {
      (buf, buf_len, w) \<leftarrow> broker_loop (aemlib_virtual_transport_bind 1) buf len w1;
      Some (w\<lparr>broker_buf := buf, broker_buf_len := buf_len\<rparr>)
    }" "length buf = 256" "unat len \<le> 256" "take (unat len) buf = broker_bytes w @ broker_input w"
    "demo_inv w1" "vt_up 1 w1" "vt_cap 1 w1 = vt_cap 1 w" "broker_sub w1 = broker_sub w" "vt_outq 1 w1 = vt_outq 1 w"
    "vt_inq 1 w1 = drop (256 - unat (broker_buf_len w)) (vt_inq 1 w)" "received w1 = received w" "printed w1 = printed w"
proof -
  let ?l = "unat (broker_buf_len w)"
  have b: "length (broker_buf w) = 256" "?l \<le> 256" using inv(1) by (simp_all add: demo_inv_def broker_ok_def)
  define dst where "dst = drop ?l (broker_buf w)"
  have dst: "mem_from (broker_buf w) ?l = Some dst" "length dst = 256 - ?l" using b by (simp_all add: mem_from_def dst_def)
  have len: "unat (256 - broker_buf_len w) = 256 - ?l" using b(2) by (simp add: unat_diff_size)
  have p: "vt_pair 1 0 w" "vt_inv 1 w" using inv(1) vt_pair_commute by (auto simp: demo_inv_def vt_pair_def)
  obtain vt where vt: "vs_endpoint w 1 = Some vt" "vt_connected vt \<noteq> 0" using inv(2) by (auto simp: vt_up_def)
  obtain dst' n w1 where r: "vt_read 1 w dst (256 - broker_buf_len w) 0 = Some (AEMLIB_STATUS_OK, dst', n, w1)"
    "unat n = min (256 - ?l) (length (vt_inq 1 w))"
    using vt_read_all [OF p(2) vt, of "256 - broker_buf_len w" dst 0] dst(2) len by auto
  have w1: "length dst' = 256 - ?l" "take (unat n) dst' = take (unat n) (vt_inq 1 w)" "vt_inq 1 w1 = drop (unat n) (vt_inq 1 w)"
    "vt_outq 1 w1 = vt_outq 1 w"
    using vt_read_ok [OF p(2), of "256 - broker_buf_len w" dst 0] r(1) dst(2) len by auto
  have pair: "vt_pair 0 1 w1" using vt_read_pair [OF p(1) _ r(1)] dst(2) len vt_pair_commute by auto
  have link: "vt_up 1 w1" "vt_cap 1 w1 = vt_cap 1 w"
    using r(1) vt p(2) by (auto simp: vt_read_def vt_up_def vt_cap_def vt_inv_def bind_Some_iff)
  note same = transport_same_vars(1) [OF r(1), unfolded same_vars_def]
  let ?buf = "take ?l (broker_buf w) @ dst'" and ?len = "broker_buf_len w + n"
  have sum: "unat ?len = ?l + unat n" "unat ?len \<le> 256" using r(2) b(2) by (subst unat_add_size, simp_all)+
  have in_n: "take (unat n) (vt_inq 1 w) = take (256 - ?l) (vt_inq 1 w)" "drop (unat n) (vt_inq 1 w) = drop (256 - ?l) (vt_inq 1 w)"
    using r(2) by (simp_all add: min_def)
  show thesis
    using that [of ?buf ?len "w1\<lparr>broker_buf := ?buf\<rparr>"] dst(1) r(1) sum pair link same inv(1) b w1 in_n
    by (simp add: broker_tick_def aemlib_virtual_transport_bind_def vt.wrappers Let_def demo_inv_def broker_ok_def broker_sub_def broker_bytes_def broker_input_def)
qed

lemma broker_tick_ok:
  assumes inv: "demo_inv w" "vt_up 1 w"
    and ok: "subscribes_ok (broker_bytes w @ broker_input w)"
    and run: "broker_run (broker_bytes w @ broker_input w) (broker_sub w) = (replies, sub, rest)"
  shows "\<exists>w'. broker_tick (aemlib_virtual_transport_bind 1) w = Some w' \<and> demo_inv w' \<and> broker_bytes w' = rest \<and> broker_sub w' = sub
    \<and> vt_inq 1 w' = drop (256 - unat (broker_buf_len w)) (vt_inq 1 w) \<and> vt_outq 1 w' = take (vt_cap 1 w) (vt_outq 1 w @ replies)
    \<and> vt_up 1 w' \<and> received w' = received w \<and> printed w' = printed w"
  using inv
proof (rule broker_tick_read)
  fix buf len w1
  let ?T = "aemlib_virtual_transport_bind 1 :: demo_world aemlib_transport"
  assume tick: "broker_tick ?T w = do {
      (buf, buf_len, w) \<leftarrow> broker_loop ?T buf len w1; Some (w\<lparr>broker_buf := buf, broker_buf_len := buf_len\<rparr>) }"
    and b: "length buf = 256" "unat len \<le> 256" "take (unat len) buf = broker_bytes w @ broker_input w"
    and w1: "demo_inv w1" "vt_up 1 w1" "vt_cap 1 w1 = vt_cap 1 w" "broker_sub w1 = broker_sub w" "vt_outq 1 w1 = vt_outq 1 w"
      "vt_inq 1 w1 = drop (256 - unat (broker_buf_len w)) (vt_inq 1 w)" "received w1 = received w" "printed w1 = printed w"
  obtain buf' len' w' where l: "broker_loop ?T buf len w1 = Some (buf', len', w')" "length buf' = 256" "unat len' \<le> 256"
    "take (unat len') buf' = rest" "sends_out replies w1 w'" "broker_sub w' = sub"
    using broker_loop_ok [OF w1(1,2) b(1,2), unfolded b(3) w1(4), OF ok run] by blast
  then show ?thesis
    using tick w1 by (auto simp: sends_out_def demo_inv_def broker_ok_def broker_bytes_def broker_sub_def)
qed

section \<open>The whole stream\<close>

text \<open>The abstract broker does not depend on how the stream is cut.\<close>

lemma broker_run_append:
  "broker_run xs sub = (r1, sub1, rest) \<Longrightarrow> broker_run (rest @ ys) sub1 = (r2, sub2, rest2) \<Longrightarrow>
   broker_run (xs @ ys) sub = (r1 @ r2, sub2, rest2)"
proof (induction xs sub arbitrary: r1 rule: broker_run.induct)
  case (1 xs sub)
  from "1.prems"(1) show ?case
  proof (cases rule: broker_run_cases)
    case (packet t f n s reply sub' r')
    from "1.IH" [OF packet(1,2) packet(3) [symmetric] packet(4) "1.prems"(2)] show ?thesis
      using packet fh_parse_append [of xs ys] by (subst broker_run.simps) simp
  qed (use "1.prems"(2) in simp)
qed

lemma subscribes_ok_append:
  "subscribes_ok (xs @ ys) \<Longrightarrow> broker_run xs sub = (r, sub1, rest) \<Longrightarrow> subscribes_ok xs \<and> subscribes_ok (rest @ ys)"
proof (induction xs sub arbitrary: r rule: broker_run.induct)
  case (1 xs sub)
  from "1.prems"(2) show ?case
  proof (cases rule: broker_run_cases)
    case stop
    then have "subscribes_ok xs" by (subst subscribes_ok.simps) (auto split: fh_result.split dest: leD)
    then show ?thesis using "1.prems"(1) stop by simp
  next
    case (packet t f n s reply sub' r')
    have ok: "t = AEMLIB_MQTT_PKT_SUBSCRIBE \<longrightarrow> 4 \<le> n \<and> 4 + sub_topic_len (take n (drop s xs)) \<le> n" "subscribes_ok (drop (s + n) xs @ ys)"
      using "1.prems"(1) packet(1,2) fh_parse_append [of xs ys] by (subst (asm) subscribes_ok.simps, simp)+
    show ?thesis
      using "1.IH" [OF packet(1,2) packet(3) [symmetric] ok(2) packet(4)] ok(1) packet(1,2) by (subst subscribes_ok.simps) simp
  qed
qed

text \<open>
  A run of the program seen from the broker: its turns, and between them whatever leaves its variables and the pair alone. The run collects the
  bytes that the broker has read and those it has put on the channel, as long as the channel does not fill up.
\<close>

inductive broker_served :: "demo_world \<Rightarrow> byte list \<Rightarrow> byte list \<Rightarrow> demo_world \<Rightarrow> bool" for w0 where
  start: "broker_served w0 [] [] w0"
| other: "broker_served w0 bs out w \<Longrightarrow> broker_bytes w' = broker_bytes w \<Longrightarrow> broker_sub w' = broker_sub w \<Longrightarrow> broker_ok w' \<Longrightarrow>
    vt_pair 0 1 w' \<Longrightarrow> vt_up 1 w' \<Longrightarrow> broker_served w0 bs out w'"
| tick: "broker_served w0 bs out w \<Longrightarrow> broker_tick (aemlib_virtual_transport_bind 1) w = Some w' \<Longrightarrow>
    vt_outq 1 w' = vt_outq 1 w @ sent \<Longrightarrow> length (vt_outq 1 w') < vt_cap 1 w \<Longrightarrow>
    broker_served w0 (bs @ broker_input w) (out @ sent) w'"

lemma broker_served_run:
  assumes "broker_served w0 bs out w" "demo_inv w0" "vt_up 1 w0" "broker_bytes w0 = []" "subscribes_ok bs"
  shows "demo_inv w \<and> vt_up 1 w \<and> broker_run bs (broker_sub w0) = (out, broker_sub w, broker_bytes w)"
  using assms
proof (induction rule: broker_served.induct)
  case start
  then show ?case by (simp add: broker_run.simps)
next
  case (other bs out w w')
  then show ?case by (simp add: demo_inv_def)
next
  case (tick bs out w w' sent)
  obtain out' sub' rest' where r: "broker_run bs (broker_sub w0) = (out', sub', rest')" by (metis prod_cases3)
  note ok = subscribes_ok_append [OF tick.prems(4) r]
  with tick have w: "demo_inv w" "vt_up 1 w" "out' = out" "sub' = broker_sub w" "rest' = broker_bytes w" using r by simp_all
  obtain replies sub rest where run: "broker_run (broker_bytes w @ broker_input w) (broker_sub w) = (replies, sub, rest)" by (metis prod_cases3)
  have w': "demo_inv w'" "vt_up 1 w'" "broker_bytes w' = rest" "broker_sub w' = sub" "vt_outq 1 w' = take (vt_cap 1 w) (vt_outq 1 w @ replies)"
    using broker_tick_ok [OF w(1,2) _ run] ok w(5) tick.hyps(2) by auto
  then have "sent = replies"
    using tick.hyps(3,4) by (cases "length replies \<le> vt_cap 1 w - length (vt_outq 1 w)") auto
  then show ?case using broker_run_append [OF r, of "broker_input w" replies sub rest] run w w' by simp
qed

section \<open>The packets of a client\<close>

text \<open>What the broker answers to the packets of a client.\<close>

fun packet_ok :: "packet \<Rightarrow> bool" where
  "packet_ok (Subscribe pid topic) \<longleftrightarrow> length topic < 2 ^ 16"
| "packet_ok (Publish topic payload) \<longleftrightarrow> length topic < 2 ^ 16 \<and> length (publish_body topic payload) < 2 ^ 28"
| "packet_ok p \<longleftrightarrow> True"

fun broker_reply :: "packet \<Rightarrow> byte list option \<Rightarrow> byte list \<times> byte list option" where
  "broker_reply (Connect k) sub = ([0x20, 0x02, 0x00, 0x00], sub)"
| "broker_reply (Subscribe pid topic) sub = ([0x90, 0x03] @ uint16_be pid @ [0x00], if length topic \<le> 128 then Some topic else sub)"
| "broker_reply (Publish topic payload) sub = (if sub = Some topic then publish_packet (topic, payload) else [], sub)"
| "broker_reply Pingreq sub = ([], sub)"

fun broker_replies :: "packet list \<Rightarrow> byte list option \<Rightarrow> byte list \<times> byte list option" where
  "broker_replies [] sub = ([], sub)"
| "broker_replies (p # ps) sub =
     (case broker_reply p sub of (r, sub) \<Rightarrow> case broker_replies ps sub of (rs, sub) \<Rightarrow> (r @ rs, sub))"

lemma stream_packet:
  fixes body h
  defines "t \<equiv> packet_type_of (drop_bit 4 h)"
  assumes "length body < 2 ^ 28" "validate_mqtt_flags t (h AND 0x0F) = AEMLIB_STATUS_OK"
  shows "broker_answer t (h AND 0x0F) (mqtt_packet h body) body sub = (reply, sub1) \<Longrightarrow> broker_run rest sub1 = (rs, sub2, left) \<Longrightarrow>
      broker_run (mqtt_packet h body @ rest) sub = (reply @ rs, sub2, left)"
    and "subscribes_ok (mqtt_packet h body @ rest) \<longleftrightarrow>
      (t = AEMLIB_MQTT_PKT_SUBSCRIBE \<longrightarrow> 4 \<le> length body \<and> 4 + sub_topic_len body \<le> length body) \<and> subscribes_ok rest"
proof -
  let ?s = "1 + length (rl_bytes (length body))" and ?bs = "mqtt_packet h body @ rest"
  have parse: "fh_parse ?bs = FH_Ok t (h AND 0x0F) (length body) ?s"
    using fh_parse_packet [of body h rest] assms by simp
  have cut: "?s + length body \<le> length ?bs" "take (?s + length body) ?bs = mqtt_packet h body" "take (length body) (drop ?s ?bs) = body"
    "drop (?s + length body) ?bs = rest" by (simp_all add: mqtt_packet_def)
  show "broker_run ?bs sub = (reply @ rs, sub2, left)"
    if "broker_answer t (h AND 0x0F) (mqtt_packet h body) body sub = (reply, sub1)" "broker_run rest sub1 = (rs, sub2, left)"
    unfolding broker_run.simps [of ?bs] parse fh_result.case cut(2-4) using cut(1) that by simp
  show "subscribes_ok ?bs \<longleftrightarrow> (t = AEMLIB_MQTT_PKT_SUBSCRIBE \<longrightarrow> 4 \<le> length body \<and> 4 + sub_topic_len body \<le> length body) \<and> subscribes_ok rest"
    unfolding subscribes_ok.simps [of ?bs] parse fh_result.case cut(2-4) using cut(1) by simp
qed

lemma sub_topic_len_body:
  assumes "length topic < 2 ^ 16"
  shows "sub_topic_len (subscribe_body pid topic) = length topic"
  using uint16_prefix [OF assms] by (simp add: sub_topic_len_def unat_topic_length_at subscribe_body_def uint16_be_def utf8_def)

lemma broker_answer_packet:
  assumes "packet_ok p"
  obtains h body where "packet_bytes p = mqtt_packet h body" "length body < 2 ^ 28"
    "validate_mqtt_flags (packet_type_of (drop_bit 4 h)) (h AND 0x0F) = AEMLIB_STATUS_OK"
    "broker_answer (packet_type_of (drop_bit 4 h)) (h AND 0x0F) (mqtt_packet h body) body sub = broker_reply p sub"
    "packet_type_of (drop_bit 4 h) = AEMLIB_MQTT_PKT_SUBSCRIBE \<longrightarrow> 4 \<le> length body \<and> 4 + sub_topic_len body \<le> length body"
proof (cases p)
  case (Connect k)
  then show ?thesis
    using that [of "0x10" "connect_body [] k"] by (simp add: connect_packet_def packet_type_of_def broker_answer_def connect_body_def utf8_def)
next
  case (Subscribe pid topic)
  have "subscribe_body pid topic ! 0 = ucast (drop_bit 8 pid)" "subscribe_body pid topic ! 1 = ucast pid"
    "drop 4 (subscribe_body pid topic) = topic @ [0]"
    by (simp_all add: subscribe_body_def uint16_be_def utf8_def)
  then show ?thesis
    using that [of "0x82" "subscribe_body pid topic"] Subscribe assms sub_topic_len_body [of topic pid]
    by (simp add: subscribe_packet_def packet_type_of_def broker_answer_def uint16_be_def subscribe_body_def utf8_def)
next
  case (Publish topic payload)
  then show ?thesis
    using that [of "0x30" "publish_body topic payload"] assms publish_parse_body [of topic payload]
    by (simp add: publish_packet_def packet_type_of_def broker_answer_def packet_event_def header_qos_def)
next
  case Pingreq
  then show ?thesis
    using that [of "0xC0" "[]"] by (simp add: mqtt_packet_def rl_bytes.simps packet_type_of_def broker_answer_def packet_event_def)
qed

lemma client_packets_served:
  assumes "list_all packet_ok ps" "broker_replies ps sub = (rs, sub')"
  shows "broker_run (concat (map packet_bytes ps)) sub = (rs, sub', []) \<and> subscribes_ok (concat (map packet_bytes ps))"
  using assms
proof (induction ps arbitrary: sub rs)
  case Nil
  then show ?case by (simp add: broker_run.simps subscribes_ok.simps)
next
  case (Cons p ps)
  obtain r sub1 where r: "broker_reply p sub = (r, sub1)" by fastforce
  obtain rs1 where rs: "broker_replies ps sub1 = (rs1, sub')" "rs = r @ rs1"
    using Cons.prems(2) r by (auto split: prod.splits)
  have IH: "broker_run (concat (map packet_bytes ps)) sub1 = (rs1, sub', [])" "subscribes_ok (concat (map packet_bytes ps))"
    using Cons.IH [OF _ rs(1)] Cons.prems(1) by simp_all
  have "packet_ok p" using Cons.prems(1) by simp
  then show ?case
    by (rule broker_answer_packet [of p sub]) (use stream_packet IH r rs(2) in simp)
qed


section \<open>Properties of the broker\<close>

text \<open>
  C20: the broker serves its client. However the bytes of the client are cut into reads, as long as its SUBSCRIBE packets hold the topics they
  announce and the channel to the client does not fill up: the broker has answered exactly as the abstract broker does in one pass
  over all the bytes it has read, it is subscribed to the same topic, it has buffered exactly the packet that is not complete yet, and its next turn
  returns, reading and writing only inside its static arrays, and keeps them within bounds.
\<close>

theorem broker_serves_stream:
  assumes "broker_served w0 bs out w" "vt_pair 0 1 w0" "broker_ok w0" "vt_up 1 w0" "broker_bytes w0 = []"
    and "subscribes_ok (bs @ broker_input w)"
  shows "broker_run bs (broker_sub w0) = (out, broker_sub w, broker_bytes w)
    \<and> (\<exists>w'. broker_tick (aemlib_virtual_transport_bind 1) w = Some w' \<and> vt_pair 0 1 w' \<and> broker_ok w')"
proof -
  have inv: "demo_inv w0" using assms(2,3) by (simp add: demo_inv_def)
  obtain out' sub' rest' where r: "broker_run bs (broker_sub w0) = (out', sub', rest')" by (metis prod_cases3)
  note ok = subscribes_ok_append [OF assms(6) r]
  then have w: "demo_inv w" "vt_up 1 w" "broker_run bs (broker_sub w0) = (out, broker_sub w, broker_bytes w)"
    using broker_served_run [OF assms(1) inv assms(4,5)] by simp_all
  obtain replies sub rest where "broker_run (broker_bytes w @ broker_input w) (broker_sub w) = (replies, sub, rest)" by (metis prod_cases3)
  from broker_tick_ok [OF w(1,2) _ this] show ?thesis using ok r w(3) by (auto simp: demo_inv_def)
qed

text \<open>A world in which \<open>bs\<close> is under way to the broker.\<close>

definition demo_broker_world :: "byte list \<Rightarrow> demo_world" where
  "demo_broker_world bs = (sample_world [])\<lparr>vs_channel := (vs_channel (sample_world []))(
     0 \<mapsto> \<lparr>ch_buf = bs @ replicate (512 - length bs) 0, ch_buf_size = 512, ch_head = 0, ch_len = of_nat (length bs)\<rparr>)\<rparr>"

lemma demo_broker_world_ok:
  assumes "length bs \<le> 512"
  shows "vt_pair 0 1 (demo_broker_world bs)" "broker_ok (demo_broker_world bs)" "vt_up 1 (demo_broker_world bs)" "vt_inq 1 (demo_broker_world bs) = bs"
    "vt_outq 1 (demo_broker_world bs) = []" "vt_cap 1 (demo_broker_world bs) = 64" "broker_bytes (demo_broker_world bs) = []"
    "broker_input (demo_broker_world bs) = take 256 bs" "broker_sub (demo_broker_world bs) = None"
proof -
  let ?ch = "\<lparr>ch_buf = bs @ replicate (512 - length bs) 0, ch_buf_size = 512, ch_head = 0, ch_len = of_nat (length bs)\<rparr>"
  let ?ch1 = "\<lparr>ch_buf = replicate 64 0, ch_buf_size = 64, ch_head = 0, ch_len = 0\<rparr>"
  have l: "unat (of_nat (length bs) :: size_t) = length bs" using assms by (intro unat_of_nat_size) simp
  have ch: "chan_inv ?ch" "chan_inv ?ch1" using l assms by (simp_all add: chan_inv_def)
  have bytes: "chan_bytes ?ch = bs" using l assms by (auto simp: chan_bytes_def ring_at_def nth_append intro!: nth_equalityI)
  show "vt_pair 0 1 (demo_broker_world bs)"
    by (intro vt_pairI [of 0 1 _ "\<lparr>vt_tx = 0, vt_rx = 1, vt_connected = 1\<rparr>" "\<lparr>vt_tx = 1, vt_rx = 0, vt_connected = 1\<rparr>" ?ch1 ?ch])
       (simp_all add: demo_broker_world_def sample_world_def ch)
  show in1: "vt_inq 1 (demo_broker_world bs) = bs" by (simp add: demo_broker_world_def sample_world_def vt_inq_def bytes)
  show "broker_ok (demo_broker_world bs)" "vt_up 1 (demo_broker_world bs)" "vt_outq 1 (demo_broker_world bs) = []" "vt_cap 1 (demo_broker_world bs) = 64"
    "broker_bytes (demo_broker_world bs) = []" "broker_sub (demo_broker_world bs) = None"
    by (simp_all add: demo_broker_world_def sample_world_def broker_ok_def vt_up_def vt_outq_def chan_bytes_def vt_cap_def broker_bytes_def broker_sub_def)
  show "broker_input (demo_broker_world bs) = take 256 bs" using in1 by (simp add: broker_input_def) (simp add: demo_broker_world_def sample_world_def)
qed

text \<open>One turn on a stream whose answers fit the channel.\<close>

lemma demo_broker_world_turn:
  assumes "length bs \<le> 256" "subscribes_ok bs" "broker_run bs None = (out, sub, rest)" "length out < 64"
  shows "\<exists>w. broker_served (demo_broker_world bs) bs out w \<and> broker_input w = [] \<and> broker_bytes w = rest"
proof -
  let ?w0 = "demo_broker_world bs"
  have "length bs \<le> 512" using assms(1) by simp
  note w0 = demo_broker_world_ok [OF this]
  have input: "broker_input ?w0 = bs" using w0(8) assms(1) by simp
  have len: "unat (broker_buf_len ?w0) = 0" by (simp add: demo_broker_world_def sample_world_def)
  obtain w where w: "broker_tick (aemlib_virtual_transport_bind 1) ?w0 = Some w" "vt_inq 1 w = []" "vt_outq 1 w = out" "broker_bytes w = rest"
    using broker_tick_ok [of ?w0 out sub rest] w0 input len assms by (auto simp: demo_inv_def)
  have "broker_served ?w0 ([] @ broker_input ?w0) ([] @ out) w"
    by (rule broker_served.tick [OF broker_served.start w(1)]) (use w(3) w0 assms(4) in simp_all)
  then show ?thesis using input w by (auto simp: broker_input_def)
qed

text \<open>A subscription to \<^verbatim>\<open>t\<close> and a publication on it, with and without the first byte of the next packet.\<close>

definition sample_packets :: "packet list" where
  "sample_packets = [Subscribe 1 [0x74], Publish [0x74] [0x78]]"

definition sample_stream :: "byte list" where
  "sample_stream = [0x82, 6, 0, 1, 0, 1, 0x74, 0, 0x30, 4, 0, 1, 0x74, 0x78]"

definition sample_answers :: "byte list" where
  "sample_answers = [0x90, 3, 0, 1, 0, 0x30, 4, 0, 1, 0x74, 0x78]"

lemma sample_stream_run:
  "subscribes_ok (sample_stream @ [0x30])" "broker_run (sample_stream @ [0x30]) None = (sample_answers, Some [0x74], [0x30])"
  "subscribes_ok sample_stream" "broker_run sample_stream None = (sample_answers, Some [0x74], [])"
  "concat (map packet_bytes sample_packets) = sample_stream" "length sample_stream = 14" "length sample_answers = 11"
  by code_simp+

lemma sample_packets_ok: "list_all packet_ok sample_packets"
  by (simp add: sample_packets_def publish_body_def utf8_def)

theorem broker_serves_stream_witness:
  "\<exists>w. broker_served (demo_broker_world (sample_stream @ [0x30])) (sample_stream @ [0x30]) sample_answers w \<and> broker_bytes w = [0x30]
    \<and> broker_run (sample_stream @ [0x30]) None = (sample_answers, broker_sub w, broker_bytes w)
    \<and> (\<exists>w'. broker_tick (aemlib_virtual_transport_bind 1) w = Some w')"
proof -
  let ?bs = "sample_stream @ [0x30]"
  obtain w where w: "broker_served (demo_broker_world ?bs) ?bs sample_answers w" "broker_input w = []" "broker_bytes w = [0x30]"
    using demo_broker_world_turn [OF _ sample_stream_run(1,2)] sample_stream_run(6,7) by auto
  then show ?thesis
    using broker_serves_stream [OF w(1)] demo_broker_world_ok [of ?bs] sample_stream_run(1,6) by auto
qed

text \<open>
  C21: the broker and the client understand each other. Let the client send any sequence of CONNECT, SUBSCRIBE, PUBLISH and PINGREQ packets as its encoders write them
  (topics below 65536 bytes, bodies that the remaining length can announce), cut anyhow, while the channel back does not fill up. Then no turn of the
  broker leaves its arrays, what it has answered so far is a prefix of the answers that the packets call for (CONNACK, the SUBACK with the identifier
  of the SUBSCRIBE, the publications on the topic subscribed last, unchanged), and when it has read everything, it has given all of them and has
  nothing buffered.
\<close>

theorem broker_serves_client:
  assumes "broker_served w0 bs out w" "vt_pair 0 1 w0" "broker_ok w0" "vt_up 1 w0" "broker_bytes w0 = []"
    and "list_all packet_ok ps" "concat (map packet_bytes ps) = bs @ broker_input w @ later"
  shows "(\<exists>w'. broker_tick (aemlib_virtual_transport_bind 1) w = Some w' \<and> vt_pair 0 1 w' \<and> broker_ok w')
    \<and> (\<exists>more. fst (broker_replies ps (broker_sub w0)) = out @ more)
    \<and> (bs = concat (map packet_bytes ps) \<longrightarrow> broker_replies ps (broker_sub w0) = (out, broker_sub w) \<and> broker_bytes w = [])"
proof -
  have inv: "demo_inv w0" using assms(2,3) by (simp add: demo_inv_def)
  obtain rs sub where rs: "broker_replies ps (broker_sub w0) = (rs, sub)" by fastforce
  note all = client_packets_served [OF assms(6) rs]
  obtain out1 sub1 rest1 where r1: "broker_run bs (broker_sub w0) = (out1, sub1, rest1)" by (metis prod_cases3)
  note ok = subscribes_ok_append [OF _ r1, of "broker_input w @ later"]
  have w: "demo_inv w" "vt_up 1 w" "out1 = out" "sub1 = broker_sub w" "rest1 = broker_bytes w"
    using broker_served_run [OF assms(1) inv assms(4,5)] ok all assms(7) r1 by auto
  obtain out2 sub2 rest2 where r2: "broker_run (broker_bytes w @ broker_input w) (broker_sub w) = (out2, sub2, rest2)" by (metis prod_cases3)
  have "subscribes_ok ((broker_bytes w @ broker_input w) @ later)" using ok all assms(7) w(5) by simp
  from broker_tick_ok [OF w(1,2) _ r2] subscribes_ok_append [OF this r2]
  have tick: "\<exists>w'. broker_tick (aemlib_virtual_transport_bind 1) w = Some w' \<and> vt_pair 0 1 w' \<and> broker_ok w'" by (auto simp: demo_inv_def)
  obtain out3 sub3 rest3 where r3: "broker_run (broker_bytes w @ broker_input w @ later) (broker_sub w) = (out3, sub3, rest3)" by (metis prod_cases3)
  have more: "\<exists>more. fst (broker_replies ps (broker_sub w0)) = out @ more"
    using broker_run_append [OF r1, of "broker_input w @ later" out3 sub3 rest3] r3 w all assms(7) rs by auto
  have "broker_replies ps (broker_sub w0) = (out, broker_sub w) \<and> broker_bytes w = []" if "bs = concat (map packet_bytes ps)"
    using that all r1 rs w by simp
  with tick more show ?thesis by blast
qed

theorem broker_serves_client_witness:
  "\<exists>w. broker_served (demo_broker_world sample_stream) sample_stream sample_answers w
    \<and> broker_replies sample_packets None = (sample_answers, broker_sub w) \<and> (\<exists>w'. broker_tick (aemlib_virtual_transport_bind 1) w = Some w')"
proof -
  obtain w where w: "broker_served (demo_broker_world sample_stream) sample_stream sample_answers w" "broker_input w = []"
    using demo_broker_world_turn [OF _ sample_stream_run(3,4)] sample_stream_run(6,7) by auto
  then show ?thesis
    using broker_serves_client [OF w(1), of sample_packets "[]"] demo_broker_world_ok [of sample_stream] sample_stream_run(5,6) sample_packets_ok by auto
qed

text \<open>
  C36: the broker reads behind its buffer. When a turn starts with an empty buffer and reads a SUBSCRIBE packet that fills the buffer, whose topic length
  exceeds what is left of the packet and which has no zero byte behind its fixed header, \<^verbatim>\<open>printf\<close> runs over the end of the static array: the
  turn has undefined behaviour.
\<close>

theorem broker_tick_overreads:
  assumes "vt_pair 0 1 w" "broker_ok w" "vt_up 1 w" "broker_bytes w = []"
    and "take 256 (vt_inq 1 w) = [0x82, 0xFD, 0x01] @ body" "length body = 253" "0 \<notin> set body" "249 < sub_topic_len body"
  shows "broker_tick (aemlib_virtual_transport_bind 1) w = None"
proof -
  have l: "unat (broker_buf_len w) = 0" using assms(2,4) by (auto simp: broker_bytes_def broker_ok_def)
  then have input: "broker_bytes w @ broker_input w = [0x82, 0xFD, 0x01] @ body" using assms(4,5) by (simp add: broker_input_def)
  let ?T = "aemlib_virtual_transport_bind 1 :: demo_world aemlib_transport"
  obtain buf len w1 where tick: "broker_tick ?T w = do {
      (buf, buf_len, w) \<leftarrow> broker_loop ?T buf len w1; Some (w\<lparr>broker_buf := buf, broker_buf_len := buf_len\<rparr>) }"
    and b: "length buf = 256" "unat len \<le> 256" "take (unat len) buf = [0x82, 0xFD, 0x01] @ body"
    by (rule broker_tick_read [of w]) (use assms(1-3) input in \<open>auto simp: demo_inv_def\<close>)
  have "unat len = 256" using arg_cong [OF b(3), of length] b(1,2) assms(6) by simp
  then have len: "unat len = 256" "len = 256" and buf: "buf = [0x82, 0xFD, 0x01] @ body" using b by (simp_all add: word_unat_eq_iff)
  have fh: "fh_parse buf = FH_Ok AEMLIB_MQTT_PKT_SUBSCRIBE 2 253 3"
    unfolding buf by (simp add: packet_type_of_def)
  obtain h where dec: "aemlib_proto_decode_fixed_header buf len uninit_header = Some (AEMLIB_STATUS_OK, h)"
    and h: "h = \<lparr>header_type = AEMLIB_MQTT_PKT_SUBSCRIBE, header_flags = 2, header_remaining_length = 253, header_size = 3\<rparr>"
    using decode_fixed_header_spec [of len buf uninit_header] b(1) len fh by auto
  have nth: "buf ! (i + 3) = body ! i" for i by (simp add: buf nth_append)
  have r: "mem_read buf 3 = Some (body ! 0)" "mem_read buf 4 = Some (body ! 1)" "mem_read buf 5 = Some (body ! 2)" "mem_read buf 6 = Some (body ! 3)"
    using b(1) nth [of 0] nth [of 1] nth [of 2] nth [of 3] by (simp_all add: mem_read_def)
  define tl where "tl = topic_length_at body 2"
  have tl: "push_bit 8 (ucast (body ! 2)) OR ucast (body ! 3) = tl" "249 < unat tl"
    using assms(8) by (simp_all add: tl_def topic_length_at_def sub_topic_len_def)
  have "printf_str buf 7 (unat tl) = None"
    using tl(2) b(1) assms(7) by (auto simp: printf_str_def buf dest: in_set_dropD)
  then have "broker_process_packet ?T buf h 256 w1 = None"
    using r tl by (simp add: broker_process_packet_def h word_le_nat_alt)
  then have "broker_loop ?T buf len w1 = None" using dec len(2) h by (subst broker_loop.simps) simp
  then show ?thesis using tick by simp
qed

theorem broker_tick_overreads_witness:
  "broker_tick (aemlib_virtual_transport_bind 1) (demo_broker_world ([0x82, 0xFD, 0x01] @ replicate 253 0xFF)) = None"
  using broker_tick_overreads [of "demo_broker_world ([0x82, 0xFD, 0x01] @ replicate 253 0xFF)" "replicate 253 0xFF"]
    demo_broker_world_ok [of "[0x82, 0xFD, 0x01] @ replicate 253 0xFF"]
  by (simp add: sub_topic_len_def unat_topic_length_at)

end
