(* ===== verification/Aem_Demo_Run.thy ===== *)
theory Aem_Demo_Run
  imports Aem_Demo_Broker
begin

text \<open>
  The run of \<^verbatim>\<open>examples/pubsub_demo.c\<close>: the program succeeds for every content of its uninitialised variables.
\<close>

section \<open>The program\<close>

text \<open>The world in which \<^verbatim>\<open>main\<close> starts: the static variables are zero, channels and endpoints are not initialised yet.\<close>

definition demo_start :: "aemlib_virtual_channel \<Rightarrow> aemlib_virtual_channel \<Rightarrow> aemlib_virtual_transport \<Rightarrow> aemlib_virtual_transport \<Rightarrow> int \<Rightarrow> demo_world" where
  "demo_start ch_c2b ch_b2c vt_client vt_broker r = \<lparr>
     vs_channel = [0 \<mapsto> ch_c2b, 1 \<mapsto> ch_b2c], vs_endpoint = [0 \<mapsto> vt_client, 1 \<mapsto> vt_broker],
     broker_topic = replicate 128 0, broker_topic_len = 0, broker_subscribed = 0,
     broker_buf = replicate 256 0, broker_buf_len = 0, received = r, printed = []\<rparr>"

text \<open>The run by evaluation, over arrays whose cells are the values of unspecified functions.\<close>

lemma demo_main_cells:
  "map_option (\<lambda>(code, w). (code, printed w))
     (demo_main (map f [0..511 :: int]) (map g [0..511 :: int]) (map h [0..255 :: int]) (map k [0..255 :: int]) client
       (demo_start \<lparr>ch_buf = b0, ch_buf_size = s0, ch_head = h0, ch_len = l0\<rparr> \<lparr>ch_buf = b1, ch_buf_size = s1, ch_head = h1, ch_len = l1\<rparr>
          \<lparr>vt_tx = t0, vt_rx = r0, vt_connected = c0\<rparr> \<lparr>vt_tx = t1, vt_rx = r1, vt_connected = c1\<rparr> r))
   = Some (0, [(DEMO_TOPIC, DEMO_PAYLOAD)])"
  by code_simp

lemma list_as_cells: "int (length xs) = n + 1 \<Longrightarrow> map (\<lambda>i. xs ! nat i) [0..n] = xs"
  by (rule nth_equalityI) auto

text \<open>
  C19: the demonstration succeeds. Whatever its uninitialised arrays, channels, endpoints and its uninitialised client hold, the program exits with code 0, and the
  callback has been given exactly one message, with the topic and the payload that the client published: the connection was opened, CONNECT
  answered by CONNACK, the subscription recorded, and the publication echoed by the broker and delivered once.
\<close>

theorem demo_main_echo:
  assumes "length chan_c2b = 512" "length chan_b2c = 512" "length tx_buf = 256" "length rx_buf = 256"
  shows "map_option (\<lambda>(code, w). (code, printed w)) (demo_main chan_c2b chan_b2c tx_buf rx_buf client (demo_start ch_c2b ch_b2c vt_client vt_broker r))
    = Some (0, [(DEMO_TOPIC, DEMO_PAYLOAD)])"
proof -
  have "map (\<lambda>i. chan_c2b ! nat i) [0..511] = chan_c2b" "map (\<lambda>i. chan_b2c ! nat i) [0..511] = chan_b2c"
    "map (\<lambda>i. tx_buf ! nat i) [0..255] = tx_buf" "map (\<lambda>i. rx_buf ! nat i) [0..255] = rx_buf"
    using assms by (simp_all only: list_as_cells [where n = 511] list_as_cells [where n = 255])
  then show ?thesis
    using demo_main_cells [of "\<lambda>i. chan_c2b ! nat i" "\<lambda>i. chan_b2c ! nat i" "\<lambda>i. tx_buf ! nat i" "\<lambda>i. rx_buf ! nat i" client]
    by (cases ch_c2b; cases ch_b2c; cases vt_client; cases vt_broker) (simp only:)
qed

definition stale_channel :: aemlib_virtual_channel where
  "stale_channel = \<lparr>ch_buf = [1, 2], ch_buf_size = 300, ch_head = 7, ch_len = 9\<rparr>"

definition stale_endpoint :: aemlib_virtual_transport where
  "stale_endpoint = \<lparr>vt_tx = 4, vt_rx = 4, vt_connected = 1\<rparr>"

theorem demo_main_echo_witness:
  "length (replicate 512 (7 :: byte)) = 512 \<and> map_option (\<lambda>(code, w). (code, printed w))
     (demo_main (replicate 512 7) (replicate 512 8) (replicate 256 9) (replicate 256 10) zero_client
       (demo_start stale_channel stale_channel stale_endpoint stale_endpoint 1)) = Some (0, [(DEMO_TOPIC, DEMO_PAYLOAD)])"
  using demo_main_echo [of "replicate 512 7" "replicate 512 8" "replicate 256 9" "replicate 256 10" zero_client] by (simp only: length_replicate)

end
