(* ===== verification/Aem_Log.thy ===== *)
theory Aem_Log
  imports Aem_Prelude
begin

text \<open>
  Logging (\<^verbatim>\<open>core/log.c\<close>, \<^verbatim>\<open>include/aemlib/log.h\<close>, \<^verbatim>\<open>include/aemlib/config.h\<close>): the levels, the callback,
  the two emitters with their fixed buffers, and the conditional compilation around them. The
  preprocessor's evaluation of the \<^verbatim>\<open>#if\<close> lines is part of the model, since it decides which code there
  is: under the repository's own configuration every emitter is compiled to an immediate return, so the
  models of the core and of the client leave their log calls out.
\<close>

section \<open>Conditional compilation\<close>

text \<open>
  The operands that occur in the \<^verbatim>\<open>#if\<close> lines, and their value: object-like macros are expanded (a name
  is not expanded again inside its own expansion), an identifier that is left over counts as 0.
\<close>

datatype pp_token = PP_Number int | PP_Identifier string

type_synonym pp_macros = "(string \<times> pp_token) list"

function pp_value :: "pp_macros \<Rightarrow> pp_token \<Rightarrow> int" where
  "pp_value ms (PP_Number n) = n"
| "pp_value ms (PP_Identifier x) =
     (case map_of ms x of
        None \<Rightarrow> 0
      | Some t \<Rightarrow> pp_value (filter (\<lambda>m. fst m \<noteq> x) ms) t)"
  by pat_completeness auto
termination
proof (relation "measure (\<lambda>(ms, t). length ms)", goal_cases)
  case (2 ms x t)
  then have "(x, t) \<in> set ms" by (auto dest: map_of_SomeD)
  then show ?case by (auto intro!: length_filter_less)
qed simp

text \<open>The definitions in force when \<^verbatim>\<open>log.h\<close> and \<^verbatim>\<open>log.c\<close> are compiled.\<close>

definition config_h :: pp_macros where
  "config_h = [(''AEMLIB_LOG_LEVEL'', PP_Identifier ''AEMLIB_LOG_INFO'')]"

definition log_h :: "pp_macros \<Rightarrow> pp_macros" where
  "log_h ms =
     (if map_of ms ''AEMLIB_LOG_LEVEL'' = None
      then (''AEMLIB_LOG_LEVEL'', PP_Identifier ''AEMLIB_LOG_INFO'') # ms else ms)"

section \<open>Levels and the callback\<close>

datatype aemlib_log_level =
    AEMLIB_LOG_NONE
  | AEMLIB_LOG_ERROR
  | AEMLIB_LOG_INFO
  | AEMLIB_LOG_DEBUG
  | AEMLIB_LOG_STRAY int

text \<open>The callback gets the objects its two string arguments point to.\<close>

type_synonym 'w aemlib_log_fn = "aemlib_log_level \<Rightarrow> mem \<Rightarrow> mem \<Rightarrow> 'w \<Rightarrow> 'w"

definition ascii :: "string \<Rightarrow> byte list" where
  "ascii s = map (\<lambda>c. of_nat (of_char c)) s"

fun aemlib_log_level_str :: "aemlib_log_level \<Rightarrow> mem" where
  "aemlib_log_level_str AEMLIB_LOG_ERROR = cstring (ascii ''ERROR'')"
| "aemlib_log_level_str AEMLIB_LOG_INFO = cstring (ascii ''INFO'')"
| "aemlib_log_level_str AEMLIB_LOG_DEBUG = cstring (ascii ''DEBUG'')"
| "aemlib_log_level_str _ = cstring (ascii ''NONE'')"

text \<open>\<^verbatim>\<open>g_aemlib_log_callback\<close> is passed and returned as a state of its own.\<close>

definition aemlib_set_log_callback ::
    "'w aemlib_log_fn option \<Rightarrow> 'w aemlib_log_fn option \<Rightarrow> 'w aemlib_log_fn option" where
  "aemlib_set_log_callback fn g = fn"

section \<open>Emitters\<close>

text \<open>
  \<^verbatim>\<open>vsnprintf(buf, size, fmt, args)\<close>, where \<open>text\<close> is what \<^verbatim>\<open>fmt\<close> and \<^verbatim>\<open>args\<close> are formatted to
  (\<^term>\<open>None\<close>: an encoding error, a negative result, and the buffer is left unspecified, here as it was).
  The buffer gets the text up to its last byte and a terminating NUL.
\<close>

definition vsnprintf :: "mem \<Rightarrow> nat \<Rightarrow> byte list option \<Rightarrow> (bool \<times> mem) option" where
  "vsnprintf buf n text =
     (case text of
        None \<Rightarrow> Some (False, buf)
      | Some s \<Rightarrow>
          if n = 0 then Some (True, buf)
          else do {
            let s' = take (n - 1) s @ [0];
            buf \<leftarrow> mem_copy buf 0 s' 0 (length s');
            Some (True, buf)
          })"

text \<open>The bytes of the C string that a pointer to the start of an object denotes.\<close>

definition cstr :: "mem \<Rightarrow> byte list option" where
  "cstr m = map_option (\<lambda>n. take n m) (strlen_from m)"

definition log_module :: "mem option \<Rightarrow> mem" where
  "log_module module = (case module of None \<Rightarrow> [0] | Some m \<Rightarrow> m)"

text \<open>The uninitialised local arrays are arguments (\<open>buffer\<close>, \<open>msg_buf\<close>, \<open>full_buf\<close>).\<close>

definition aemlib_log_emit_internal ::
    "'w aemlib_log_fn \<Rightarrow> mem \<Rightarrow> aemlib_log_level \<Rightarrow> mem option \<Rightarrow> byte list option \<Rightarrow> 'w \<Rightarrow> 'w option" where
  "aemlib_log_emit_internal callback buffer level module text w = do {
     (ok, buffer) \<leftarrow> vsnprintf buffer 128 text;
     if \<not> ok then Some (callback level (log_module module) (cstring (ascii ''log formatting error'')) w)
     else do {
       buffer \<leftarrow> mem_write buffer (128 - 1) 0;
       Some (callback level (log_module module) buffer w)
     }
   }"

definition aemlib_log_emit ::
    "pp_macros \<Rightarrow> 'w aemlib_log_fn option \<Rightarrow> mem \<Rightarrow> aemlib_log_level \<Rightarrow> mem option \<Rightarrow> byte list option \<Rightarrow> 'w \<Rightarrow> 'w option" where
  "aemlib_log_emit macros g buffer level module text w =
     (if pp_value macros (PP_Identifier ''AEMLIB_LOG_LEVEL'') = pp_value macros (PP_Identifier ''AEMLIB_LOG_NONE'')
      then Some w
      else case g of
          None \<Rightarrow> Some w
        | Some callback \<Rightarrow> aemlib_log_emit_internal callback buffer level module text w)"

definition aemlib_log_emit_prefixed ::
    "pp_macros \<Rightarrow> 'w aemlib_log_fn option \<Rightarrow> mem \<Rightarrow> mem \<Rightarrow> aemlib_log_level \<Rightarrow> mem option \<Rightarrow> byte list option \<Rightarrow> 'w \<Rightarrow> 'w option" where
  "aemlib_log_emit_prefixed macros g msg_buf full_buf level module text w =
     (if pp_value macros (PP_Identifier ''AEMLIB_LOG_LEVEL'') = pp_value macros (PP_Identifier ''AEMLIB_LOG_NONE'')
      then Some w
      else case g of
          None \<Rightarrow> Some w
        | Some callback \<Rightarrow> do {
            (ok, msg_buf) \<leftarrow> vsnprintf msg_buf 96 text;
            if \<not> ok then Some (callback level (log_module module) (cstring (ascii ''log formatting error'')) w)
            else do {
              msg_buf \<leftarrow> mem_write msg_buf (96 - 1) 0;
              l \<leftarrow> cstr (aemlib_log_level_str level);
              m \<leftarrow> cstr (log_module module);
              s \<leftarrow> cstr msg_buf;
              (_, full_buf) \<leftarrow> vsnprintf full_buf 128 (Some (ascii ''['' @ l @ ascii ''] '' @ m @ ascii '': '' @ s));
              full_buf \<leftarrow> mem_write full_buf (128 - 1) 0;
              Some (callback level (log_module module) full_buf w)
            }
          })"

text \<open>
  The macros \<^verbatim>\<open>AEMLIB_LOG_ERROR\<close>, \<^verbatim>\<open>AEMLIB_LOG_INFO\<close> and \<^verbatim>\<open>AEMLIB_LOG_DEBUG\<close>; \<open>name\<close> is the enumerator in
  their \<^verbatim>\<open>#if\<close> line.
\<close>

definition AEMLIB_LOG_macro ::
    "pp_macros \<Rightarrow> string \<Rightarrow> aemlib_log_level \<Rightarrow> 'w aemlib_log_fn option \<Rightarrow> mem \<Rightarrow> mem \<Rightarrow> byte list option \<Rightarrow> 'w \<Rightarrow> 'w option" where
  "AEMLIB_LOG_macro macros name level g buffer module text w =
     (if pp_value macros (PP_Identifier ''AEMLIB_LOG_LEVEL'') \<ge> pp_value macros (PP_Identifier name)
      then aemlib_log_emit macros g buffer level (Some module) text w else Some w)"

section \<open>Messages\<close>

lemma strlen_from_terminated: "strlen_from (s @ 0 # r) = Some (length (takeWhile (\<lambda>b. b \<noteq> 0) s))"
  by (induction s) auto

lemma take_takeWhile: "take (length (takeWhile P s)) (s @ r) = takeWhile P s"
  by (induction s) auto

lemma cstr_terminated: "cstr (s @ 0 # r) = Some (takeWhile (\<lambda>b. b \<noteq> 0) s)"
  by (simp only: cstr_def strlen_from_terminated option.map take_takeWhile)

lemma takeWhile_no_nul: "0 \<notin> set s \<Longrightarrow> takeWhile (\<lambda>b. b \<noteq> 0) (take n s) = take n s"
  by (auto simp: takeWhile_eq_all_conv dest: in_set_takeD)

lemma mem_copy_start: "length s \<le> length m \<Longrightarrow> mem_copy m 0 s 0 (length s) = Some (s @ drop (length s) m)"
  by (simp add: mem_copy_ok)

lemma vsnprintf_cstr:
  assumes "length buf = n" "0 < n"
  obtains buf' where "vsnprintf buf n (Some s) = Some (True, buf')" "length buf' = n"
    "mem_write buf' (n - 1) 0 = Some (buf'[n - 1 := 0])"
    "cstr (buf'[n - 1 := 0]) = Some (takeWhile (\<lambda>b. b \<noteq> 0) (take (n - 1) s))"
proof -
  define k where "k = length (take (n - 1) s)"
  have k: "k \<le> n - 1" by (simp add: k_def)
  define buf' where "buf' = take (n - 1) s @ 0 # drop (Suc k) buf"
  have len: "length buf' = n" using assms k by (simp add: buf'_def k_def)
  have "vsnprintf buf n (Some s) = Some (True, buf')"
    using assms k mem_copy_start [of "take (n - 1) s @ [0]" buf]
    by (simp add: vsnprintf_def Let_def k_def buf'_def)
  moreover have "\<exists>r. buf'[n - 1 := 0] = take (n - 1) s @ 0 # r"
    using k by (auto simp: buf'_def list_update_append k_def split: nat.split)
  ultimately show thesis using that len assms by (auto simp: cstr_terminated mem_write_def)
qed

lemma pp_config: "pp_value (log_h config_h) (PP_Identifier x) = 0" if "x \<noteq> ''AEMLIB_LOG_LEVEL''"
  using that by (simp add: log_h_def config_h_def)

lemma pp_config_level: "pp_value (log_h config_h) (PP_Identifier ''AEMLIB_LOG_LEVEL'') = 0"
  by (simp add: log_h_def config_h_def)

section \<open>Properties\<close>

text \<open>
  C39: with the repository's own headers no log call ever reaches the callback. The operands of
  \<^verbatim>\<open>#if AEMLIB_LOG_LEVEL == AEMLIB_LOG_NONE\<close> are enumerators, not macros, so the preprocessor compares 0
  with 0 and keeps the branch that returns at once, although the configured level is INFO.
\<close>

theorem logging_compiled_out:
  "aemlib_log_emit (log_h config_h) g buffer level module text w = Some w
   \<and> aemlib_log_emit_prefixed (log_h config_h) g msg_buf full_buf level module text w = Some w
   \<and> AEMLIB_LOG_macro (log_h config_h) name level g buffer modname text w = Some w"
  using pp_config pp_config_level
  by (simp add: aemlib_log_emit_def aemlib_log_emit_prefixed_def AEMLIB_LOG_macro_def)

text \<open>
  C40: where logging is compiled in (a numeric level other than 0) and a callback is set, an emitted message
  reaches the callback once, without undefined behaviour, as a terminated string that holds the first
  127 bytes of the formatted text; the prefixed emitter passes on the level, the module and the first 95
  bytes of the text, again cut to 127 bytes.
\<close>

theorem log_message_truncated:
  assumes "pp_value macros (PP_Identifier ''AEMLIB_LOG_LEVEL'') \<noteq> pp_value macros (PP_Identifier ''AEMLIB_LOG_NONE'')"
    and "length buffer = 128" "length msg_buf = 96" "length full_buf = 128"
    and "0 \<notin> set s" "0 \<notin> set m"
  shows "\<exists>msg full. aemlib_log_emit macros (Some callback) buffer level (Some (cstring m)) (Some s) w
      = Some (callback level (cstring m) msg w) \<and> cstr msg = Some (take 127 s)
    \<and> aemlib_log_emit_prefixed macros (Some callback) msg_buf full_buf level (Some (cstring m)) (Some s) w
      = Some (callback level (cstring m) full w)
    \<and> cstr full = Some (take 127 (ascii ''['' @ butlast (aemlib_log_level_str level) @ ascii ''] '' @ m @ ascii '': '' @ take 95 s))"
proof -
  have tw: "takeWhile (\<lambda>b. b \<noteq> 0) (take n s) = take n s" for n
    using assms(5) by (rule takeWhile_no_nul)
  obtain b1 where b1: "vsnprintf buffer 128 (Some s) = Some (True, b1)" "length b1 = 128"
    "mem_write b1 (128 - 1) 0 = Some (b1[128 - 1 := 0])"
    "cstr (b1[128 - 1 := 0]) = Some (takeWhile (\<lambda>b. b \<noteq> 0) (take (128 - 1) s))"
    using vsnprintf_cstr [of buffer 128 s] assms(2) by auto
  obtain b2 where b2: "vsnprintf msg_buf 96 (Some s) = Some (True, b2)"
    "mem_write b2 (96 - 1) 0 = Some (b2[96 - 1 := 0])"
    "cstr (b2[96 - 1 := 0]) = Some (takeWhile (\<lambda>b. b \<noteq> 0) (take (96 - 1) s))"
    using vsnprintf_cstr [of msg_buf 96 s] assms(3) by auto
  have l: "cstr (aemlib_log_level_str level) = Some (butlast (aemlib_log_level_str level)) \<and> 0 \<notin> set (butlast (aemlib_log_level_str level))"
    by (cases level) (simp_all add: cstr_def cstring_def ascii_def)
  have m: "cstr (cstring m) = Some m"
    using assms(6) by (auto simp: cstring_def cstr_terminated takeWhile_eq_all_conv)
  define t where "t = ascii ''['' @ butlast (aemlib_log_level_str level) @ ascii ''] '' @ m @ ascii '': '' @ take 95 s"
  obtain b3 where b3: "vsnprintf full_buf 128 (Some t) = Some (True, b3)"
    "mem_write b3 (128 - 1) 0 = Some (b3[128 - 1 := 0])"
    "cstr (b3[128 - 1 := 0]) = Some (takeWhile (\<lambda>b. b \<noteq> 0) (take (128 - 1) t))"
    using vsnprintf_cstr [of full_buf 128 t] assms(4) by auto
  have "0 \<notin> set t" using l assms(5,6) by (auto simp: t_def ascii_def dest: in_set_takeD)
  then have tw3: "takeWhile (\<lambda>b. b \<noteq> 0) (take n t) = take n t" for n
    by (rule takeWhile_no_nul)
  have "aemlib_log_emit macros (Some callback) buffer level (Some (cstring m)) (Some s) w
      = Some (callback level (cstring m) (b1[127 := 0]) w)"
    using assms(1) b1 by (simp add: aemlib_log_emit_def aemlib_log_emit_internal_def log_module_def)
  moreover have "aemlib_log_emit_prefixed macros (Some callback) msg_buf full_buf level (Some (cstring m)) (Some s) w
      = Some (callback level (cstring m) (b3[127 := 0]) w)"
    using assms(1) b2 b3 l m tw by (simp add: aemlib_log_emit_prefixed_def log_module_def t_def [symmetric])
  ultimately show ?thesis
    using b1(4) b3(3) tw tw3 by (intro exI [of _ "b1[127 := 0]"] exI [of _ "b3[127 := 0]"]) (simp add: t_def [symmetric])
qed

theorem log_message_truncated_witness:
  "\<exists>msg. aemlib_log_emit [(''AEMLIB_LOG_LEVEL'', PP_Number 2)] (Some (\<lambda>level module msg w. msg # w)) (replicate 128 0xFF)
      AEMLIB_LOG_INFO (Some (cstring [0x63])) (Some (replicate 130 0x61)) [] = Some [msg] \<and> cstr msg = Some (replicate 127 0x61)"
  using log_message_truncated [of "[(''AEMLIB_LOG_LEVEL'', PP_Number 2)]" "replicate 128 0xFF" "replicate 96 0" "replicate 128 0"
      "replicate 130 0x61" "[0x63]" "\<lambda>level module msg w. msg # w" AEMLIB_LOG_INFO "[]"]
  by auto

end
