(* ===== verification/Aem_Posix_Tcp.thy ===== *)
theory Aem_Posix_Tcp
  imports Aem_Platform Aem_Log "HOL-Library.Signed_Division"
begin

text \<open>
  The TCP transport of the examples (\<^verbatim>\<open>examples/posix_tcp_transport.h\<close>, \<^verbatim>\<open>examples/posix_tcp_transport.c\<close>):
  non-blocking sockets behind the transport interface. The calls of the operating system and the constants of its
  headers are the fields of a record that every definition takes; what the transport relies on is stated as
  \<^verbatim>\<open>socket_laws\<close> and \<^verbatim>\<open>descriptor_laws\<close>, which the theorems have as hypotheses.
\<close>

section \<open>The operating system\<close>

record addrinfo =
  ai_family :: int
  ai_socktype :: int
  ai_protocol :: int
  ai_addr :: mem

text \<open>
  A call takes the state \<open>'o\<close> of the system and returns its result with the new state. \<open>errno\<close> is read from the
  state. A string argument is the string, a buffer is the rest of its object. The clock returns seconds and
  nanoseconds.
\<close>

record 'o posix =
  AF_UNSPEC :: int
  SOCK_STREAM :: int
  O_NONBLOCK :: int
  POLLOUT :: int
  MSG_DONTWAIT :: int
  MSG_NOSIGNAL :: int
  EINPROGRESS :: int
  EAGAIN :: int
  EWOULDBLOCK :: int
  sys_errno :: "'o \<Rightarrow> int"
  sys_getaddrinfo :: "byte list \<Rightarrow> byte list \<Rightarrow> addrinfo \<Rightarrow> 'o \<Rightarrow> int \<times> addrinfo option \<times> 'o"
  sys_freeaddrinfo :: "addrinfo \<Rightarrow> 'o \<Rightarrow> 'o"
  sys_socket :: "int \<Rightarrow> int \<Rightarrow> int \<Rightarrow> 'o \<Rightarrow> int \<times> 'o"
  sys_fcntl_getfl :: "int \<Rightarrow> 'o \<Rightarrow> int \<times> 'o"
  sys_fcntl_setfl :: "int \<Rightarrow> int \<Rightarrow> 'o \<Rightarrow> int \<times> 'o"
  sys_connect :: "int \<Rightarrow> mem \<Rightarrow> 'o \<Rightarrow> int \<times> 'o"
  sys_close :: "int \<Rightarrow> 'o \<Rightarrow> int \<times> 'o"
  sys_poll :: "int \<Rightarrow> int \<Rightarrow> int \<Rightarrow> 'o \<Rightarrow> int \<times> 'o"
  sys_so_error :: "int \<Rightarrow> int \<Rightarrow> 'o \<Rightarrow> int \<times> int \<times> 'o"
  sys_recv :: "int \<Rightarrow> mem \<Rightarrow> size_t \<Rightarrow> int \<Rightarrow> 'o \<Rightarrow> int \<times> mem \<times> 'o"
  sys_send :: "int \<Rightarrow> mem \<Rightarrow> size_t \<Rightarrow> int \<Rightarrow> 'o \<Rightarrow> int \<times> 'o"
  CLOCK_MONOTONIC :: int
  sys_clock_gettime :: "int \<Rightarrow> 'o \<Rightarrow> (int \<times> int) \<times> 'o"
  sys_getpid :: "'o \<Rightarrow> int \<times> 'o"
  sys_usleep :: "int \<Rightarrow> 'o \<Rightarrow> int \<times> 'o"

section \<open>The transport\<close>

record aemlib_posix_tcp =
  tcp_fd :: int
  tcp_host :: mem
  tcp_port :: uint16
  tcp_connecting :: int

text \<open>The objects that transports point to, by number, and the state of the system.\<close>

record 'o tcp_store =
  ts_tcp :: "nat \<Rightarrow> aemlib_posix_tcp option"
  ts_os :: 'o

definition aemlib_posix_tcp_init :: "aemlib_posix_tcp \<Rightarrow> mem \<Rightarrow> uint16 \<Rightarrow> aemlib_posix_tcp" where
  "aemlib_posix_tcp_init t host port =
     t\<lparr>tcp_fd := -1, tcp_host := host, tcp_port := port, tcp_connecting := 0\<rparr>"

text \<open>The decimal digits that \<^verbatim>\<open>%u\<close> prints.\<close>

fun decimal :: "nat \<Rightarrow> byte list" where
  "decimal n = (if n < 10 then [48 + of_nat n] else decimal (n div 10) @ [48 + of_nat (n mod 10)])"

declare decimal.simps [simp del]

definition tcp_start_connect :: "'o posix \<Rightarrow> aemlib_posix_tcp \<Rightarrow> 'o \<Rightarrow> (aemlib_status_t \<times> aemlib_posix_tcp \<times> 'o) option" where
  "tcp_start_connect os t w =
     (let hints = \<lparr>ai_family = AF_UNSPEC os, ai_socktype = SOCK_STREAM os, ai_protocol = 0, ai_addr = []\<rparr> in do {
      (_, port_str) \<leftarrow> vsnprintf (replicate 8 0) 8 (Some (decimal (unat (tcp_port t))));
      host \<leftarrow> cstr (tcp_host t);
      service \<leftarrow> cstr port_str;
      let (rc, res, w) = sys_getaddrinfo os host service hints w in
      case (if rc \<noteq> 0 then None else res) of
        None \<Rightarrow> Some (AEMLIB_STATUS AEMLIB_LAYER_IO AEMLIB_CODE_CONNECT, t, w)
      | Some res \<Rightarrow>
          let (fd, w) = sys_socket os (ai_family res) (ai_socktype res) (ai_protocol res) w in
          if fd < 0 then
            let w = sys_freeaddrinfo os res w
            in Some (AEMLIB_STATUS AEMLIB_LAYER_IO AEMLIB_CODE_IO, t, w)
          else
            let (flags, w) = sys_fcntl_getfl os fd w;
                (_, w) = sys_fcntl_setfl os fd (flags OR O_NONBLOCK os) w;
                (rc, w) = sys_connect os fd (ai_addr res) w;
                w = sys_freeaddrinfo os res w in
            if rc = 0 then Some (AEMLIB_STATUS_OK, t\<lparr>tcp_fd := fd, tcp_connecting := 0\<rparr>, w)
            else if sys_errno os w = EINPROGRESS os then
              Some (io_would_block, t\<lparr>tcp_fd := fd, tcp_connecting := 1\<rparr>, w)
            else
              let (_, w) = sys_close os fd w
              in Some (AEMLIB_STATUS AEMLIB_LAYER_IO AEMLIB_CODE_CONNECT, t, w)
     })"

definition tcp_poll_connect :: "'o posix \<Rightarrow> aemlib_posix_tcp \<Rightarrow> 'o \<Rightarrow> aemlib_status_t \<times> aemlib_posix_tcp \<times> 'o" where
  "tcp_poll_connect os t w =
     (let (rv, w) = sys_poll os (tcp_fd t) (POLLOUT os) 0 w in
      if rv = 0 then (io_would_block, t, w)
      else if rv < 0 then (AEMLIB_STATUS AEMLIB_LAYER_IO AEMLIB_CODE_CONNECT, t, w)
      else
        let (rc, err, w) = sys_so_error os (tcp_fd t) 0 w in
        if rc \<noteq> 0 \<or> err \<noteq> 0 then
          let (_, w) = sys_close os (tcp_fd t) w
          in (AEMLIB_STATUS AEMLIB_LAYER_IO AEMLIB_CODE_CONNECT, t\<lparr>tcp_fd := -1, tcp_connecting := 0\<rparr>, w)
        else (AEMLIB_STATUS_OK, t\<lparr>tcp_connecting := 0\<rparr>, w))"

definition tcp_connect ::
    "'o posix \<Rightarrow> nat \<Rightarrow> ('o, 'x) tcp_store_scheme \<Rightarrow> (aemlib_status_t \<times> ('o, 'x) tcp_store_scheme) option" where
  "tcp_connect os ctx w = do {
     t \<leftarrow> ts_tcp w ctx;
     (st, t, s) \<leftarrow> (if tcp_connecting t \<noteq> 0 then Some (tcp_poll_connect os t (ts_os w)) else tcp_start_connect os t (ts_os w));
     Some (st, w\<lparr>ts_tcp := (ts_tcp w)(ctx \<mapsto> t), ts_os := s\<rparr>)
   }"

definition tcp_disconnect ::
    "'o posix \<Rightarrow> nat \<Rightarrow> ('o, 'x) tcp_store_scheme \<Rightarrow> (aemlib_status_t \<times> ('o, 'x) tcp_store_scheme) option" where
  "tcp_disconnect os ctx w = do {
     t \<leftarrow> ts_tcp w ctx;
     let (t, s) = (if tcp_fd t \<ge> 0 then
                     let (_, s) = sys_close os (tcp_fd t) (ts_os w) in (t\<lparr>tcp_fd := -1\<rparr>, s)
                   else (t, ts_os w));
         t = t\<lparr>tcp_connecting := 0\<rparr>
     in Some (AEMLIB_STATUS_OK, w\<lparr>ts_tcp := (ts_tcp w)(ctx \<mapsto> t), ts_os := s\<rparr>)
   }"

definition tcp_read ::
    "'o posix \<Rightarrow> nat \<Rightarrow> ('o, 'x) tcp_store_scheme \<Rightarrow> mem \<Rightarrow> size_t \<Rightarrow> size_t \<Rightarrow>
     (aemlib_status_t \<times> mem \<times> size_t \<times> ('o, 'x) tcp_store_scheme) option" where
  "tcp_read os ctx w buf len out_len = do {
     t \<leftarrow> ts_tcp w ctx;
     let (n, buf, s) = sys_recv os (tcp_fd t) buf len (MSG_DONTWAIT os) (ts_os w);
         w = w\<lparr>ts_os := s\<rparr>
     in if n > 0 then Some (AEMLIB_STATUS_OK, buf, of_int n, w)
        else if n = 0 then Some (io_closed, buf, 0, w)
        else if sys_errno os s = EAGAIN os \<or> sys_errno os s = EWOULDBLOCK os then Some (io_would_block, buf, 0, w)
        else Some (AEMLIB_STATUS AEMLIB_LAYER_IO AEMLIB_CODE_IO, buf, 0, w)
   }"

definition tcp_write ::
    "'o posix \<Rightarrow> nat \<Rightarrow> ('o, 'x) tcp_store_scheme \<Rightarrow> mem \<Rightarrow> size_t \<Rightarrow> size_t \<Rightarrow>
     (aemlib_status_t \<times> size_t \<times> ('o, 'x) tcp_store_scheme) option" where
  "tcp_write os ctx w buf len out_len = do {
     t \<leftarrow> ts_tcp w ctx;
     let (n, s) = sys_send os (tcp_fd t) buf len (MSG_NOSIGNAL os OR MSG_DONTWAIT os) (ts_os w);
         w = w\<lparr>ts_os := s\<rparr>
     in if n \<ge> 0 then Some (AEMLIB_STATUS_OK, of_int n, w)
        else if sys_errno os s = EAGAIN os \<or> sys_errno os s = EWOULDBLOCK os then Some (io_would_block, 0, w)
        else Some (AEMLIB_STATUS AEMLIB_LAYER_IO AEMLIB_CODE_IO, 0, w)
   }"

definition aemlib_posix_tcp_bind :: "'o posix \<Rightarrow> nat \<Rightarrow> ('o, 'x) tcp_store_scheme aemlib_transport" where
  "aemlib_posix_tcp_bind os t = transport_of (tcp_connect os t) (tcp_disconnect os t) (tcp_read os t) (tcp_write os t)"

section \<open>The port string\<close>

definition decimal_val :: "byte list \<Rightarrow> nat" where
  "decimal_val ds = foldl (\<lambda>a d. 10 * a + (unat d - 48)) 0 ds"

lemma unat_digit: "d < 10 \<Longrightarrow> unat (48 + of_nat d :: byte) = 48 + d"
proof -
  assume d: "d < 10"
  have "unat (of_nat (48 + d) :: byte) = (48 + d) mod 2 ^ LENGTH(8)" by (rule unat_of_nat)
  with d show ?thesis by simp
qed

lemma decimal_val_decimal: "decimal_val (decimal n) = n"
proof (induction n rule: decimal.induct)
  case (1 n)
  then show ?case
  proof (cases "n < 10")
    case True
    then show ?thesis using unat_digit [of n] by (simp add: decimal_val_def decimal.simps [of n])
  next
    case False
    then show ?thesis using 1 unat_digit [of "n mod 10"] by (simp add: decimal_val_def decimal.simps [of n])
  qed
qed

lemma decimal_nonzero: "0 \<notin> set (decimal n)"
proof (induction n rule: decimal.induct)
  case (1 n)
  have "48 + of_nat d \<noteq> (0 :: byte)" if "d < 10" for d
  proof
    assume "48 + of_nat d = (0 :: byte)"
    with unat_digit [OF that] show False by simp
  qed
  then have "n < 10 \<Longrightarrow> 48 + of_nat n \<noteq> (0 :: byte)" "48 + of_nat (n mod 10) \<noteq> (0 :: byte)" by simp_all
  with 1 show ?case by (cases "n < 10") (simp_all add: decimal.simps [of n])
qed

lemma length_decimal: "n < 10 ^ k \<Longrightarrow> 0 < k \<Longrightarrow> length (decimal n) \<le> k"
proof (induction k arbitrary: n)
  case (Suc k)
  show ?case
  proof (cases "n < 10")
    case False
    then have "0 < k" using Suc.prems by (cases k) simp_all
    moreover have "n div 10 < 10 ^ k" using Suc.prems by (simp add: less_mult_imp_div_less mult.commute)
    ultimately show ?thesis using Suc.IH False by (simp add: decimal.simps [of n])
  qed (simp add: decimal.simps [of n])
qed simp

lemma cstr_string: "0 \<notin> set s \<Longrightarrow> cstr (s @ 0 # r) = Some s"
  by (simp add: cstr_def strlen_from_append)

lemma vsnprintf_fits:
  assumes "length s < n" "length buf = n" "0 \<notin> set s"
  shows "vsnprintf buf n (Some s) = Some (True, s @ 0 # drop (Suc (length s)) buf)"
  using assms by (simp add: vsnprintf_def mem_copy_def)

lemma port_string:
  "vsnprintf (replicate 8 0) 8 (Some (decimal (unat (p :: uint16)))) =
     Some (True, decimal (unat p) @ 0 # drop (Suc (length (decimal (unat p)))) (replicate 8 0))"
  "cstr (decimal (unat p) @ 0 # r) = Some (decimal (unat p))"
proof -
  have "length (decimal (unat p)) \<le> 5" using unat_uint16_lt [of p] by (intro length_decimal) simp_all
  then show "vsnprintf (replicate 8 0) 8 (Some (decimal (unat p))) =
     Some (True, decimal (unat p) @ 0 # drop (Suc (length (decimal (unat p)))) (replicate 8 0))"
    by (intro vsnprintf_fits) (simp_all add: decimal_nonzero)
qed (simp add: cstr_string decimal_nonzero)

section \<open>What the transport relies on\<close>

text \<open>
  The documented behaviour of stream sockets: \<open>queue s fd\<close> are the bytes of the incoming stream of a descriptor that
  have not been read, arrived or still under way, \<open>sent s\<close> all the bytes the system has accepted so far. \<^verbatim>\<open>recv\<close> hands out a prefix of the queue and touches no more of
  the buffer than it was given, \<^verbatim>\<open>send\<close> accepts a prefix of the data, no other call accepts data.
\<close>

definition recv_law :: "'o posix \<Rightarrow> ('o \<Rightarrow> int \<Rightarrow> byte list) \<Rightarrow> ('o \<Rightarrow> byte list) \<Rightarrow> bool" where
  "recv_law os queue sent \<longleftrightarrow>
     (\<forall>fd buf len flags s n buf' s'. unat len \<le> length buf \<longrightarrow> sys_recv os fd buf len flags s = (n, buf', s') \<longrightarrow>
        length buf' = length buf \<and> drop (unat len) buf' = drop (unat len) buf \<and> sent s' = sent s
        \<and> (if n > 0 then nat n \<le> unat len \<and> nat n \<le> length (queue s fd)
             \<and> take (nat n) buf' = take (nat n) (queue s fd) \<and> queue s' fd = drop (nat n) (queue s fd)
           else queue s' fd = queue s fd))"

definition send_law :: "'o posix \<Rightarrow> ('o \<Rightarrow> int \<Rightarrow> byte list) \<Rightarrow> ('o \<Rightarrow> byte list) \<Rightarrow> bool" where
  "send_law os queue sent \<longleftrightarrow>
     (\<forall>fd data len flags s n s'. unat len \<le> length data \<longrightarrow> sys_send os fd data len flags s = (n, s') \<longrightarrow>
        queue s' fd = queue s fd
        \<and> (if n \<ge> 0 then nat n \<le> unat len \<and> sent s' = sent s @ take (nat n) data else sent s' = sent s))"

text \<open>Calls other than \<^verbatim>\<open>recv\<close> and \<^verbatim>\<open>send\<close> keep a part \<open>v\<close> of the state of the system.\<close>

definition setup_keeps :: "'o posix \<Rightarrow> ('o \<Rightarrow> 'v) \<Rightarrow> bool" where
  "setup_keeps os v \<longleftrightarrow>
     (\<forall>host service hints s. v (snd (snd (sys_getaddrinfo os host service hints s))) = v s)
   \<and> (\<forall>res s. v (sys_freeaddrinfo os res s) = v s)
   \<and> (\<forall>fd s. v (snd (sys_fcntl_getfl os fd s)) = v s)
   \<and> (\<forall>fd flags s. v (snd (sys_fcntl_setfl os fd flags s)) = v s)
   \<and> (\<forall>fd addr s. v (snd (sys_connect os fd addr s)) = v s)
   \<and> (\<forall>fd events timeout s. v (snd (sys_poll os fd events timeout s)) = v s)
   \<and> (\<forall>fd err s. v (snd (snd (sys_so_error os fd err s))) = v s)
   \<and> (\<forall>clock s. v (snd (sys_clock_gettime os clock s)) = v s)"

definition socket_laws :: "'o posix \<Rightarrow> ('o \<Rightarrow> int \<Rightarrow> byte list) \<Rightarrow> ('o \<Rightarrow> byte list) \<Rightarrow> bool" where
  "socket_laws os queue sent \<longleftrightarrow> recv_law os queue sent \<and> send_law os queue sent \<and> setup_keeps os sent
     \<and> (\<forall>family type protocol s. sent (snd (sys_socket os family type protocol s)) = sent s)
     \<and> (\<forall>fd s. sent (snd (sys_close os fd s)) = sent s)
     \<and> (\<forall>clock s. queue (snd (sys_clock_gettime os clock s)) = queue s)"

text \<open>
  The documented behaviour of descriptors: \<open>opened s\<close> are the open ones. A new socket gets a descriptor that was
  not open, closing removes it, nothing else changes the set. (When \<^verbatim>\<open>close\<close> is interrupted, POSIX leaves open whether the descriptor
  is released; on Linux it is, and that is the law.)
\<close>

definition descriptor_laws :: "'o posix \<Rightarrow> ('o \<Rightarrow> int set) \<Rightarrow> bool" where
  "descriptor_laws os opened \<longleftrightarrow> setup_keeps os opened
     \<and> (\<forall>family type protocol s fd s'. sys_socket os family type protocol s = (fd, s') \<longrightarrow>
          (if fd \<ge> 0 then fd \<notin> opened s \<and> opened s' = insert fd (opened s) else opened s' = opened s))
     \<and> (\<forall>fd s. opened (snd (sys_close os fd s)) = opened s - {fd})
     \<and> (\<forall>fd buf len flags s. opened (snd (snd (sys_recv os fd buf len flags s))) = opened s)
     \<and> (\<forall>fd buf len flags s. opened (snd (sys_send os fd buf len flags s)) = opened s)"

lemma setup_keepsD:
  assumes "setup_keeps os v"
  shows "sys_getaddrinfo os host service hints s = (rc, res, s') \<Longrightarrow> v s' = v s" "v (sys_freeaddrinfo os r s) = v s"
    "sys_fcntl_getfl os fd s = (n, s') \<Longrightarrow> v s' = v s" "sys_fcntl_setfl os fd flags s = (n, s') \<Longrightarrow> v s' = v s"
    "sys_connect os fd addr s = (n, s') \<Longrightarrow> v s' = v s" "sys_poll os fd events timeout s = (n, s') \<Longrightarrow> v s' = v s"
    "sys_so_error os fd err s = (n, e, s') \<Longrightarrow> v s' = v s"
    "sys_clock_gettime os clock s = (ts, s') \<Longrightarrow> v s' = v s"
  using assms unfolding setup_keeps_def by (metis snd_conv)+

section \<open>Opening a connection\<close>

text \<open>What a step of the non-blocking connect may do to the transport, and with what descriptor.\<close>

lemma tcp_start_connect_cases:
  assumes "cstr (tcp_host t) = Some host" "tcp_start_connect os t s = Some (st, t', s')"
  obtains (lookup) rc res where "sys_getaddrinfo os host (decimal (unat (tcp_port t)))
        \<lparr>ai_family = AF_UNSPEC os, ai_socktype = SOCK_STREAM os, ai_protocol = 0, ai_addr = []\<rparr> s = (rc, res, s')"
      "rc \<noteq> 0 \<or> res = None" "st = AEMLIB_STATUS AEMLIB_LAYER_IO AEMLIB_CODE_CONNECT" "t' = t"
    | (no_socket) res s1 fd s2 where "sys_getaddrinfo os host (decimal (unat (tcp_port t)))
        \<lparr>ai_family = AF_UNSPEC os, ai_socktype = SOCK_STREAM os, ai_protocol = 0, ai_addr = []\<rparr> s = (0, Some res, s1)"
      "sys_socket os (ai_family res) (ai_socktype res) (ai_protocol res) s1 = (fd, s2)" "fd < 0"
      "s' = sys_freeaddrinfo os res s2" "st = AEMLIB_STATUS AEMLIB_LAYER_IO AEMLIB_CODE_IO" "t' = t"
    | (opened) res s1 fd s2 n s3 m s4 rc s5 s6 where "sys_getaddrinfo os host (decimal (unat (tcp_port t)))
        \<lparr>ai_family = AF_UNSPEC os, ai_socktype = SOCK_STREAM os, ai_protocol = 0, ai_addr = []\<rparr> s = (0, Some res, s1)"
      "sys_socket os (ai_family res) (ai_socktype res) (ai_protocol res) s1 = (fd, s2)" "fd \<ge> 0"
      "sys_fcntl_getfl os fd s2 = (n, s3)" "sys_fcntl_setfl os fd (n OR O_NONBLOCK os) s3 = (m, s4)"
      "sys_connect os fd (ai_addr res) s4 = (rc, s5)" "s6 = sys_freeaddrinfo os res s5"
      "rc = 0 \<and> st = AEMLIB_STATUS_OK \<and> t' = t\<lparr>tcp_fd := fd, tcp_connecting := 0\<rparr> \<and> s' = s6
       \<or> rc \<noteq> 0 \<and> sys_errno os s6 = EINPROGRESS os \<and> st = io_would_block \<and> t' = t\<lparr>tcp_fd := fd, tcp_connecting := 1\<rparr> \<and> s' = s6
       \<or> rc \<noteq> 0 \<and> sys_errno os s6 \<noteq> EINPROGRESS os \<and> st = AEMLIB_STATUS AEMLIB_LAYER_IO AEMLIB_CODE_CONNECT \<and> t' = t
         \<and> s' = snd (sys_close os fd s6)"
  using assms(2) assms(1)
  by (auto simp: tcp_start_connect_def port_string Let_def split: prod.splits option.splits if_splits)

lemma tcp_start_connect_defined:
  assumes "cstr (tcp_host t) \<noteq> None"
  shows "\<exists>st t' s'. tcp_start_connect os t s = Some (st, t', s') \<and> tcp_host t' = tcp_host t"
proof -
  obtain host where "cstr (tcp_host t) = Some host" using assms by blast
  then show ?thesis
    by (auto simp: tcp_start_connect_def port_string Let_def split: prod.splits option.splits if_splits)
qed

lemma tcp_start_connect_keeps:
  assumes "cstr (tcp_host t) \<noteq> None" "tcp_start_connect os t s = Some (st, t', s')" "setup_keeps os v"
    and "\<And>family type protocol s. v (snd (sys_socket os family type protocol s)) = v s" "\<And>fd s. v (snd (sys_close os fd s)) = v s"
  shows "v s' = v s"
proof -
  obtain host where "cstr (tcp_host t) = Some host" using assms(1) by blast
  then show ?thesis
    using assms(2)
  proof (cases rule: tcp_start_connect_cases)
    case (lookup rc res)
    then show ?thesis using setup_keepsD [OF assms(3)] by blast
  next
    case (no_socket res s1 fd s2)
    moreover have "v s2 = v s1" using no_socket(2) assms(4) by (metis snd_conv)
    ultimately show ?thesis using setup_keepsD [OF assms(3)] by metis
  next
    case (opened res s1 fd s2 n s3 m s4 rc s5 s6)
    moreover have "v s2 = v s1" using opened(2) assms(4) by (metis snd_conv)
    ultimately have "v s6 = v s" using setup_keepsD [OF assms(3)] by metis
    then show ?thesis using opened(8) assms(5) by auto
  qed
qed

lemma tcp_poll_connect_keeps:
  assumes "tcp_poll_connect os t s = (st, t', s')" "setup_keeps os v" "\<And>fd s. v (snd (sys_close os fd s)) = v s"
  shows "v s' = v s" "tcp_host t' = tcp_host t"
  using assms(1) assms(3) [of "tcp_fd t"] setup_keepsD(6,7) [OF assms(2)]
  by (auto simp: tcp_poll_connect_def Let_def split: prod.splits if_splits) (metis snd_conv)+

section \<open>The contract of a transport\<close>

definition tcp_inv :: "nat \<Rightarrow> ('o, 'x) tcp_store_scheme \<Rightarrow> bool" where
  "tcp_inv ctx w \<longleftrightarrow> (\<exists>t. ts_tcp w ctx = Some t \<and> cstr (tcp_host t) \<noteq> None)"

definition tcp_inq :: "('o \<Rightarrow> int \<Rightarrow> byte list) \<Rightarrow> nat \<Rightarrow> ('o, 'x) tcp_store_scheme \<Rightarrow> byte list" where
  "tcp_inq queue ctx w = queue (ts_os w) (tcp_fd (the (ts_tcp w ctx)))"

definition tcp_outq :: "('o \<Rightarrow> byte list) \<Rightarrow> ('o, 'x) tcp_store_scheme \<Rightarrow> byte list" where
  "tcp_outq sent w = sent (ts_os w)"

lemma tcp_connect_ok:
  assumes "socket_laws os queue sent" "tcp_inv ctx w"
  shows "\<exists>st w'. tcp_connect os ctx w = Some (st, w') \<and> tcp_inv ctx w' \<and> tcp_outq sent w' = tcp_outq sent w"
proof -
  obtain t where t: "ts_tcp w ctx = Some t" "cstr (tcp_host t) \<noteq> None" using assms(2) by (auto simp: tcp_inv_def)
  have laws: "setup_keeps os sent" "\<And>family type protocol s. sent (snd (sys_socket os family type protocol s)) = sent s"
    "\<And>fd s. sent (snd (sys_close os fd s)) = sent s" using assms(1) by (simp_all add: socket_laws_def)
  show ?thesis
  proof (cases "tcp_connecting t = 0")
    case True
    obtain st t' s' where r: "tcp_start_connect os t (ts_os w) = Some (st, t', s')" "tcp_host t' = tcp_host t"
      using tcp_start_connect_defined [OF t(2), of os "ts_os w"] by (elim exE conjE)
    from tcp_start_connect_keeps [OF t(2) r(1) laws] r t True show ?thesis
      by (simp add: tcp_connect_def tcp_inv_def tcp_outq_def)
  next
    case False
    obtain st t' s' where r: "tcp_poll_connect os t (ts_os w) = (st, t', s')" by (metis prod_cases3)
    from tcp_poll_connect_keeps [OF r laws(1,3)] r t False show ?thesis
      by (simp add: tcp_connect_def tcp_inv_def tcp_outq_def)
  qed
qed

lemma tcp_disconnect_ok:
  assumes "socket_laws os queue sent" "tcp_inv ctx w"
  shows "\<exists>w'. tcp_disconnect os ctx w = Some (AEMLIB_STATUS_OK, w') \<and> tcp_inv ctx w' \<and> tcp_outq sent w' = tcp_outq sent w"
proof -
  have "sent (snd (sys_close os fd s)) = sent s" for fd s using assms(1) by (simp add: socket_laws_def)
  then show ?thesis
    using assms(2) by (auto simp: tcp_inv_def tcp_disconnect_def tcp_outq_def Let_def split_def)
qed

lemma unat_of_int_size: "0 \<le> n \<Longrightarrow> nat n \<le> unat (len :: size_t) \<Longrightarrow> unat (of_int n :: size_t) = nat n"
  using unat_lt_size [of len] by (simp add: unat_of_nat_size flip: of_nat_nat)

lemma tcp_read_ok:
  assumes "recv_law os queue sent" "tcp_inv ctx w" "unat len \<le> length buf"
  shows "\<exists>st buf' n w'. tcp_read os ctx w buf len n0 = Some (st, buf', n, w') \<and> tcp_inv ctx w' \<and> tcp_outq sent w' = tcp_outq sent w
    \<and> length buf' = length buf \<and> drop (unat len) buf' = drop (unat len) buf
    \<and> (if st = AEMLIB_STATUS_OK
       then unat n \<le> unat len \<and> unat n \<le> length (tcp_inq queue ctx w)
         \<and> take (unat n) buf' = take (unat n) (tcp_inq queue ctx w) \<and> tcp_inq queue ctx w' = drop (unat n) (tcp_inq queue ctx w)
       else tcp_inq queue ctx w' = tcp_inq queue ctx w)"
proof -
  obtain t where t: "ts_tcp w ctx = Some t" "cstr (tcp_host t) \<noteq> None" using assms(2) by (auto simp: tcp_inv_def)
  obtain n buf' s' where r: "sys_recv os (tcp_fd t) buf len (MSG_DONTWAIT os) (ts_os w) = (n, buf', s')" by (metis prod_cases3)
  then have l: "length buf' = length buf" "drop (unat len) buf' = drop (unat len) buf" "sent s' = sent (ts_os w)"
    "if n > 0 then nat n \<le> unat len \<and> nat n \<le> length (queue (ts_os w) (tcp_fd t))
        \<and> take (nat n) buf' = take (nat n) (queue (ts_os w) (tcp_fd t)) \<and> queue s' (tcp_fd t) = drop (nat n) (queue (ts_os w) (tcp_fd t))
      else queue s' (tcp_fd t) = queue (ts_os w) (tcp_fd t)"
    using assms(1,3) unfolding recv_law_def by blast+
  have "unat (of_int n :: size_t) = nat n" if "n > 0" using that l(4) unat_of_int_size [of n len] by simp
  then show ?thesis
    using t r l by (auto simp: tcp_read_def Let_def tcp_inv_def tcp_inq_def tcp_outq_def)
qed

lemma tcp_write_ok:
  assumes "send_law os queue sent" "tcp_inv ctx w" "unat len \<le> length data"
  shows "\<exists>st n w'. tcp_write os ctx w data len n0 = Some (st, n, w') \<and> tcp_inv ctx w' \<and> tcp_inq queue ctx w' = tcp_inq queue ctx w
    \<and> (if st = AEMLIB_STATUS_OK then unat n \<le> unat len \<and> tcp_outq sent w' = tcp_outq sent w @ take (unat n) data
       else tcp_outq sent w' = tcp_outq sent w)"
proof -
  obtain t where t: "ts_tcp w ctx = Some t" "cstr (tcp_host t) \<noteq> None" using assms(2) by (auto simp: tcp_inv_def)
  obtain n s' where r: "sys_send os (tcp_fd t) data len (MSG_NOSIGNAL os OR MSG_DONTWAIT os) (ts_os w) = (n, s')" by (metis prod.exhaust)
  then have l: "queue s' (tcp_fd t) = queue (ts_os w) (tcp_fd t)"
    "if n \<ge> 0 then nat n \<le> unat len \<and> sent s' = sent (ts_os w) @ take (nat n) data else sent s' = sent (ts_os w)"
    using assms(1,3) unfolding send_law_def by blast+
  have "unat (of_int n :: size_t) = nat n" if "n \<ge> 0" using that l(2) unat_of_int_size [of n len] by simp
  then show ?thesis
    using t r l by (auto simp: tcp_write_def Let_def tcp_inv_def tcp_inq_def tcp_outq_def)
qed

lemma tcp_impl:
  assumes "socket_laws os queue sent"
  shows "transport_impl (tcp_connect os ctx) (tcp_disconnect os ctx) (tcp_read os ctx) (tcp_write os ctx)
    (tcp_inv ctx) (tcp_inq queue ctx) (tcp_outq sent)"
proof -
  have laws: "recv_law os queue sent" "send_law os queue sent" using assms by (simp_all add: socket_laws_def)
  show ?thesis
  proof (unfold_locales, goal_cases)
    case (1 w)
    then show ?case using tcp_connect_ok [OF assms] by blast
  next
    case (2 w)
    then show ?case using tcp_disconnect_ok [OF assms] by blast
  next
    case (3 w len buf n0)
    then show ?case using tcp_read_ok [OF laws(1)] by blast
  next
    case (4 w len data n0)
    then show ?case using tcp_write_ok [OF laws(2)] by blast
  qed
qed

section \<open>Descriptors\<close>

abbreviation io_connect :: aemlib_status_t where
  "io_connect \<equiv> AEMLIB_STATUS AEMLIB_LAYER_IO AEMLIB_CODE_CONNECT"

abbreviation io_error :: aemlib_status_t where
  "io_error \<equiv> AEMLIB_STATUS AEMLIB_LAYER_IO AEMLIB_CODE_IO"

text \<open>
  \<open>base\<close> are the descriptors that belong to others. A closed transport has no descriptor; one whose connect is in progress and one
  that is up have exactly one; an idle one is closed or in progress.
\<close>

definition tcp_owns :: "('o \<Rightarrow> int set) \<Rightarrow> int set \<Rightarrow> aemlib_posix_tcp \<Rightarrow> 'o \<Rightarrow> bool" where
  "tcp_owns opened base t s \<longleftrightarrow> (if tcp_fd t \<ge> 0 then tcp_fd t \<notin> base \<and> opened s = insert (tcp_fd t) base else opened s = base)"

definition tcp_phase ::
    "(int \<Rightarrow> int \<Rightarrow> bool) \<Rightarrow> ('o \<Rightarrow> int set) \<Rightarrow> int set \<Rightarrow> nat \<Rightarrow> ('o, 'x) tcp_store_scheme \<Rightarrow> bool" where
  "tcp_phase ph opened base ctx w \<longleftrightarrow> (\<exists>t. ts_tcp w ctx = Some t \<and> cstr (tcp_host t) \<noteq> None
     \<and> tcp_owns opened base t (ts_os w) \<and> ph (tcp_fd t) (tcp_connecting t))"

definition tcp_closed :: "('o \<Rightarrow> int set) \<Rightarrow> int set \<Rightarrow> nat \<Rightarrow> ('o, 'x) tcp_store_scheme \<Rightarrow> bool" where
  "tcp_closed = tcp_phase (\<lambda>fd connecting. fd < 0 \<and> connecting = 0)"

definition tcp_pending :: "('o \<Rightarrow> int set) \<Rightarrow> int set \<Rightarrow> nat \<Rightarrow> ('o, 'x) tcp_store_scheme \<Rightarrow> bool" where
  "tcp_pending = tcp_phase (\<lambda>fd connecting. fd \<ge> 0 \<and> connecting \<noteq> 0)"

definition tcp_up :: "('o \<Rightarrow> int set) \<Rightarrow> int set \<Rightarrow> nat \<Rightarrow> ('o, 'x) tcp_store_scheme \<Rightarrow> bool" where
  "tcp_up = tcp_phase (\<lambda>fd connecting. fd \<ge> 0 \<and> connecting = 0)"

definition tcp_idle :: "('o \<Rightarrow> int set) \<Rightarrow> int set \<Rightarrow> nat \<Rightarrow> ('o, 'x) tcp_store_scheme \<Rightarrow> bool" where
  "tcp_idle opened base ctx w \<longleftrightarrow> tcp_closed opened base ctx w \<or> tcp_pending opened base ctx w"

text \<open>
  The call of \<^verbatim>\<open>poll\<close> for one descriptor without a timeout does not fail. The transport takes its failure for the failure of the
  connect, but keeps the descriptor: \<^verbatim>\<open>tcp_released\<close> is what an error leaves behind.
\<close>

definition poll_law :: "'o posix \<Rightarrow> bool" where
  "poll_law os \<longleftrightarrow> (\<forall>fd s. 0 \<le> fst (sys_poll os fd (POLLOUT os) 0 s))"

definition tcp_released :: "'o posix \<Rightarrow> ('o \<Rightarrow> int set) \<Rightarrow> int set \<Rightarrow> nat \<Rightarrow> ('o, 'x) tcp_store_scheme \<Rightarrow> bool" where
  "tcp_released os opened base ctx w \<longleftrightarrow> tcp_closed opened base ctx w \<or> \<not> poll_law os \<and> tcp_pending opened base ctx w"

lemmas tcp_phase_defs = tcp_phase_def tcp_closed_def tcp_pending_def tcp_up_def

lemmas tcp_link_defs = tcp_owns_def tcp_phase_defs tcp_idle_def tcp_released_def

lemma tcp_start_connect_owns:
  assumes laws: "descriptor_laws os opened" and host: "cstr (tcp_host t) \<noteq> None"
    and t: "tcp_fd t < 0" "tcp_connecting t = 0" "opened s = base"
    and r: "tcp_start_connect os t s = Some (st, t', s')"
  shows "tcp_owns opened base t' s' \<and> tcp_host t' = tcp_host t
    \<and> (if st = AEMLIB_STATUS_OK then tcp_connecting t' = 0 \<and> tcp_fd t' \<ge> 0
       else if st = io_would_block then tcp_connecting t' \<noteq> 0 \<and> tcp_fd t' \<ge> 0
       else st \<in> {io_connect, io_error} \<and> tcp_connecting t' = 0 \<and> tcp_fd t' < 0)"
proof -
  have keep: "setup_keeps os opened" and close: "\<And>fd s. opened (snd (sys_close os fd s)) = opened s - {fd}"
    using laws by (simp_all add: descriptor_laws_def)
  have sock: "if fd \<ge> 0 then fd \<notin> opened s1 \<and> opened s2 = insert fd (opened s1) else opened s2 = opened s1"
    if "sys_socket os family type protocol s1 = (fd, s2)" for family type protocol s1 fd s2
    using conjunct1 [OF conjunct2 [OF laws [unfolded descriptor_laws_def]], rule_format, OF that] .
  obtain h where "cstr (tcp_host t) = Some h" using host by blast
  then show ?thesis
    using r
  proof (cases rule: tcp_start_connect_cases)
    case (lookup rc res)
    then show ?thesis using setup_keepsD(1) [OF keep lookup(1)] t by (simp add: tcp_owns_def)
  next
    case (no_socket res s1 fd s2)
    then show ?thesis
      using setup_keepsD(1) [OF keep no_socket(1)] setup_keepsD(2) [OF keep, of res s2] sock [OF no_socket(2)] t
      by (simp add: tcp_owns_def)
  next
    case (opened res s1 fd s2 n s3 m s4 rc s5 s6)
    have "opened s1 = base" "opened s6 = opened s2"
      using setup_keepsD(1) [OF keep opened(1)] setup_keepsD(2) [OF keep, of res s5] setup_keepsD(3) [OF keep opened(4)]
        setup_keepsD(4) [OF keep opened(5)] setup_keepsD(5) [OF keep opened(6)] opened(7) t(3) by simp_all
    then have "fd \<notin> base" "opened s6 = insert fd base" using sock [OF opened(2)] opened(3) by simp_all
    then show ?thesis using opened(3,8) t close [of fd s6] by (auto simp: tcp_owns_def)
  qed
qed

lemma tcp_poll_connect_owns:
  assumes laws: "descriptor_laws os opened" and t: "tcp_fd t \<ge> 0" "tcp_connecting t \<noteq> 0" "tcp_owns opened base t s"
    and r: "tcp_poll_connect os t s = (st, t', s')"
  shows "tcp_owns opened base t' s' \<and> tcp_host t' = tcp_host t
    \<and> (if st = AEMLIB_STATUS_OK then tcp_connecting t' = 0 \<and> tcp_fd t' \<ge> 0
       else if st = io_would_block then t' = t
       else st = io_connect \<and> (if fst (sys_poll os (tcp_fd t) (POLLOUT os) 0 s) < 0 then t' = t else tcp_connecting t' = 0 \<and> tcp_fd t' < 0))"
proof -
  have keep: "setup_keeps os opened" and close: "\<And>fd s. opened (snd (sys_close os fd s)) = opened s - {fd}"
    using laws by (simp_all add: descriptor_laws_def)
  obtain rv s1 where 1: "sys_poll os (tcp_fd t) (POLLOUT os) 0 s = (rv, s1)" by (metis prod.exhaust)
  obtain rc err s2 where 2: "sys_so_error os (tcp_fd t) 0 s1 = (rc, err, s2)" by (metis prod_cases3)
  have k: "opened s1 = opened s" "opened s2 = opened s1" using setup_keepsD(6,7) [OF keep] 1 2 by blast+
  have c: "opened (snd (sys_close os (tcp_fd t) s2)) = base"
    using k t close [of "tcp_fd t" s2] by (auto simp: tcp_owns_def)
  have eq: "(st, t', s') = (if rv = 0 then (io_would_block, t, s1)
      else if rv < 0 then (AEMLIB_STATUS AEMLIB_LAYER_IO AEMLIB_CODE_CONNECT, t, s1)
      else if rc \<noteq> 0 \<or> err \<noteq> 0 then (AEMLIB_STATUS AEMLIB_LAYER_IO AEMLIB_CODE_CONNECT,
        t\<lparr>tcp_fd := -1, tcp_connecting := 0\<rparr>, snd (sys_close os (tcp_fd t) s2))
      else (AEMLIB_STATUS_OK, t\<lparr>tcp_connecting := 0\<rparr>, s2))"
    using r 1 2
    by (cases "rv = 0"; cases "rv < 0"; cases "rc = 0 \<and> err = 0") (auto simp: tcp_poll_connect_def Let_def split_def)
  show ?thesis
    using eq k t c 1 by (simp add: tcp_owns_def split: if_splits)
qed

text \<open>
  The steps of a transport over the life of a descriptor. The one error behind which a descriptor is held is that of a failed
  \<^verbatim>\<open>poll\<close>.
\<close>

definition poll_failed :: "'o posix \<Rightarrow> nat \<Rightarrow> ('o, 'x) tcp_store_scheme \<Rightarrow> bool" where
  "poll_failed os ctx w \<longleftrightarrow> fst (sys_poll os (tcp_fd (the (ts_tcp w ctx))) (POLLOUT os) 0 (ts_os w)) < 0"

lemma tcp_connect_phase:
  assumes "descriptor_laws os opened" "tcp_idle opened base ctx w" "tcp_connect os ctx w = Some (st, w')"
  shows "if st = AEMLIB_STATUS_OK then tcp_up opened base ctx w'
    else if st = io_would_block then tcp_pending opened base ctx w'
    else st \<in> {io_connect, io_error} \<and> (if tcp_pending opened base ctx w \<and> poll_failed os ctx w
      then st = io_connect \<and> ts_tcp w' = ts_tcp w \<and> tcp_pending opened base ctx w' else tcp_closed opened base ctx w')"
proof -
  obtain t where t: "ts_tcp w ctx = Some t" "cstr (tcp_host t) \<noteq> None" "tcp_owns opened base t (ts_os w)"
    "tcp_connecting t \<noteq> 0 \<longleftrightarrow> tcp_fd t \<ge> 0" using assms(2) by (auto simp: tcp_idle_def tcp_phase_defs)
  show ?thesis
  proof (cases "tcp_connecting t = 0")
    case True
    then have "tcp_fd t < 0" "opened (ts_os w) = base" using t(3,4) by (auto simp: tcp_owns_def)
    moreover obtain t' s' where r: "tcp_start_connect os t (ts_os w) = Some (st, t', s')" "w' = w\<lparr>ts_tcp := (ts_tcp w)(ctx \<mapsto> t'), ts_os := s'\<rparr>"
      using assms(3) t(1) True by (auto simp: tcp_connect_def bind_Some_iff)
    ultimately show ?thesis
      using tcp_start_connect_owns [OF assms(1) t(2) _ True _ r(1)] r(2) t(1,2) True by (auto simp: tcp_phase_defs)
  next
    case False
    then have fd: "tcp_fd t \<ge> 0" using t(4) by blast
    obtain t' s' where r: "tcp_poll_connect os t (ts_os w) = (st, t', s')" "w' = w\<lparr>ts_tcp := (ts_tcp w)(ctx \<mapsto> t'), ts_os := s'\<rparr>"
      using assms(3) t(1) False by (auto simp: tcp_connect_def bind_Some_iff split: prod.splits)
    have "tcp_pending opened base ctx w" "poll_failed os ctx w \<longleftrightarrow> fst (sys_poll os (tcp_fd t) (POLLOUT os) 0 (ts_os w)) < 0"
      using t fd False by (simp_all add: tcp_phase_defs poll_failed_def)
    then show ?thesis
      using tcp_poll_connect_owns [OF assms(1) fd False t(3) r(1)] fd False r(2) t(1,2) by (auto simp: tcp_phase_defs)
  qed
qed

lemma tcp_connect_link:
  assumes "descriptor_laws os opened" "tcp_idle opened base ctx w" "tcp_connect os ctx w = Some (st, w')"
  shows "if st = AEMLIB_STATUS_OK then tcp_up opened base ctx w'
    else if would_block st then tcp_idle opened base ctx w' else tcp_released os opened base ctx w'"
proof -
  have "\<not> poll_law os" if "poll_failed os ctx w" using that unfolding poll_failed_def poll_law_def by (metis not_le)
  then show ?thesis
    using tcp_connect_phase [OF assms] by (auto simp: tcp_idle_def tcp_released_def split: if_splits)
qed

lemma tcp_disconnect_link:
  assumes "descriptor_laws os opened" "tcp_idle opened base ctx w \<or> tcp_up opened base ctx w" "tcp_disconnect os ctx w = Some (st, w')"
  shows "tcp_closed opened base ctx w'"
proof -
  have close: "opened (snd (sys_close os fd s)) = opened s - {fd}" for fd s
    using assms(1) by (simp add: descriptor_laws_def)
  obtain t where t: "ts_tcp w ctx = Some t" "cstr (tcp_host t) \<noteq> None" "tcp_owns opened base t (ts_os w)"
    using assms(2) by (auto simp: tcp_idle_def tcp_phase_defs)
  let ?t = "if tcp_fd t \<ge> 0 then t\<lparr>tcp_fd := -1, tcp_connecting := 0\<rparr> else t\<lparr>tcp_connecting := 0\<rparr>"
  let ?s = "if tcp_fd t \<ge> 0 then snd (sys_close os (tcp_fd t) (ts_os w)) else ts_os w"
  have w': "w' = w\<lparr>ts_tcp := (ts_tcp w)(ctx \<mapsto> ?t), ts_os := ?s\<rparr>"
    using assms(3) t(1) by (cases "tcp_fd t \<ge> 0") (auto simp: tcp_disconnect_def Let_def split_def)
  have "opened ?s = base"
    using t(3) close [of "tcp_fd t" "ts_os w"] by (cases "tcp_fd t \<ge> 0") (simp_all add: tcp_owns_def)
  then show ?thesis using t(2) w' by (simp add: tcp_phase_defs tcp_owns_def)
qed

lemma tcp_io_link:
  assumes "descriptor_laws os opened"
    and "tcp_read os ctx w buf len n0 = Some (st, buf', n, w') \<or> tcp_write os ctx w buf len n0 = Some (st, n, w')"
  shows "ts_tcp w' = ts_tcp w" "opened (ts_os w') = opened (ts_os w)"
proof -
  have "opened (snd (snd (sys_recv os fd buf len flags s))) = opened s" "opened (snd (sys_send os fd buf len flags s)) = opened s"
    for fd flags s using assms(1) by (simp_all add: descriptor_laws_def)
  then show "ts_tcp w' = ts_tcp w" "opened (ts_os w') = opened (ts_os w)"
    using assms(2) by (auto simp: tcp_read_def tcp_write_def bind_Some_iff Let_def split_def split: if_splits)
qed

text \<open>The phases depend on the object and the open descriptors only.\<close>

lemma tcp_phase_cong:
  assumes "ts_tcp w' = ts_tcp w" "opened (ts_os w') = opened (ts_os w)"
  shows "tcp_phase ph opened base ctx w' = tcp_phase ph opened base ctx w"
  using assms by (simp add: tcp_phase_def tcp_owns_def)

section \<open>A system that satisfies the laws\<close>

text \<open>
  A loopback system with one receive queue, in which every connect succeeds at once; its clock moves with every
  sleep. It shows that the laws can hold together and is the platform of the witnesses.
\<close>

record loop_os =
  lo_queue :: "byte list"
  lo_sent :: "byte list"
  lo_open :: "int list"
  lo_errno :: int
  lo_ms :: nat

definition loop_recv :: "mem \<Rightarrow> size_t \<Rightarrow> loop_os \<Rightarrow> int \<times> mem \<times> loop_os" where
  "loop_recv buf len s =
     (if lo_queue s = [] then (-1, buf, s\<lparr>lo_errno := 11\<rparr>)
      else let n = min (unat len) (length (lo_queue s))
           in (int n, overwrite 0 (take n (lo_queue s)) buf, s\<lparr>lo_queue := drop n (lo_queue s)\<rparr>))"

definition loop_socket :: "loop_os \<Rightarrow> int \<times> loop_os" where
  "loop_socket s = (let fd = Max (insert 2 (set (lo_open s))) + 1 in (fd, s\<lparr>lo_open := fd # lo_open s\<rparr>))"

definition loop_posix :: "loop_os posix" where
  "loop_posix = \<lparr>AF_UNSPEC = 0, SOCK_STREAM = 1, O_NONBLOCK = 2048, POLLOUT = 4, MSG_DONTWAIT = 64, MSG_NOSIGNAL = 16384,
     EINPROGRESS = 115, EAGAIN = 11, EWOULDBLOCK = 11, sys_errno = lo_errno,
     sys_getaddrinfo = (\<lambda>host service hints s. (0, Some (hints\<lparr>ai_family := 2\<rparr>), s)),
     sys_freeaddrinfo = (\<lambda>res s. s),
     sys_socket = (\<lambda>family type protocol s. loop_socket s),
     sys_fcntl_getfl = (\<lambda>fd s. (0, s)), sys_fcntl_setfl = (\<lambda>fd flags s. (0, s)),
     sys_connect = (\<lambda>fd addr s. (0, s)),
     sys_close = (\<lambda>fd s. (0, s\<lparr>lo_open := removeAll fd (lo_open s)\<rparr>)),
     sys_poll = (\<lambda>fd events timeout s. (1, s)), sys_so_error = (\<lambda>fd err s. (0, 0, s)),
     sys_recv = (\<lambda>fd buf len flags s. loop_recv buf len s),
     sys_send = (\<lambda>fd buf len flags s. (int (unat len), s\<lparr>lo_sent := lo_sent s @ take (unat len) buf\<rparr>)),
     CLOCK_MONOTONIC = 1,
     sys_clock_gettime = (\<lambda>clock s. ((int (lo_ms s div 1000), int (lo_ms s mod 1000) * 1000000), s)),
     sys_getpid = (\<lambda>s. (1, s)), sys_usleep = (\<lambda>us s. (0, s\<lparr>lo_ms := lo_ms s + nat us div 1000\<rparr>))\<rparr>"

lemma loop_setup_keeps: "setup_keeps loop_posix v"
  by (simp add: setup_keeps_def loop_posix_def)

lemma loop_socket_laws: "socket_laws loop_posix (\<lambda>s fd. lo_queue s) lo_sent"
proof -
  have "recv_law loop_posix (\<lambda>s fd. lo_queue s) lo_sent"
    by (auto simp: recv_law_def loop_posix_def loop_recv_def overwrite_def Let_def split: if_splits)
  moreover have "send_law loop_posix (\<lambda>s fd. lo_queue s) lo_sent"
    by (auto simp: send_law_def loop_posix_def)
  ultimately show ?thesis
    using loop_setup_keeps [of lo_sent] by (simp add: socket_laws_def) (simp add: loop_posix_def loop_socket_def Let_def)
qed

lemma loop_descriptor_laws: "descriptor_laws loop_posix (\<lambda>s. set (lo_open s))"
proof -
  have "Max (insert 2 (set l)) + 1 \<notin> set l \<and> Max (insert 2 (set l)) + 1 \<ge> 0" for l :: "int list"
  proof -
    have "2 \<le> Max (insert 2 (set l))" by (rule Max_ge) simp_all
    then have "0 \<le> Max (insert 2 (set l)) + 1" by linarith
    moreover have "Max (insert 2 (set l)) + 1 \<notin> insert 2 (set l)"
      using Max_ge [of "insert 2 (set l)" "Max (insert 2 (set l)) + 1"] by fastforce
    ultimately show ?thesis by blast
  qed
  moreover have "lo_open (snd (snd (loop_recv buf len s))) = lo_open s" for buf len s
    by (simp add: loop_recv_def Let_def)
  moreover have "sys_socket loop_posix f ty p s = loop_socket s" "sys_close loop_posix fd s = (0, s\<lparr>lo_open := removeAll fd (lo_open s)\<rparr>)"
    "sys_recv loop_posix fd buf len flags s = loop_recv buf len s" "lo_open (snd (sys_send loop_posix fd buf len flags s)) = lo_open s"
    for f ty p fd buf len flags s by (simp_all add: loop_posix_def)
  ultimately show ?thesis
    unfolding descriptor_laws_def using loop_setup_keeps by (intro conjI) (auto simp: loop_socket_def Let_def)
qed

definition loop_tcp :: aemlib_posix_tcp where
  "loop_tcp = aemlib_posix_tcp_init \<lparr>tcp_fd = 0, tcp_host = [], tcp_port = 0, tcp_connecting = 0\<rparr> [0x62, 0] 1883"

definition loop_state :: "byte list \<Rightarrow> loop_os" where
  "loop_state bs = \<lparr>lo_queue = bs, lo_sent = [], lo_open = [2, 1, 0], lo_errno = 0, lo_ms = 0\<rparr>"

definition loop_store :: "byte list \<Rightarrow> loop_os tcp_store" where
  "loop_store bs = \<lparr>ts_tcp = [0 \<mapsto> loop_tcp], ts_os = loop_state bs\<rparr>"

lemma cstr_loop_host: "cstr [0x62, 0] = Some [0x62]"
  by (simp add: cstr_def)

lemma loop_store_ok:
  "tcp_inv 0 (loop_store bs)" "tcp_inq (\<lambda>s fd. lo_queue s) 0 (loop_store bs) = bs" "tcp_outq lo_sent (loop_store bs) = []"
  "tcp_idle (\<lambda>s. set (lo_open s)) {0, 1, 2} 0 (loop_store bs)" "tcp_closed (\<lambda>s. set (lo_open s)) {0, 1, 2} 0 (loop_store bs)"
  by (auto simp: tcp_inv_def tcp_inq_def tcp_outq_def tcp_link_defs loop_store_def loop_state_def loop_tcp_def
      aemlib_posix_tcp_init_def cstr_loop_host)

section \<open>Properties of the transport\<close>

text \<open>
  C18: the TCP transport keeps the contract that the client relies on, provided the sockets behave as documented: no call
  runs into undefined behaviour; a read stores a prefix of the bytes received and nothing behind the length it was given; a
  write reports exactly the bytes the system has accepted; a call that reports an error or WOULD_BLOCK moves nothing; opening
  and closing the connection, in any of their outcomes, send nothing.
\<close>

theorem tcp_transport_contract:
  assumes "socket_laws os queue sent"
  shows "transport_impl (tcp_connect os ctx) (tcp_disconnect os ctx) (tcp_read os ctx) (tcp_write os ctx)
    (tcp_inv ctx) (tcp_inq queue ctx) (tcp_outq sent)"
  by (rule tcp_impl [OF assms])

theorem tcp_transport_contract_witness:
  "\<exists>st buf n w. tcp_read loop_posix 0 (loop_store [0x20, 2, 0, 0]) [9, 9, 9] 3 0 = Some (st, buf, n, w) \<and> length buf = 3
    \<and> (st = AEMLIB_STATUS_OK \<longrightarrow> take (unat n) buf = take (unat n) [0x20, 2, 0, 0])"
  using transport_impl.rd_ok [OF tcp_transport_contract [OF loop_socket_laws, of 0] loop_store_ok(1),
      of 3 "[9, 9, 9]" "[0x20, 2, 0, 0]" 0]
  by (auto simp: loop_store_ok split: if_splits)

text \<open>
  C24: opening a connection never loses a descriptor. From a transport that is closed or whose connect is in progress, one call of
  connect returns one of four statuses. After OK the transport is up and owns exactly one new descriptor; after WOULD_BLOCK it owns the
  one whose connect is in progress; after an error (failed lookup, no socket, refused, failed later) it is closed and everything it had
  opened is closed again, with one exception: when \<^verbatim>\<open>poll\<close> itself fails, the error is reported and the transport stays as it
  was. Disconnecting from any of these states leaves the transport closed.
\<close>

theorem tcp_connect_owns_descriptor:
  assumes "descriptor_laws os opened" "tcp_idle opened base ctx w"
  shows "\<exists>st w' w''. tcp_connect os ctx w = Some (st, w')
    \<and> (if st = AEMLIB_STATUS_OK then tcp_up opened base ctx w'
       else if st = io_would_block then tcp_pending opened base ctx w'
       else st \<in> {io_connect, io_error} \<and> (if tcp_pending opened base ctx w \<and> poll_failed os ctx w
         then st = io_connect \<and> ts_tcp w' = ts_tcp w \<and> tcp_pending opened base ctx w' else tcp_closed opened base ctx w'))
    \<and> tcp_disconnect os ctx w' = Some (AEMLIB_STATUS_OK, w'') \<and> tcp_closed opened base ctx w''"
proof -
  obtain t where t: "ts_tcp w ctx = Some t" "cstr (tcp_host t) \<noteq> None" using assms(2) by (auto simp: tcp_idle_def tcp_phase_defs)
  obtain st t' s' where "(if tcp_connecting t \<noteq> 0 then Some (tcp_poll_connect os t (ts_os w)) else tcp_start_connect os t (ts_os w))
      = Some (st, t', s')"
    using tcp_start_connect_defined [OF t(2), of os "ts_os w"]
    by (cases "tcp_poll_connect os t (ts_os w)"; cases "tcp_connecting t = 0") auto
  then obtain w' where c: "tcp_connect os ctx w = Some (st, w')" using t(1) by (simp add: tcp_connect_def)
  note l = tcp_connect_phase [OF assms c]
  then have l': "tcp_idle opened base ctx w' \<or> tcp_up opened base ctx w'" by (auto simp: tcp_idle_def split: if_splits)
  then obtain t1 where "ts_tcp w' ctx = Some t1" by (auto simp: tcp_idle_def tcp_phase_defs)
  then obtain w'' where d: "tcp_disconnect os ctx w' = Some (AEMLIB_STATUS_OK, w'')"
    by (auto simp: tcp_disconnect_def Let_def split_def)
  from tcp_disconnect_link [OF assms(1) l' d] show ?thesis using c l d by blast
qed

theorem tcp_connect_owns_descriptor_witness:
  "\<exists>st w' w''. tcp_connect loop_posix 0 (loop_store []) = Some (st, w') \<and> \<not> tcp_pending (\<lambda>s. set (lo_open s)) {0, 1, 2} 0 (loop_store [])
    \<and> tcp_disconnect loop_posix 0 w' = Some (AEMLIB_STATUS_OK, w'') \<and> tcp_closed (\<lambda>s. set (lo_open s)) {0, 1, 2} 0 w''"
proof -
  have "\<not> tcp_pending (\<lambda>s. set (lo_open s)) {0, 1, 2} 0 (loop_store [])"
    by (simp add: tcp_phase_defs loop_store_def loop_tcp_def aemlib_posix_tcp_init_def)
  then show ?thesis using tcp_connect_owns_descriptor [OF loop_descriptor_laws loop_store_ok(4), of "[]"] by blast
qed

end
