(* ===== verification/Aem_Broker_Demo.thy ===== *)
theory Aem_Broker_Demo
  imports Aem_Posix_Tcp Aem_Link
begin

text \<open>
  The second demonstration program (\<^verbatim>\<open>examples/mqtt_broker_demo.c\<close>): a client that connects to a real broker over the
  TCP transport, subscribes to a topic, publishes to it and waits for the echo. The theory also discharges the contract of
  the platform for the TCP transport with the clock and the callback of this program, under the laws of the operating system.
  Console output is left out.
\<close>

section \<open>Clock and callback\<close>

text \<open>The static variable \<^verbatim>\<open>g_received\<close> that the callback sets, and the messages it prints.\<close>

record 'o broker_world = "'o tcp_store" +
  g_received :: int
  g_printed :: "message list"

definition BROKER_HOST :: mem where
  "BROKER_HOST = cstring (ascii ''test.mosquitto.org'')"

definition BROKER_PORT :: uint16 where
  "BROKER_PORT = 1883"

definition BROKER_PAYLOAD :: "byte list" where
  "BROKER_PAYLOAD = ascii ''hello from aemlib over real TCP''"

definition OVERALL_TIMEOUT_MS :: uint64 where
  "OVERALL_TIMEOUT_MS = 15000"

definition real_time_now :: "'o posix \<Rightarrow> ('o, 'x) tcp_store_scheme \<Rightarrow> uint64 \<times> ('o, 'x) tcp_store_scheme" where
  "real_time_now os w =
     (let ((tv_sec, tv_nsec), s) = sys_clock_gettime os (CLOCK_MONOTONIC os) (ts_os w)
      in (of_int tv_sec * 1000 + of_int (tv_nsec sdiv 1000000), w\<lparr>ts_os := s\<rparr>))"

definition broker_on_message :: "'o broker_world aemlib_message_fn" where
  "broker_on_message topic payload w = w\<lparr>g_printed := g_printed w @ [(topic, payload)], g_received := 1\<rparr>"

section \<open>Main program\<close>

text \<open>
  The loop may go on as long as the clock stands still, so it takes fuel. It ends with a return from \<^verbatim>\<open>main\<close>, with
  the client behind the loop, or because the fuel is used up.
\<close>

datatype 'c loop_exit = Loop_Return int | Loop_Done 'c | Loop_Fuel

definition broker_subscribe_step ::
    "'o posix \<Rightarrow> mem \<Rightarrow> bool \<Rightarrow> uint64 \<Rightarrow> 'o broker_world aemlib_client \<Rightarrow> 'o broker_world \<Rightarrow>
     (bool \<times> uint64 \<times> 'o broker_world aemlib_client \<times> 'o broker_world) option" where
  "broker_subscribe_step os topic subscribed subscribe_time c w =
     (if c_state c = AEMLIB_STATE_MQTT_CONNECTED \<and> \<not> subscribed then do {
        (_, client, w) \<leftarrow> aemlib_subscribe (Some c) topic 0 w;
        c \<leftarrow> client;
        let (t, w) = real_time_now os w
        in Some (True, t, c, w)
      } else Some (subscribed, subscribe_time, c, w))"

definition broker_publish_step ::
    "'o posix \<Rightarrow> mem \<Rightarrow> bool \<Rightarrow> bool \<Rightarrow> uint64 \<Rightarrow> 'o broker_world aemlib_client \<Rightarrow> 'o broker_world \<Rightarrow>
     (bool \<times> 'o broker_world aemlib_client \<times> 'o broker_world) option" where
  "broker_publish_step os topic subscribed published subscribe_time c w =
     (if subscribed \<and> \<not> published then
        let (t, w) = real_time_now os w in
        if t - subscribe_time > 500 then do {
          (_, client, w) \<leftarrow> aemlib_publish (Some c) topic (cstring BROKER_PAYLOAD) (of_nat (length BROKER_PAYLOAD)) 0 w;
          c \<leftarrow> client;
          Some (True, c, w)
        } else Some (published, c, w)
      else Some (published, c, w))"

fun broker_demo_loop ::
    "nat \<Rightarrow> 'o posix \<Rightarrow> mem \<Rightarrow> uint64 \<Rightarrow> bool \<Rightarrow> bool \<Rightarrow> uint64 \<Rightarrow> 'o broker_world aemlib_client \<Rightarrow> 'o broker_world \<Rightarrow>
     ('o broker_world aemlib_client loop_exit \<times> 'o broker_world) option" where
  "broker_demo_loop 0 os topic start subscribed published subscribe_time c w = Some (Loop_Fuel, w)"
| "broker_demo_loop (Suc n) os topic start subscribed published subscribe_time c w =
     (let (now, w) = real_time_now os w in
      if now - start < OVERALL_TIMEOUT_MS then do {
        (status, client, w) \<leftarrow> aemlib_poll (Some c) w;
        if status \<noteq> AEMLIB_STATUS_OK then Some (Loop_Return 1, w)
        else do {
          c \<leftarrow> client;
          (subscribed, subscribe_time, c, w) \<leftarrow> broker_subscribe_step os topic subscribed subscribe_time c w;
          (published, c, w) \<leftarrow> broker_publish_step os topic subscribed published subscribe_time c w;
          if g_received w \<noteq> 0 then Some (Loop_Done c, w)
          else
            let (_, s) = sys_usleep os 20000 (ts_os w)
            in broker_demo_loop n os topic start subscribed published subscribe_time c (w\<lparr>ts_os := s\<rparr>)
        }
      } else Some (Loop_Done c, w))"

definition broker_config :: "'o posix \<Rightarrow> mem \<Rightarrow> mem \<Rightarrow> 'o broker_world aemlib_transport \<Rightarrow> 'o broker_world aemlib_config" where
  "broker_config os tx_buf rx_buf t = \<lparr>
     cfg_tx_buffer = Some tx_buf, cfg_tx_buffer_size = of_nat (length tx_buf),
     cfg_rx_buffer = Some rx_buf, cfg_rx_buffer_size = of_nat (length rx_buf),
     cfg_transport = t, cfg_time = \<lparr>now_ms = Some (real_time_now os)\<rparr>,
     cfg_storage = \<lparr>write_record = None, read_record = None, delete_record = None\<rparr>,
     cfg_keepalive_interval_ms = 60000, cfg_on_message = Some broker_on_message\<rparr>"

definition decimal_int :: "int \<Rightarrow> byte list" where
  "decimal_int i = (if i < 0 then 0x2D # decimal (nat (- i)) else decimal (nat i))"

text \<open>
  What \<^verbatim>\<open>main\<close> does once the loop is left, and \<^verbatim>\<open>main\<close> itself; the arrays of its stack frame (the two buffers and
  \<^verbatim>\<open>topic\<close>) and the uninitialised structures are arguments. \<^term>\<open>None\<close> as exit code: the fuel is used up.
\<close>

definition broker_leave ::
    "'o broker_world aemlib_client loop_exit \<Rightarrow> 'o broker_world \<Rightarrow> (int option \<times> 'o broker_world) option" where
  "broker_leave exit w =
     (case exit of
        Loop_Fuel \<Rightarrow> Some (None, w)
      | Loop_Return code \<Rightarrow> Some (Some code, w)
      | Loop_Done c \<Rightarrow>
          let (_, c) = aemlib_disconnect (Some c) in do {
            (_, _, w) \<leftarrow> aemlib_poll c w;
            Some (Some (if g_received w = 0 then 1 else 0), w)
          })"

definition broker_main ::
    "nat \<Rightarrow> 'o posix \<Rightarrow> mem \<Rightarrow> mem \<Rightarrow> mem \<Rightarrow> 'o broker_world aemlib_client \<Rightarrow> 'o broker_world \<Rightarrow> (int option \<times> 'o broker_world) option" where
  "broker_main fuel os topic tx_buf rx_buf client w =
     (let (pid, s) = sys_getpid os (ts_os w);
          (t0, w) = real_time_now os (w\<lparr>ts_os := s\<rparr>) in do {
      (_, topic) \<leftarrow> vsnprintf topic 128 (Some (ascii ''aemlib/demo/'' @ decimal_int pid @ ascii ''/'' @ decimal (unat t0)));
      t \<leftarrow> ts_tcp w 0;
      let w = w\<lparr>ts_tcp := (ts_tcp w)(0 \<mapsto> aemlib_posix_tcp_init t BROKER_HOST BROKER_PORT)\<rparr> in do {
      (status, c, w) \<leftarrow> aemlib_init (Some client) (Some (broker_config os tx_buf rx_buf (aemlib_posix_tcp_bind os 0))) w;
      if status \<noteq> AEMLIB_STATUS_OK then Some (Some 1, w)
      else
        let (status, c) = aemlib_connect c in
        if status \<noteq> AEMLIB_STATUS_OK then Some (Some 1, w)
        else
          let (start, w) = real_time_now os w in do {
          c \<leftarrow> c;
          (exit, w) \<leftarrow> broker_demo_loop fuel os topic start False False 0 c w;
          broker_leave exit w
          }}})"

section \<open>The platform\<close>

lemma tcp_fields [simp]:
  "tcp_inv ctx (w\<lparr>g_received := r\<rparr>) = tcp_inv ctx w" "tcp_inv ctx (w\<lparr>g_printed := p\<rparr>) = tcp_inv ctx w"
  "tcp_inq q ctx (w\<lparr>g_received := r\<rparr>) = tcp_inq q ctx w" "tcp_inq q ctx (w\<lparr>g_printed := p\<rparr>) = tcp_inq q ctx w"
  "tcp_outq s (w\<lparr>g_received := r\<rparr>) = tcp_outq s w" "tcp_outq s (w\<lparr>g_printed := p\<rparr>) = tcp_outq s w"
  "tcp_idle o1 b ctx (w\<lparr>g_received := r\<rparr>) = tcp_idle o1 b ctx w" "tcp_idle o1 b ctx (w\<lparr>g_printed := p\<rparr>) = tcp_idle o1 b ctx w"
  "tcp_up o1 b ctx (w\<lparr>g_received := r\<rparr>) = tcp_up o1 b ctx w" "tcp_up o1 b ctx (w\<lparr>g_printed := p\<rparr>) = tcp_up o1 b ctx w"
  by (simp_all add: tcp_inv_def tcp_inq_def tcp_outq_def tcp_link_defs)

lemma tcp_printed:
  "tcp_connect os ctx w = Some (st, w') \<Longrightarrow> g_printed w' = g_printed w \<and> g_received w' = g_received w"
  "tcp_disconnect os ctx w = Some (st, w') \<Longrightarrow> g_printed w' = g_printed w \<and> g_received w' = g_received w"
  "tcp_read os ctx w buf len n0 = Some (st, buf', n, w') \<Longrightarrow> g_printed w' = g_printed w \<and> g_received w' = g_received w"
  "tcp_write os ctx w data len n0 = Some (st, n, w') \<Longrightarrow> g_printed w' = g_printed w \<and> g_received w' = g_received w"
  by (auto simp: tcp_connect_def tcp_disconnect_def tcp_read_def tcp_write_def bind_Some_iff Let_def split_def split: if_splits)

lemma real_time_now_snd: "snd (real_time_now os w) = w\<lparr>ts_os := snd (sys_clock_gettime os (CLOCK_MONOTONIC os) (ts_os w))\<rparr>"
  by (simp add: real_time_now_def split_def Let_def)

lemma real_time_now_world: "real_time_now os w = (t, w') \<Longrightarrow> w' = w\<lparr>ts_os := snd (sys_clock_gettime os (CLOCK_MONOTONIC os) (ts_os w))\<rparr>"
  using real_time_now_snd [of os w] by simp

lemma broker_platform:
  assumes "socket_laws os queue sent"
  shows "platform (tcp_connect os ctx) (tcp_disconnect os ctx) (tcp_read os ctx) (tcp_write os ctx)
    (tcp_inv ctx) (tcp_inq queue ctx) (tcp_outq sent) (real_time_now os) broker_on_message g_printed"
proof -
  have clock: "queue (snd (sys_clock_gettime os clk s)) = queue s" "sent (snd (sys_clock_gettime os clk s)) = sent s" for clk s
    using assms by (simp_all add: socket_laws_def setup_keeps_def)
  show ?thesis
  proof (rule platform.intro [OF tcp_impl [OF assms]], rule platform_axioms.intro, goal_cases)
    case (1 w)
    then show ?case by (simp add: real_time_now_snd tcp_inv_def tcp_inq_def tcp_outq_def clock)
  next
    case (2 w topic payload)
    then show ?case by (simp add: broker_on_message_def)
  qed (rule conjunct1, rule tcp_printed, assumption)+
qed

section \<open>Descriptors and time\<close>

lemma tcp_same_link:
  assumes "ts_tcp w' = ts_tcp w" "opened (ts_os w') = opened (ts_os w)"
  shows "same_link (tcp_released os opened base ctx) (tcp_idle opened base ctx) (tcp_up opened base ctx) w w'"
  using tcp_phase_cong [OF assms] by (simp add: same_link_def tcp_released_def tcp_idle_def tcp_closed_def tcp_pending_def tcp_up_def)

lemma broker_phased:
  assumes "socket_laws os queue sent" "descriptor_laws os opened"
  shows "phased (tcp_connect os ctx) (tcp_disconnect os ctx) (tcp_read os ctx) (tcp_write os ctx)
    (tcp_inv ctx) (tcp_inq queue ctx) (tcp_outq sent) (real_time_now os) broker_on_message g_printed
    (tcp_released os opened base ctx) (tcp_idle opened base ctx) (tcp_up opened base ctx)"
proof -
  have clock: "opened (snd (sys_clock_gettime os clk s)) = opened s" for clk s
    using assms(2) by (simp add: descriptor_laws_def setup_keeps_def)
  show ?thesis
  proof (rule phased.intro [OF broker_platform [OF assms(1)]], rule phased_axioms.intro, goal_cases)
    case (1 w)
    then show ?case by (auto simp: tcp_released_def tcp_idle_def)
  next
    case (2 w st w')
    then show ?case by (rule tcp_connect_link [OF assms(2)])
  next
    case (3 w st w')
    then show ?case using tcp_disconnect_link [OF assms(2) 3] by (simp add: tcp_released_def)
  next
    case (4 w buf len n0 st buf' n w')
    then show ?case using tcp_io_link [OF assms(2)] by (intro tcp_same_link) blast+
  next
    case (5 w data len n0 st n w')
    then show ?case using tcp_io_link [OF assms(2)] by (intro tcp_same_link) blast+
  next
    case (6 w t w')
    then show ?case using real_time_now_world [OF 6] by (intro tcp_same_link) (simp_all add: clock)
  next
    case (7 w topic payload)
    then show ?case by (intro tcp_same_link) (simp_all add: broker_on_message_def)
  qed
qed

text \<open>
  The documented behaviour of the monotonic clock: \<open>ms s\<close> is the time in milliseconds, reading the clock returns it, no call
  turns it back, and a sleep lets the time pass that was asked for.
\<close>

definition clock_laws :: "'o posix \<Rightarrow> ('o \<Rightarrow> nat) \<Rightarrow> bool" where
  "clock_laws os ms \<longleftrightarrow>
     (\<forall>s sec nsec s'. sys_clock_gettime os (CLOCK_MONOTONIC os) s = ((sec, nsec), s') \<longrightarrow>
        0 \<le> sec \<and> 0 \<le> nsec \<and> ms s \<le> ms s' \<and> nat sec * 1000 + nat nsec div 1000000 = ms s')
   \<and> (\<forall>us s. ms s + nat us div 1000 \<le> ms (snd (sys_usleep os us s)))
   \<and> (\<forall>host service hints s. ms s \<le> ms (snd (snd (sys_getaddrinfo os host service hints s))))
   \<and> (\<forall>res s. ms s \<le> ms (sys_freeaddrinfo os res s))
   \<and> (\<forall>family type protocol s. ms s \<le> ms (snd (sys_socket os family type protocol s)))
   \<and> (\<forall>fd s. ms s \<le> ms (snd (sys_fcntl_getfl os fd s)))
   \<and> (\<forall>fd flags s. ms s \<le> ms (snd (sys_fcntl_setfl os fd flags s)))
   \<and> (\<forall>fd addr s. ms s \<le> ms (snd (sys_connect os fd addr s)))
   \<and> (\<forall>fd s. ms s \<le> ms (snd (sys_close os fd s)))
   \<and> (\<forall>fd events timeout s. ms s \<le> ms (snd (sys_poll os fd events timeout s)))
   \<and> (\<forall>fd err s. ms s \<le> ms (snd (snd (sys_so_error os fd err s))))
   \<and> (\<forall>fd buf len flags s. ms s \<le> ms (snd (snd (sys_recv os fd buf len flags s))))
   \<and> (\<forall>fd buf len flags s. ms s \<le> ms (snd (sys_send os fd buf len flags s)))"

definition not_before :: "('o \<Rightarrow> nat) \<Rightarrow> ('o, 'x) tcp_store_scheme \<Rightarrow> ('o, 'x) tcp_store_scheme \<Rightarrow> bool" where
  "not_before ms w w' \<longleftrightarrow> ms (ts_os w) \<le> ms (ts_os w')"

lemma clock_reading:
  assumes "clock_laws os ms" "real_time_now os w = (t, w')"
  shows "t = of_nat (ms (ts_os w'))" "ms (ts_os w) \<le> ms (ts_os w')"
proof -
  obtain sec nsec s where c: "sys_clock_gettime os (CLOCK_MONOTONIC os) (ts_os w) = ((sec, nsec), s)" by (metis prod.exhaust)
  then have l: "0 \<le> sec" "0 \<le> nsec" "ms (ts_os w) \<le> ms s" "nat sec * 1000 + nat nsec div 1000000 = ms s"
    using conjunct1 [OF assms(1) [unfolded clock_laws_def], rule_format, OF c] by simp_all
  have "nsec sdiv 1000000 = int (nat nsec div 1000000)"
    using l(2) by (simp add: signed_divide_int_def sgn_if zdiv_int)
  then have "of_int sec * 1000 + of_int (nsec sdiv 1000000) = (of_nat (nat sec * 1000 + nat nsec div 1000000) :: uint64)"
    using l(1) by (simp flip: of_nat_nat)
  then show "t = of_nat (ms (ts_os w'))" "ms (ts_os w) \<le> ms (ts_os w')"
    using assms(2) c l(3,4) by (auto simp: real_time_now_def)
qed

lemma clock_mono:
  assumes "clock_laws os ms"
  shows "ms s \<le> ms (snd (snd (sys_getaddrinfo os host service hints s)))" "ms s \<le> ms (sys_freeaddrinfo os res s)"
    "ms s \<le> ms (snd (sys_socket os family ty protocol s))" "ms s \<le> ms (snd (sys_fcntl_getfl os fd s))"
    "ms s \<le> ms (snd (sys_fcntl_setfl os fd flags s))" "ms s \<le> ms (snd (sys_connect os fd addr s))"
    "ms s \<le> ms (snd (sys_close os fd s))" "ms s \<le> ms (snd (sys_poll os fd events timeout s))"
    "ms s \<le> ms (snd (snd (sys_so_error os fd err s)))" "ms s \<le> ms (snd (snd (sys_recv os fd buf len flags s)))"
    "ms s \<le> ms (snd (sys_send os fd buf len flags s))"
  using assms by (simp_all add: clock_laws_def)

lemma tcp_start_connect_ms:
  assumes laws: "clock_laws os ms" and r: "tcp_start_connect os t s = Some (st, t', s')"
  shows "ms s \<le> ms s'"
proof -
  note mono = clock_mono [OF laws]
  obtain host where "cstr (tcp_host t) = Some host"
    using r by (auto simp: tcp_start_connect_def Let_def bind_Some_iff)
  then show ?thesis
    using r
  proof (cases rule: tcp_start_connect_cases)
    case (lookup rc res)
    then show ?thesis using mono(1) by (metis snd_conv)
  next
    case (no_socket res s1 fd s2)
    then have "ms s \<le> ms s1" "ms s1 \<le> ms s2" "ms s2 \<le> ms s'" using mono(1-3) by (metis snd_conv)+
    then show ?thesis by simp
  next
    case (opened res s1 fd s2 n s3 m s4 rc s5 s6)
    then have "ms s \<le> ms s1" "ms s1 \<le> ms s2" "ms s2 \<le> ms s3" "ms s3 \<le> ms s4" "ms s4 \<le> ms s5" "ms s5 \<le> ms s6"
      using mono(1-6) by (metis snd_conv)+
    moreover have "ms s6 \<le> ms s'" using opened(8) mono(7) by auto
    ultimately show ?thesis by simp
  qed
qed

lemma tcp_poll_connect_ms:
  assumes laws: "clock_laws os ms" and r: "tcp_poll_connect os t s = (st, t', s')"
  shows "ms s \<le> ms s'"
proof -
  note mono = clock_mono [OF laws]
  obtain rv s1 where 1: "sys_poll os (tcp_fd t) (POLLOUT os) 0 s = (rv, s1)" by (metis prod.exhaust)
  obtain rc err s2 where 2: "sys_so_error os (tcp_fd t) 0 s1 = (rc, err, s2)" by (metis prod_cases3)
  obtain n s3 where 3: "sys_close os (tcp_fd t) s2 = (n, s3)" by (metis prod.exhaust)
  have "ms s \<le> ms s1" "ms s1 \<le> ms s2" "ms s2 \<le> ms s3" using mono(7-9) 1 2 3 by (metis snd_conv)+
  moreover have "s' \<in> {s1, s2, s3}" using r 1 2 3 by (auto simp: tcp_poll_connect_def split: if_splits)
  ultimately show ?thesis by auto
qed

lemma tcp_not_before:
  assumes laws: "clock_laws os ms"
  shows "tcp_connect os ctx w = Some (st, w') \<Longrightarrow> not_before ms w w'"
    "tcp_disconnect os ctx w = Some (st, w') \<Longrightarrow> not_before ms w w'"
    "tcp_read os ctx w buf len n0 = Some (st, buf', n, w') \<Longrightarrow> not_before ms w w'"
    "tcp_write os ctx w data len n0 = Some (st, n, w') \<Longrightarrow> not_before ms w w'"
proof -
  note mono = clock_mono [OF laws]
  assume "tcp_connect os ctx w = Some (st, w')"
  then show "not_before ms w w'"
    using tcp_start_connect_ms [OF laws] tcp_poll_connect_ms [OF laws]
    by (auto simp: tcp_connect_def bind_Some_iff not_before_def split: if_splits prod.splits)
next
  note mono = clock_mono [OF laws]
  assume "tcp_disconnect os ctx w = Some (st, w')"
  then show "not_before ms w w'"
    using mono(7) by (auto simp: tcp_disconnect_def bind_Some_iff not_before_def Let_def split_def split: if_splits)
next
  note mono = clock_mono [OF laws]
  assume "tcp_read os ctx w buf len n0 = Some (st, buf', n, w')"
  then show "not_before ms w w'"
    using mono(10) by (auto simp: tcp_read_def bind_Some_iff not_before_def Let_def split_def split: if_splits)
next
  note mono = clock_mono [OF laws]
  assume "tcp_write os ctx w data len n0 = Some (st, n, w')"
  then show "not_before ms w w'"
    using mono(11) by (auto simp: tcp_write_def bind_Some_iff not_before_def Let_def split_def split: if_splits)
qed

text \<open>What happens between two points of the program: time goes on, and messages arrive.\<close>

definition broker_progress :: "('o \<Rightarrow> nat) \<Rightarrow> 'o broker_world \<Rightarrow> 'o broker_world \<Rightarrow> bool" where
  "broker_progress ms w w' \<longleftrightarrow> not_before ms w w'
     \<and> (\<exists>new. g_printed w' = g_printed w @ new \<and> g_received w' = (if new = [] then g_received w else 1))"

lemma broker_progress_quiet:
  "not_before ms w w' \<Longrightarrow> g_printed w' = g_printed w \<and> g_received w' = g_received w \<Longrightarrow> broker_progress ms w w'"
  by (simp add: broker_progress_def)

lemma broker_progress_trans [trans]: "broker_progress ms w w1 \<Longrightarrow> broker_progress ms w1 w2 \<Longrightarrow> broker_progress ms w w2"
  unfolding broker_progress_def not_before_def
proof (elim conjE exE, goal_cases)
  case (1 new new')
  then show ?case by (intro conjI exI [of _ "new @ new'"]) simp_all
qed

lemma real_time_progress: "clock_laws os ms \<Longrightarrow> real_time_now os w = (t, w') \<Longrightarrow> broker_progress ms w w'"
  using clock_reading(2) [of os ms w t w'] real_time_now_world [of os w t w']
  by (intro broker_progress_quiet) (auto simp: not_before_def)

lemma broker_evolving:
  assumes "socket_laws os queue sent" "clock_laws os ms"
  shows "evolving (tcp_connect os ctx) (tcp_disconnect os ctx) (tcp_read os ctx) (tcp_write os ctx)
    (tcp_inv ctx) (tcp_inq queue ctx) (tcp_outq sent) (real_time_now os) broker_on_message g_printed (broker_progress ms)"
proof (rule evolving.intro [OF stepped.intro [OF broker_platform [OF assms(1)]]], goal_cases)
  case 1
  show ?case
  proof (rule stepped_axioms.intro, goal_cases)
    case (2 w w1 w2)
    then show ?case by (rule broker_progress_trans)
  next
    case (5 w t w')
    then show ?case by (rule real_time_progress [OF assms(2)])
  qed (use tcp_not_before [OF assms(2)] tcp_printed broker_progress_quiet in
    \<open>fastforce simp: broker_progress_def not_before_def broker_on_message_def\<close>)+
next
  case 2
  show ?case
    by (rule evolving_axioms.intro; rule broker_progress_quiet; (rule tcp_printed tcp_not_before [OF assms(2)])?; assumption)
qed

end
