(* ===== verification/Aem_Broker_Run.thy ===== *)
theory Aem_Broker_Run
  imports Aem_Broker_Demo
begin

text \<open>
  Runs of \<^verbatim>\<open>examples/mqtt_broker_demo.c\<close>: every step of its loop returns and keeps the client well formed, the loop ends
  when its time is over, and so does the program.
\<close>

section \<open>Strings in larger buffers\<close>

text \<open>The encoders read a string up to its terminator, whatever the buffer holds behind it.\<close>

lemma write_utf8_buffer:
  assumes "0 \<notin> set s" "length s < 2 ^ 64"
  shows "aemlib_proto_write_utf8 buf buf_len offset (s @ 0 # r) = aemlib_proto_write_utf8 buf buf_len offset (cstring s)"
proof -
  have "strlen (s @ 0 # r) = Some (of_nat (length s))" using assms(1) by (simp add: strlen_def strlen_from_append)
  moreover have "mem_copy m d (s @ 0 # r) 0 (length s) = mem_copy m d (cstring s) 0 (length s)" for m d
    by (simp add: mem_copy_def)
  ultimately show ?thesis
    using assms by (simp add: aemlib_proto_write_utf8_def unat_of_nat_size)
qed

lemma encode_buffer:
  assumes "0 \<notin> set s" "length s < 2 ^ 64"
  shows "aemlib_proto_encode_publish buf buf_len n0 (s @ 0 # r) payload n = aemlib_proto_encode_publish buf buf_len n0 (cstring s) payload n"
    "aemlib_proto_encode_subscribe buf buf_len n0 pid (s @ 0 # r) = aemlib_proto_encode_subscribe buf buf_len n0 pid (cstring s)"
  unfolding aemlib_proto_encode_publish_def aemlib_proto_encode_subscribe_def write_utf8_buffer [OF assms] by (rule refl)+

lemma string_buffer:
  assumes "0 \<notin> set s" "length s < 2 ^ 64"
  shows "aemlib_publish client (s @ 0 # r) payload n qos w = aemlib_publish client (cstring s) payload n qos w"
    "aemlib_subscribe client (s @ 0 # r) qos w = aemlib_subscribe client (cstring s) qos w"
  unfolding aemlib_publish_def aemlib_subscribe_def encode_buffer [OF assms] by (rule refl)+

section \<open>Steps\<close>

definition broker_good :: "'o posix \<Rightarrow> 'o broker_world aemlib_client \<Rightarrow> 'o broker_world \<Rightarrow> bool" where
  "broker_good os c w \<longleftrightarrow> wf_client c \<and> tcp_inv 0 w
     \<and> runs_on (tcp_connect os 0) (tcp_disconnect os 0) (tcp_read os 0) (tcp_write os 0) (real_time_now os) broker_on_message c"

text \<open>A topic that the client can send: a string that fits its buffer.\<close>

definition topic_buffer :: "mem \<Rightarrow> bool" where
  "topic_buffer m \<longleftrightarrow> length m \<le> 128 \<and> (\<exists>s r. m = s @ 0 # r \<and> 0 \<notin> set s)"

lemma broker_good_world: "broker_good os c w \<Longrightarrow> broker_good os c (w\<lparr>ts_os := s\<rparr>)"
  by (simp add: broker_good_def tcp_inv_def)

lemma broker_good_now: "broker_good os c w \<Longrightarrow> real_time_now os w = (t, w') \<Longrightarrow> broker_good os c w'"
  by (drule real_time_now_world) (simp add: broker_good_world)

lemma broker_payload: "0 \<notin> set BROKER_PAYLOAD \<and> length BROKER_PAYLOAD = 31"
  by (simp add: BROKER_PAYLOAD_def ascii_def)

lemma broker_good_platform:
  assumes "socket_laws os queue sent"
  shows "broker_good os c w \<longleftrightarrow>
    platform.good (tcp_connect os 0) (tcp_disconnect os 0) (tcp_read os 0) (tcp_write os 0) (tcp_inv 0) (real_time_now os) broker_on_message c w"
  by (auto simp: platform.good_def [OF broker_platform [OF assms]] broker_good_def)

lemma broker_poll:
  assumes laws: "socket_laws os queue sent" "clock_laws os ms" and g: "broker_good os c w"
  obtains st c' w' where "aemlib_poll (Some c) w = Some (st, Some c', w')" "broker_good os c' w'" "broker_progress ms w w'"
proof -
  note P = broker_platform [OF laws(1), of 0] and G = broker_good_platform [OF laws(1)]
  obtain st c' w' where p: "aemlib_poll (Some c) w = Some (st, Some c', w')" "broker_good os c' w'"
    using platform.poll_ok [OF P g [unfolded G]] by (auto simp: platform.poll_result_def [OF P] G)
  show thesis by (rule that [OF p evolving.poll_rel [OF broker_evolving [OF laws] g [unfolded G] p(1)]])
qed

lemma broker_subscribe:
  assumes laws: "socket_laws os queue sent" "clock_laws os ms" and g: "broker_good os c w" and t: "topic_buffer topic"
  obtains s' t' c' w' where "broker_subscribe_step os topic s t c w = Some (s', t', c', w')" "broker_good os c' w'" "broker_progress ms w w'"
proof (cases "c_state c = AEMLIB_STATE_MQTT_CONNECTED \<and> \<not> s")
  case True
  note P = broker_platform [OF laws(1), of 0] and G = broker_good_platform [OF laws(1)]
  note E = evolving.axioms(1) [OF broker_evolving [OF laws, of 0]]
  obtain str r where str: "topic = str @ 0 # r" "0 \<notin> set str" "length str < 128" using t by (auto simp: topic_buffer_def)
  then have "topic_ok str" by (simp add: topic_ok_def)
  then obtain st c' w1 where p: "aemlib_subscribe (Some c) (cstring str) 0 w = Some (st, Some c', w1)" "broker_good os c' w1"
    using platform.subscribe_good [OF P g [unfolded G]] unfolding G by blast
  obtain now w' where n: "real_time_now os w1 = (now, w')" by (cases "real_time_now os w1")
  have "broker_progress ms w w1"
    using stepped.subscribe_rel [OF E _ p(1)] g by (simp add: broker_good_def)
  then have "broker_progress ms w w'" using real_time_progress [OF laws(2) n] by (rule broker_progress_trans)
  moreover have "broker_subscribe_step os topic s t c w = Some (True, now, c', w')"
    using True p(1) n str by (simp add: broker_subscribe_step_def string_buffer)
  ultimately show thesis using that broker_good_now [OF p(2) n] by blast
next
  case False
  then have "broker_subscribe_step os topic s t c w = Some (s, t, c, w)" by (auto simp: broker_subscribe_step_def)
  with that g show thesis by (simp add: broker_progress_quiet not_before_def)
qed

lemma broker_publish:
  assumes laws: "socket_laws os queue sent" "clock_laws os ms" and g: "broker_good os c w" and t: "topic_buffer topic"
  obtains p' c' w' where "broker_publish_step os topic s p u c w = Some (p', c', w')" "broker_good os c' w'" "broker_progress ms w w'"
proof (cases "s \<and> \<not> p")
  case True
  note P = broker_platform [OF laws(1), of 0] and G = broker_good_platform [OF laws(1)]
  note E = evolving.axioms(1) [OF broker_evolving [OF laws, of 0]]
  obtain now w1 where n: "real_time_now os w = (now, w1)" by (cases "real_time_now os w")
  have g1: "broker_good os c w1" "broker_progress ms w w1"
    using broker_good_now [OF g n] real_time_progress [OF laws(2) n] by simp_all
  show thesis
  proof (cases "now - u > 500")
    case late: True
    obtain str r where str: "topic = str @ 0 # r" "0 \<notin> set str" "length str < 128" using t by (auto simp: topic_buffer_def)
    then have "publish_arg_ok (str, cstring BROKER_PAYLOAD, 31)" using broker_payload by (simp add: publish_arg_ok_def)
    then obtain st c' w' where p: "aemlib_publish (Some c) (cstring str) (cstring BROKER_PAYLOAD) 31 0 w1 = Some (st, Some c', w')"
      "broker_good os c' w'"
      using platform.publish_good [OF P g1(1) [unfolded G]] unfolding G by blast
    have "broker_progress ms w1 w'"
      using stepped.publish_rel [OF E _ p(1)] g1(1) by (simp add: broker_good_def)
    then have "broker_progress ms w w'" by (rule broker_progress_trans [OF g1(2)])
    moreover have "broker_publish_step os topic s p u c w = Some (True, c', w')"
      using True late p(1) n str broker_payload by (simp add: broker_publish_step_def string_buffer)
    ultimately show thesis using that p(2) by blast
  next
    case False
    then have "broker_publish_step os topic s p u c w = Some (p, c, w1)" using True n by (simp add: broker_publish_step_def)
    with that g1 show thesis by blast
  qed
next
  case False
  then have "broker_publish_step os topic s p u c w = Some (p, c, w)" by (auto simp: broker_publish_step_def)
  with that g show thesis by (simp add: broker_progress_quiet not_before_def)
qed

section \<open>The loop ends\<close>

lemma usleep_progress:
  assumes "clock_laws os ms" "w' = w\<lparr>ts_os := snd (sys_usleep os 20000 (ts_os w))\<rparr>"
  shows "broker_progress ms w w'" "ms (ts_os w) + 20 \<le> ms (ts_os w')"
proof -
  have "ms (ts_os w) + nat 20000 div 1000 \<le> ms (snd (sys_usleep os 20000 (ts_os w)))"
    using conjunct1 [OF conjunct2 [OF assms(1) [unfolded clock_laws_def]]] by blast
  then show "ms (ts_os w) + 20 \<le> ms (ts_os w')" using assms(2) by simp
  then show "broker_progress ms w w'" using assms(2) by (intro broker_progress_quiet) (auto simp: not_before_def)
qed

lemma elapsed:
  assumes "m0 \<le> m" "m < 2 ^ 64" "of_nat m - of_nat m0 < OVERALL_TIMEOUT_MS"
  shows "m < m0 + 15000"
proof -
  have "of_nat m - of_nat m0 = (of_nat (m - m0) :: uint64)" using assms(1) by simp
  moreover have "unat (of_nat (m - m0) :: uint64) = m - m0" using assms(2) by (intro unat_of_nat_size) simp
  ultimately show ?thesis using assms(1,3) by (simp add: word_less_nat_alt OVERALL_TIMEOUT_MS_def)
qed

text \<open>
  One turn of the loop. The reading of the clock that lets it in bounds the time; behind the sleep at least 20 ms more
  have passed.
\<close>

lemma broker_turn:
  assumes laws: "socket_laws os queue sent" "clock_laws os ms" and g: "broker_good os c w" and t: "topic_buffer topic"
  obtains (left) x w' where "broker_demo_loop (Suc n) os topic start s p u c w = Some (x, w')" "broker_progress ms w w'"
      "x = Loop_Return 1 \<or> (\<exists>c'. x = Loop_Done c' \<and> broker_good os c' w')"
    | (turn) now w1 s' p' u' c' w' where "broker_demo_loop (Suc n) os topic start s p u c w = broker_demo_loop n os topic start s' p' u' c' w'"
      "broker_progress ms w w'" "broker_good os c' w'"
      "real_time_now os w = (now, w1)" "now - start < OVERALL_TIMEOUT_MS" "ms (ts_os w1) + 20 \<le> ms (ts_os w')"
proof -
  obtain now w1 where n: "real_time_now os w = (now, w1)" by (cases "real_time_now os w")
  have g1: "broker_good os c w1" "broker_progress ms w w1"
    using broker_good_now [OF g n] real_time_progress [OF laws(2) n] by simp_all
  obtain st c2 w2 where 2: "aemlib_poll (Some c) w1 = Some (st, Some c2, w2)" "broker_good os c2 w2" "broker_progress ms w1 w2"
    by (rule broker_poll [OF laws g1(1)])
  obtain s' u' c3 w3 where 3: "broker_subscribe_step os topic s u c2 w2 = Some (s', u', c3, w3)" "broker_good os c3 w3" "broker_progress ms w2 w3"
    by (rule broker_subscribe [OF laws 2(2) t])
  obtain p' c4 w4 where 4: "broker_publish_step os topic s' p u' c3 w3 = Some (p', c4, w4)" "broker_good os c4 w4" "broker_progress ms w3 w4"
    by (rule broker_publish [OF laws 3(2) t])
  define w5 where "w5 = w4\<lparr>ts_os := snd (sys_usleep os 20000 (ts_os w4))\<rparr>"
  have g5: "broker_good os c4 w5" unfolding w5_def by (rule broker_good_world [OF 4(2)])
  note 5 = usleep_progress [OF laws(2) w5_def]
  have p12: "broker_progress ms w w2" and p14: "broker_progress ms w1 w4"
    using broker_progress_trans g1(2) 2(3) 3(3) 4(3) by blast+
  have p45: "broker_progress ms w w4" "broker_progress ms w w5"
    using broker_progress_trans g1(2) p14 5(1) by blast+
  have t5: "ms (ts_os w1) + 20 \<le> ms (ts_os w5)"
    using p14 5(2) by (simp add: broker_progress_def not_before_def)
  show thesis
  proof (cases "now - start < OVERALL_TIMEOUT_MS")
    case False
    then show thesis using left [of "Loop_Done c" w1] n g1 by simp
  next
    case in_time: True
    show thesis
    proof (cases "st = AEMLIB_STATUS_OK \<and> g_received w4 = 0")
      case True
      then show thesis
        using turn [OF _ p45(2) g5 n in_time t5] n in_time 2(1) 3(1) 4(1)
        by (simp add: w5_def split_def)
    next
      case False
      then show thesis
        using left [of "Loop_Return 1" w2] left [of "Loop_Done c4" w4] n in_time 2(1) 3(1) 4(1,2) p12 p45(1)
        by (cases "st = AEMLIB_STATUS_OK") simp_all
    qed
  qed
qed

lemma broker_loop_ends:
  assumes laws: "socket_laws os queue sent" "clock_laws os ms" and t: "topic_buffer topic"
    and g: "broker_good os c w" and m0: "m0 \<le> ms (ts_os w)"
    and fuel: "2 ^ 64 \<le> ms (ts_os w) \<or> 0 < fuel \<and> m0 + 15000 \<le> ms (ts_os w) + 20 * (fuel - 1)"
  shows "\<exists>x w'. broker_demo_loop fuel os topic (of_nat m0) s p u c w = Some (x, w') \<and> broker_progress ms w w'
    \<and> (x = Loop_Return 1 \<or> (\<exists>c'. x = Loop_Done c' \<and> broker_good os c' w') \<or> x = Loop_Fuel \<and> 2 ^ 64 \<le> ms (ts_os w'))"
  using g m0 fuel
proof (induction fuel arbitrary: s p u c w)
  case 0
  then show ?case by (simp add: broker_progress_quiet not_before_def)
next
  case (Suc n)
  show ?case
    using laws Suc.prems(1) t
  proof (cases rule: broker_turn [where n = n and start = "of_nat m0" and s = s and p = p and u = u])
    case (left x w')
    then show ?thesis by blast
  next
    case (turn now w1 s' p' u' c' w')
    have now: "now = of_nat (ms (ts_os w1))" "ms (ts_os w) \<le> ms (ts_os w1)" using clock_reading [OF laws(2) turn(4)] by simp_all
    then have "2 ^ 64 \<le> ms (ts_os w1) \<or> ms (ts_os w1) < m0 + 15000"
      using elapsed [of m0 "ms (ts_os w1)"] turn(5) Suc.prems(2) by fastforce
    then have "2 ^ 64 \<le> ms (ts_os w') \<or> 0 < n \<and> m0 + 15000 \<le> ms (ts_os w') + 20 * (n - 1)"
      using Suc.prems(3) now(2) turn(6) by (cases n) auto
    moreover have "m0 \<le> ms (ts_os w')" using Suc.prems(2) now(2) turn(6) by linarith
    ultimately obtain x w2 where "broker_demo_loop n os topic (of_nat m0) s' p' u' c' w' = Some (x, w2)" "broker_progress ms w' w2"
      "x = Loop_Return 1 \<or> (\<exists>c'. x = Loop_Done c' \<and> broker_good os c' w2) \<or> x = Loop_Fuel \<and> 2 ^ 64 \<le> ms (ts_os w2)"
      using Suc.IH [OF turn(3)] by meson
    then show ?thesis using turn(1) broker_progress_trans [OF turn(2)] by metis
  qed
qed

section \<open>The program\<close>

lemma broker_host: "cstr BROKER_HOST \<noteq> None"
  by (simp add: BROKER_HOST_def ascii_def cstring_def cstr_def)

lemma broker_topic_text: "0 \<notin> set (ascii ''aemlib/demo/'' @ decimal_int pid @ ascii ''/'' @ decimal n)"
  using decimal_nonzero by (auto simp: decimal_int_def ascii_def)

lemma broker_topic_printed:
  assumes "length topic = 128" "0 \<notin> set text"
  obtains topic' where "vsnprintf topic 128 (Some text) = Some (True, topic')" "topic_buffer topic'"
proof -
  let ?s = "take 127 text"
  have copy: "mem_copy topic 0 (s @ [0]) 0 (length (s @ [0])) = Some (s @ 0 # drop (Suc (length s)) topic)" if "length s < 128" for s
    using that assms(1) by (simp add: mem_copy_def)
  have short: "length ?s < 128" by simp
  have "vsnprintf topic 128 (Some text) = Some (True, ?s @ 0 # drop (Suc (length ?s)) topic)"
    using copy [OF short] by (simp add: vsnprintf_def Let_def del: length_append length_take)
  moreover have "0 \<notin> set ?s" using assms(2) in_set_takeD by metis
  then have "topic_buffer (?s @ 0 # drop (Suc (length ?s)) topic)" unfolding topic_buffer_def using assms(1) by auto
  ultimately show thesis by (rule that)
qed

lemma broker_config_ok:
  assumes "length tx_buf = 512" "length rx_buf = 512"
  shows "config_ok (tcp_connect os 0) (tcp_disconnect os 0) (tcp_read os 0) (tcp_write os 0) (real_time_now os) broker_on_message
    (broker_config os tx_buf rx_buf (aemlib_posix_tcp_bind os 0))"
  using assms by (simp add: broker_config_def config_ok_def aemlib_posix_tcp_bind_def)

text \<open>The program up to the loop.\<close>

lemma broker_start:
  assumes laws: "socket_laws os queue sent"
    and len: "length topic = 128" "length tx_buf = 512" "length rx_buf = 512" and w: "ts_tcp w 0 = Some t" "g_received w = 0"
  obtains topic' c w' where "topic_buffer topic'" "broker_good os c w'" "g_received w' = 0" "g_printed w' = g_printed w"
    "\<And>fuel. broker_main fuel os topic tx_buf rx_buf client w = (let (start, w) = real_time_now os w' in
       broker_demo_loop fuel os topic' start False False 0 c w \<bind> (\<lambda>(exit, w). broker_leave exit w))"
proof -
  obtain pid s where pid: "sys_getpid os (ts_os w) = (pid, s)" by (cases "sys_getpid os (ts_os w)")
  obtain t0 w1 where n: "real_time_now os (w\<lparr>ts_os := s\<rparr>) = (t0, w1)" by (cases "real_time_now os (w\<lparr>ts_os := s\<rparr>)")
  have w1: "ts_tcp w1 0 = Some t" "g_received w1 = 0" "g_printed w1 = g_printed w" using real_time_now_world [OF n] w by simp_all
  obtain topic' where topic: "vsnprintf topic 128 (Some (ascii ''aemlib/demo/'' @ decimal_int pid @ ascii ''/'' @ decimal (unat t0))) = Some (True, topic')"
    "topic_buffer topic'" by (rule broker_topic_printed [OF len(1) broker_topic_text])
  define w2 where "w2 = w1\<lparr>ts_tcp := (ts_tcp w1)(0 \<mapsto> aemlib_posix_tcp_init t BROKER_HOST BROKER_PORT)\<rparr>"
  define w3 where "w3 = snd (real_time_now os w2)"
  let ?cfg = "broker_config os tx_buf rx_buf (aemlib_posix_tcp_bind os 0)"
  note P = broker_platform [OF laws, of 0]
  have inv: "tcp_inv 0 w2" using broker_host by (simp add: w2_def tcp_inv_def aemlib_posix_tcp_init_def)
  obtain c3 where i: "aemlib_init (Some client) (Some ?cfg) w2 = Some (AEMLIB_STATUS_OK, Some c3, w3)"
    "broker_good os c3 w3" "c_state c3 = AEMLIB_STATE_DISCONNECTED"
    using platform.init_good [OF P broker_config_ok [OF len(2,3)] inv, of client]
    by (auto simp: broker_good_platform [OF laws] w3_def)
  obtain c4 where c4: "aemlib_connect (Some c3) = (AEMLIB_STATUS_OK, Some c4)"
    using i(3) by (auto simp: aemlib_connect_def aemlib_core_connect_def)
  show thesis
  proof (rule that [OF topic(2)])
    show "broker_good os c4 w3"
      using platform.good_request(1) [OF P _ c4] i(2) by (simp add: broker_good_platform [OF laws])
    show "g_received w3 = 0" "g_printed w3 = g_printed w" using w1 by (simp_all add: w3_def w2_def real_time_now_snd)
    show "broker_main fuel os topic tx_buf rx_buf client w = (let (start, w) = real_time_now os w3 in
       broker_demo_loop fuel os topic' start False False 0 c4 w \<bind> (\<lambda>(exit, w). broker_leave exit w))" for fuel
      using pid n topic(1) w1(1) i(1) c4 by (simp add: broker_main_def w2_def [symmetric])
  qed
qed

text \<open>The end of the program, once the loop is left.\<close>

lemma broker_leave_ok:
  assumes laws: "socket_laws os queue sent" "clock_laws os ms" and g: "broker_good os c w"
  obtains w' where "broker_leave (Loop_Done c) w = Some (Some (if g_received w' = 0 then 1 else 0), w')" "broker_progress ms w w'"
proof -
  obtain st c1 where d: "aemlib_disconnect (Some c) = (st, Some c1)"
    by (cases "c_state c = AEMLIB_STATE_MQTT_CONNECTED") (auto simp: aemlib_disconnect_def aemlib_core_disconnect_def)
  have g1: "broker_good os c1 w"
    using platform.good_request(2) [OF broker_platform [OF laws(1), of 0] _ d] g by (simp add: broker_good_platform [OF laws(1)])
  obtain st' c2 w' where "aemlib_poll (Some c1) w = Some (st', Some c2, w')" "broker_progress ms w w'"
    by (rule broker_poll [OF laws g1])
  with that d show thesis by (simp add: broker_leave_def)
qed

section \<open>A system with a clock\<close>

lemma loop_clock_laws: "clock_laws loop_posix lo_ms"
proof -
  have "lo_ms (snd (snd (loop_recv buf len s))) = lo_ms s" "lo_ms (snd (loop_socket s)) = lo_ms s" for buf len s
    by (simp_all add: loop_recv_def loop_socket_def Let_def)
  then show ?thesis by (simp add: clock_laws_def loop_posix_def nat_mult_distrib)
qed

definition loop_world :: "byte list \<Rightarrow> loop_os broker_world" where
  "loop_world bs = tcp_store.extend (loop_store bs) \<lparr>g_received = 0, g_printed = []\<rparr>"

section \<open>Properties of the demonstration\<close>

text \<open>
  C16: the program ends. Whatever the broker and the network do, as long as the operating system keeps the documented
  behaviour of sockets and of the monotonic clock, \<^verbatim>\<open>main\<close> returns without undefined behaviour after at most 751 turns of its
  loop (each lasts at least 20 ms, and the loop is entered only in the first 15000), unless the clock has run for
  \<open>2 ^ 64\<close> milliseconds. The exit code is honest: 0 only if a message has been delivered during the run.
\<close>

theorem broker_main_returns:
  assumes laws: "socket_laws os queue sent" "clock_laws os ms"
    and len: "length topic = 128" "length tx_buf = 512" "length rx_buf = 512"
    and w: "ts_tcp w 0 = Some t" "g_received w = 0" and fuel: "751 \<le> fuel"
  shows "\<exists>code w'. broker_main fuel os topic tx_buf rx_buf client w = Some (code, w')
    \<and> (code = Some 0 \<and> g_printed w' \<noteq> g_printed w \<or> code = Some 1 \<or> code = None \<and> 2 ^ 64 \<le> ms (ts_os w'))"
proof -
  obtain topic' c w3 where 3: "topic_buffer topic'" "broker_good os c w3" "g_received w3 = 0" "g_printed w3 = g_printed w"
    and main: "\<And>fuel. broker_main fuel os topic tx_buf rx_buf client w = (let (start, w) = real_time_now os w3 in
       broker_demo_loop fuel os topic' start False False 0 c w \<bind> (\<lambda>(exit, w). broker_leave exit w))"
    by (rule broker_start [OF laws(1) len w]) blast
  obtain start w4 where n4: "real_time_now os w3 = (start, w4)" by (cases "real_time_now os w3")
  have p4: "broker_progress ms w3 w4" by (rule real_time_progress [OF laws(2) n4])
  have start: "start = of_nat (ms (ts_os w4))" by (rule clock_reading(1) [OF laws(2) n4])
  obtain x w5 where l: "broker_demo_loop fuel os topic' start False False 0 c w4 = Some (x, w5)" "broker_progress ms w4 w5"
    "x = Loop_Return 1 \<or> (\<exists>c'. x = Loop_Done c' \<and> broker_good os c' w5) \<or> x = Loop_Fuel \<and> 2 ^ 64 \<le> ms (ts_os w5)"
    using broker_loop_ends [OF laws 3(1) broker_good_now [OF 3(2) n4], of "ms (ts_os w4)" fuel False False 0] fuel
    unfolding start by force
  have leave: "broker_main fuel os topic tx_buf rx_buf client w = broker_leave x w5" using main [of fuel] n4 l(1) by simp
  show ?thesis
    using l(3)
  proof (elim disjE exE conjE)
    fix c' assume c': "x = Loop_Done c'" "broker_good os c' w5"
    obtain w' where f: "broker_leave (Loop_Done c') w5 = Some (Some (if g_received w' = 0 then 1 else 0), w')" "broker_progress ms w5 w'"
      by (rule broker_leave_ok [OF laws c'(2)])
    have "broker_progress ms w3 w'" using broker_progress_trans p4 l(2) f(2) by blast
    then have "g_received w' \<noteq> 0 \<Longrightarrow> g_printed w' \<noteq> g_printed w" using 3(3,4) by (auto simp: broker_progress_def)
    then show ?thesis using leave c'(1) f(1) by simp
  qed (use leave in \<open>simp_all add: broker_leave_def\<close>)
qed

theorem broker_main_returns_witness:
  "\<exists>code w'. broker_main 751 loop_posix (replicate 128 1) (replicate 512 2) (replicate 512 3) zero_client (loop_world [0x20, 2, 0, 0])
      = Some (code, w') \<and> (code \<in> {Some 0, Some 1} \<or> 2 ^ 64 \<le> lo_ms (ts_os w'))"
proof -
  have w: "ts_tcp (loop_world [0x20, 2, 0, 0]) 0 = Some loop_tcp" "g_received (loop_world [0x20, 2, 0, 0]) = 0"
    by (simp_all add: loop_world_def loop_store_def tcp_store.defs)
  from broker_main_returns [OF loop_socket_laws loop_clock_laws _ _ _ w, of "replicate 128 1" "replicate 512 2" "replicate 512 3" 751 zero_client]
  show ?thesis by auto
qed

text \<open>
  C17: a client on the TCP transport never loses track of a descriptor, and has none left when it is disconnected unless \<^verbatim>\<open>poll\<close> fails. After initialisation on a closed transport and any run of the interface, in any state and
  with anything happening outside in between, at most one descriptor is open beyond those that belong to others, and it is the
  one the transport holds. A disconnected client holds none, however it became disconnected (connect refused or failed later, CONNACK refused, malformed or
  too late, closed by the application), as long as \<^verbatim>\<open>poll\<close> does not fail; where it can fail, a disconnected client holds
  at most the one whose connect was in progress. A connecting client holds one exactly while a connect is in progress, and in every later state it holds one.
\<close>

theorem tcp_client_descriptors:
  assumes laws: "socket_laws os queue sent" "descriptor_laws os opened"
    and "config_ok (tcp_connect os ctx) (tcp_disconnect os ctx) (tcp_read os ctx) (tcp_write os ctx) (real_time_now os) broker_on_message cfg"
    and "tcp_closed opened base ctx w" "aemlib_init (Some c) (Some cfg) w = Some (st, Some c0, w0)"
    and env: "\<And>u u'. env u u' \<Longrightarrow> ts_tcp u' = ts_tcp u \<and> opened (ts_os u') = opened (ts_os u)"
    and run: "api_run env c0 w0 c1 w1"
  shows "\<exists>t. ts_tcp w1 ctx = Some t
    \<and> opened (ts_os w1) = (if 0 \<le> tcp_fd t then insert (tcp_fd t) base else base) \<and> (0 \<le> tcp_fd t \<longrightarrow> tcp_fd t \<notin> base)
    \<and> (if c_state c1 = AEMLIB_STATE_DISCONNECTED
       then (if poll_law os then tcp_fd t < 0 \<and> tcp_connecting t = 0 else 0 \<le> tcp_fd t \<longleftrightarrow> tcp_connecting t \<noteq> 0)
       else if c_state c1 = AEMLIB_STATE_CONNECTING then 0 \<le> tcp_fd t \<longleftrightarrow> tcp_connecting t \<noteq> 0
       else 0 \<le> tcp_fd t \<and> tcp_connecting t = 0)"
proof -
  let ?link = "link_ok (tcp_released os opened base ctx) (tcp_idle opened base ctx) (tcp_up opened base ctx)"
  note L = broker_phased [OF laws, of ctx base] and P = broker_platform [OF laws(1), of ctx]
  have inv: "tcp_inv ctx w" using assms(4) by (auto simp: tcp_phase_defs tcp_inv_def)
  obtain c' w' where i: "aemlib_init (Some c) (Some cfg) w = Some (AEMLIB_STATUS_OK, Some c', w')" "w' = snd (real_time_now os w)"
    "platform.good (tcp_connect os ctx) (tcp_disconnect os ctx) (tcp_read os ctx) (tcp_write os ctx) (tcp_inv ctx) (real_time_now os) broker_on_message c' w'"
    "c_state c' = AEMLIB_STATE_DISCONNECTED"
    using platform.init_good [OF P assms(3) inv, of c] by blast
  then have c0: "c' = c0" "w' = w0" using assms(5) by simp_all
  have "same_link (tcp_released os opened base ctx) (tcp_idle opened base ctx) (tcp_up opened base ctx) w w0"
    using phased.now_link [OF L, of w "fst (real_time_now os w)" w0] i(2) c0 by simp
  then have start: "?link c0 w0"
    using assms(4) i(4) c0 by (simp add: same_link_def link_ok_def tcp_released_def)
  have "tcp_inv ctx u' \<and> same_link (tcp_released os opened base ctx) (tcp_idle opened base ctx) (tcp_up opened base ctx) u u'"
    if "tcp_inv ctx u" "env u u'" for u u'
    using that env [OF that(2)] tcp_same_link [of u' u] by (simp add: tcp_inv_def)
  from phased.api_run_link [OF L run i(3) [unfolded c0] start this]
  have "?link c1 w1" by blast
  then show ?thesis by (auto simp: link_ok_def tcp_link_defs split: if_splits)
qed

theorem tcp_client_descriptors_witness:
  "\<exists>c0 w0 c1 st c2 w2 t. aemlib_init (Some zero_client) (Some (broker_config loop_posix (replicate 512 0) (replicate 512 0) (aemlib_posix_tcp_bind loop_posix 0)))
      (loop_world []) = Some (AEMLIB_STATUS_OK, Some c0, w0)
    \<and> poll_law loop_posix \<and> (\<exists>t0. ts_tcp w0 0 = Some t0 \<and> tcp_fd t0 < 0)
    \<and> aemlib_connect (Some c0) = (AEMLIB_STATUS_OK, Some c1) \<and> aemlib_poll (Some c1) w0 = Some (st, Some c2, w2)
    \<and> ts_tcp w2 0 = Some t \<and> set (lo_open (ts_os w2)) = (if 0 \<le> tcp_fd t then {tcp_fd t, 0, 1, 2} else {0, 1, 2})"
proof -
  let ?cfg = "broker_config loop_posix (replicate 512 0) (replicate 512 0) (aemlib_posix_tcp_bind loop_posix 0)"
  let ?env = "\<lambda>u u' :: loop_os broker_world. False"
  have cfg: "config_ok (tcp_connect loop_posix 0) (tcp_disconnect loop_posix 0) (tcp_read loop_posix 0) (tcp_write loop_posix 0)
    (real_time_now loop_posix) broker_on_message ?cfg" by (rule broker_config_ok) simp_all
  have idle: "tcp_closed (\<lambda>s. set (lo_open s)) {0, 1, 2} 0 (loop_world [])" "tcp_inv 0 (loop_world [])"
    using loop_store_ok(1,5) [of "[]"] by (simp_all add: loop_world_def tcp_store.defs tcp_link_defs tcp_inv_def)
  obtain c0 w0 where i: "aemlib_init (Some zero_client) (Some ?cfg) (loop_world []) = Some (AEMLIB_STATUS_OK, Some c0, w0)"
    "broker_good loop_posix c0 w0" "c_state c0 = AEMLIB_STATE_DISCONNECTED"
    using platform.init_good [OF broker_platform [OF loop_socket_laws] cfg idle(2), of zero_client]
    by (auto simp: broker_good_platform [OF loop_socket_laws])
  obtain c1 where c1: "aemlib_connect (Some c0) = (AEMLIB_STATUS_OK, Some c1)"
    using i(3) by (auto simp: aemlib_connect_def aemlib_core_connect_def)
  have "broker_good loop_posix c1 w0"
    using platform.good_request(1) [OF broker_platform [OF loop_socket_laws, of 0] _ c1] i(2)
    by (simp add: broker_good_platform [OF loop_socket_laws])
  then obtain st c2 w2 where p: "aemlib_poll (Some c1) w0 = Some (st, Some c2, w2)"
    using broker_poll [OF loop_socket_laws loop_clock_laws] by metis
  have run: "api_run ?env c0 w0 c2 w2" by (rule api_run.poll [OF api_run.connect [OF api_run.start c1] p])
  have "poll_law loop_posix" by (simp add: poll_law_def loop_posix_def)
  moreover from tcp_client_descriptors [OF loop_socket_laws loop_descriptor_laws cfg idle(1) i(1) _ api_run.start, of "\<lambda>_ _. False"] this
  have "\<exists>t0. ts_tcp w0 0 = Some t0 \<and> tcp_fd t0 < 0" using i(3) by auto
  moreover from tcp_client_descriptors [OF loop_socket_laws loop_descriptor_laws cfg idle(1) i(1) _ run]
  obtain t where t: "ts_tcp w2 0 = Some t" "set (lo_open (ts_os w2)) = (if 0 \<le> tcp_fd t then insert (tcp_fd t) {0, 1, 2} else {0, 1, 2})"
    by blast
  then have "set (lo_open (ts_os w2)) = (if 0 \<le> tcp_fd t then {tcp_fd t, 0, 1, 2} else {0, 1, 2})" by simp
  ultimately show ?thesis using i(1) c1 p t(1) by blast
qed

end
