(* ===== verification/Aem_Smoke.thy ===== *)
theory Aem_Smoke
  imports Aem_Client Aem_Log
begin

text \<open>
  The smoke test (\<^verbatim>\<open>examples/smoke_test.c\<close>): a walk through the public interface over a stub transport that answers the
  first read with a CONNACK and accepts every write. The link test of the installed package
  (\<^verbatim>\<open>tests/package/consumer.c\<close>) does the first of its steps over stubs that do nothing. Console output is left out.
\<close>

record smoke_world =
  g_connack_sent :: int

definition stub_connect :: "smoke_world \<Rightarrow> (aemlib_status_t \<times> smoke_world) option" where
  "stub_connect w = Some (AEMLIB_STATUS_OK, w)"

definition stub_disconnect :: "smoke_world \<Rightarrow> (aemlib_status_t \<times> smoke_world) option" where
  "stub_disconnect w = Some (AEMLIB_STATUS_OK, w)"

definition stub_read :: "smoke_world \<Rightarrow> mem \<Rightarrow> size_t \<Rightarrow> size_t \<Rightarrow> (aemlib_status_t \<times> mem \<times> size_t \<times> smoke_world) option" where
  "stub_read w buf len out_len =
     (if g_connack_sent w = 0 \<and> len \<ge> 4 then do {
        buf \<leftarrow> mem_copy buf 0 [0x20, 0x02, 0x00, 0x00] 0 4;
        Some (AEMLIB_STATUS_OK, buf, 4, w\<lparr>g_connack_sent := 1\<rparr>)
      } else Some (AEMLIB_STATUS_OK, buf, 0, w))"

definition stub_write :: "smoke_world \<Rightarrow> mem \<Rightarrow> size_t \<Rightarrow> size_t \<Rightarrow> (aemlib_status_t \<times> size_t \<times> smoke_world) option" where
  "stub_write w buf len out_len = Some (AEMLIB_STATUS_OK, len, w)"

definition smoke_time_now :: "smoke_world \<Rightarrow> uint64 \<times> smoke_world" where
  "smoke_time_now w = (0, w)"

definition smoke_config :: "mem \<Rightarrow> mem \<Rightarrow> smoke_world aemlib_config" where
  "smoke_config tx_buf rx_buf = \<lparr>
     cfg_tx_buffer = Some tx_buf, cfg_tx_buffer_size = of_nat (length tx_buf),
     cfg_rx_buffer = Some rx_buf, cfg_rx_buffer_size = of_nat (length rx_buf),
     cfg_transport = \<lparr>t_connect = Some stub_connect, t_disconnect = Some stub_disconnect, t_read = Some stub_read, t_write = Some stub_write\<rparr>,
     cfg_time = \<lparr>now_ms = Some smoke_time_now\<rparr>,
     cfg_storage = \<lparr>write_record = None, read_record = None, delete_record = None\<rparr>,
     cfg_keepalive_interval_ms = 60000, cfg_on_message = None\<rparr>"

text \<open>
  A step of \<^verbatim>\<open>main\<close> whose status is checked: \<^term>\<open>Inl\<close> is the early return with the name of the step, \<^term>\<open>Inr\<close> the
  client and the world for the next one.
\<close>

datatype smoke_step = Smoke_Init | Smoke_Connect | Smoke_Poll_Connecting | Smoke_Not_Connected | Smoke_Publish | Smoke_Subscribe
  | Smoke_Poll_Connected | Smoke_Disconnect | Smoke_Poll_Disconnecting | Smoke_Not_Disconnected

type_synonym smoke_result = "(smoke_step + smoke_world aemlib_client \<times> smoke_world) option"

definition smoke_check :: "smoke_step \<Rightarrow> smoke_world pcall \<Rightarrow> smoke_result" where
  "smoke_check step r = do {
     (status, client, w) \<leftarrow> r;
     if status \<noteq> AEMLIB_STATUS_OK then Some (Inl step)
     else do { c \<leftarrow> client; Some (Inr (c, w)) }
   }"

definition smoke_then :: "smoke_result \<Rightarrow> (smoke_world aemlib_client \<Rightarrow> smoke_world \<Rightarrow> smoke_result) \<Rightarrow> smoke_result" where
  "smoke_then r f = do { x \<leftarrow> r; case x of Inl step \<Rightarrow> Some (Inl step) | Inr (c, w) \<Rightarrow> f c w }"

fun smoke_polls :: "nat \<Rightarrow> smoke_world aemlib_client \<Rightarrow> smoke_world \<Rightarrow> smoke_result" where
  "smoke_polls 0 c w = Some (Inr (c, w))"
| "smoke_polls (Suc n) c w = smoke_then (smoke_check Smoke_Poll_Connecting (aemlib_poll (Some c) w)) (smoke_polls n)"

definition smoke_expect :: "smoke_step \<Rightarrow> aemlib_state \<Rightarrow> smoke_world aemlib_client \<Rightarrow> smoke_world \<Rightarrow> smoke_result" where
  "smoke_expect step s c w = (if c_state c \<noteq> s then Some (Inl step) else Some (Inr (c, w)))"

definition smoke_request :: "smoke_step \<Rightarrow> aemlib_status_t \<times> smoke_world aemlib_client option \<Rightarrow> smoke_world \<Rightarrow> smoke_result" where
  "smoke_request step r w = smoke_check step (case r of (status, client) \<Rightarrow> Some (status, client, w))"

definition smoke_main :: "mem \<Rightarrow> mem \<Rightarrow> smoke_world aemlib_client \<Rightarrow> smoke_world \<Rightarrow> smoke_result" where
  "smoke_main tx_buf rx_buf client w =
     smoke_then (smoke_check Smoke_Init (aemlib_init (Some client) (Some (smoke_config tx_buf rx_buf)) w)) (\<lambda>c w.
     smoke_then (smoke_request Smoke_Connect (aemlib_connect (Some c)) w) (\<lambda>c w.
     smoke_then (smoke_polls 4 c w) (\<lambda>c w.
     smoke_then (smoke_expect Smoke_Not_Connected AEMLIB_STATE_MQTT_CONNECTED c w) (\<lambda>c w.
     smoke_then (smoke_check Smoke_Publish (aemlib_publish (Some c) (cstring (ascii ''smoke/topic'')) (cstring (ascii ''hello'')) 5 0 w)) (\<lambda>c w.
     smoke_then (smoke_check Smoke_Subscribe (aemlib_subscribe (Some c) (cstring (ascii ''smoke/topic'')) 0 w)) (\<lambda>c w.
     smoke_then (smoke_check Smoke_Poll_Connected (aemlib_poll (Some c) w)) (\<lambda>c w.
     smoke_then (smoke_request Smoke_Disconnect (aemlib_disconnect (Some c)) w) (\<lambda>c w.
     smoke_then (smoke_check Smoke_Poll_Disconnecting (aemlib_poll (Some c) w)) (\<lambda>c w.
     smoke_expect Smoke_Not_Disconnected AEMLIB_STATE_DISCONNECTED c w)))))))))"

definition smoke_exit :: "smoke_result \<Rightarrow> int option" where
  "smoke_exit r = map_option (\<lambda>x. case x of Inl step \<Rightarrow> 1 | Inr cw \<Rightarrow> 0) r"

text \<open>
  The smoke test passes: on arrays filled with zeros, every one of its ten checks succeeds and it exits with 0.
\<close>

lemma smoke_test_passes:
  "smoke_exit (smoke_main (replicate 256 0) (replicate 256 0) zero_client \<lparr>g_connack_sent = 0\<rparr>) = Some 0"
  by code_simp

section \<open>The package consumer\<close>

text \<open>It has no state of its own: its world is \<^typ>\<open>unit\<close>.\<close>

definition consumer_stub_connect :: "unit \<Rightarrow> (aemlib_status_t \<times> unit) option" where
  "consumer_stub_connect w = Some (AEMLIB_STATUS_OK, w)"

definition consumer_stub_disconnect :: "unit \<Rightarrow> (aemlib_status_t \<times> unit) option" where
  "consumer_stub_disconnect w = Some (AEMLIB_STATUS_OK, w)"

definition consumer_stub_read :: "unit \<Rightarrow> mem \<Rightarrow> size_t \<Rightarrow> size_t \<Rightarrow> (aemlib_status_t \<times> mem \<times> size_t \<times> unit) option" where
  "consumer_stub_read w buf len out_len = Some (AEMLIB_STATUS_OK, buf, 0, w)"

definition consumer_stub_write :: "unit \<Rightarrow> mem \<Rightarrow> size_t \<Rightarrow> size_t \<Rightarrow> (aemlib_status_t \<times> size_t \<times> unit) option" where
  "consumer_stub_write w buf len out_len = Some (AEMLIB_STATUS_OK, len, w)"

definition consumer_time_now :: "unit \<Rightarrow> uint64 \<times> unit" where
  "consumer_time_now w = (0, w)"

definition consumer_config :: "mem \<Rightarrow> mem \<Rightarrow> unit aemlib_config" where
  "consumer_config tx_buf rx_buf = \<lparr>
     cfg_tx_buffer = Some tx_buf, cfg_tx_buffer_size = of_nat (length tx_buf),
     cfg_rx_buffer = Some rx_buf, cfg_rx_buffer_size = of_nat (length rx_buf),
     cfg_transport = \<lparr>t_connect = Some consumer_stub_connect, t_disconnect = Some consumer_stub_disconnect,
       t_read = Some consumer_stub_read, t_write = Some consumer_stub_write\<rparr>,
     cfg_time = \<lparr>now_ms = Some consumer_time_now\<rparr>,
     cfg_storage = \<lparr>write_record = None, read_record = None, delete_record = None\<rparr>,
     cfg_keepalive_interval_ms = 60000, cfg_on_message = None\<rparr>"

definition consumer_main :: "mem \<Rightarrow> mem \<Rightarrow> unit aemlib_client \<Rightarrow> int option" where
  "consumer_main tx_buf rx_buf client = do {
     (status, _, _) \<leftarrow> aemlib_init (Some client) (Some (consumer_config tx_buf rx_buf)) ();
     Some (if status \<noteq> AEMLIB_STATUS_OK then 1 else 0)
   }"

text \<open>It exits with 0, whatever its arrays and its client hold.\<close>

lemma consumer_passes:
  assumes "length tx_buf = 256" "length rx_buf = 256"
  shows "consumer_main tx_buf rx_buf client = Some 0"
  using assms by (simp add: consumer_main_def consumer_config_def aemlib_init_def aemlib_core_init_def validate_config_def apply_config_def aemlib_time_now_def
    consumer_time_now_def aemlib_time_validate_def aemlib_transport_validate_def AEMLIB_CHECK_STATUS_def)

end
