(* ===== verification/Aem_Tests.thy ===== *)
theory Aem_Tests
  imports Aem_Handshake Aem_Virtual_Transport Aem_Log
begin

text \<open>
  The unit tests of the repository (\<^verbatim>\<open>tests/\<close>), run on the model: every test function is a Boolean that holds
  when all its assertions do and none of its calls is undefined. They validate the definitions of this development against what the authors of
  the program expect of it. The argument \<open>x\<close> of a test is the content of its uninitialised variables.
\<close>

definition checked :: "'a option \<Rightarrow> ('a \<Rightarrow> bool) \<Rightarrow> bool" where
  "checked r P = (case r of None \<Rightarrow> False | Some y \<Rightarrow> P y)"

section \<open>Packet layer\<close>

definition test_aemlib_proto_encode_remaining_length_zero :: "byte \<Rightarrow> bool" where
  "test_aemlib_proto_encode_remaining_length_zero x =
     checked (aemlib_proto_encode_remaining_length 0 (replicate 4 x) 4 (ucast x)) (\<lambda>(status, buf, out_len).
       status = AEMLIB_STATUS_OK \<and> out_len = 1 \<and> buf ! 0 = 0)"

definition test_aemlib_proto_encode_remaining_length_small :: "byte \<Rightarrow> bool" where
  "test_aemlib_proto_encode_remaining_length_small x =
     checked (aemlib_proto_encode_remaining_length 127 (replicate 4 x) 4 (ucast x)) (\<lambda>(status, buf, out_len).
       status = AEMLIB_STATUS_OK \<and> out_len = 1 \<and> buf ! 0 = 127)"

definition test_aemlib_proto_encode_remaining_length_medium :: "byte \<Rightarrow> bool" where
  "test_aemlib_proto_encode_remaining_length_medium x =
     checked (aemlib_proto_encode_remaining_length 128 (replicate 4 x) 4 (ucast x)) (\<lambda>(status, buf, out_len).
       status = AEMLIB_STATUS_OK \<and> out_len = 2 \<and> buf ! 0 = 0x80 \<and> buf ! 1 = 0x01)"

definition test_aemlib_proto_encode_remaining_length_large :: "byte \<Rightarrow> bool" where
  "test_aemlib_proto_encode_remaining_length_large x =
     checked (aemlib_proto_encode_remaining_length 2097151 (replicate 4 x) 4 (ucast x)) (\<lambda>(status, buf, out_len).
       status = AEMLIB_STATUS_OK \<and> out_len = 3 \<and> buf ! 0 = 0xFF \<and> buf ! 1 = 0xFF \<and> buf ! 2 = 0x7F)"

definition test_aemlib_proto_encode_remaining_length_buffer_too_small :: "byte \<Rightarrow> bool" where
  "test_aemlib_proto_encode_remaining_length_buffer_too_small x =
     checked (aemlib_proto_encode_remaining_length 2097151 (replicate 1 x) 1 (ucast x)) (\<lambda>(status, buf, out_len).
       status = buffer_too_small)"

definition test_aemlib_proto_decode_remaining_length_zero :: "byte \<Rightarrow> bool" where
  "test_aemlib_proto_decode_remaining_length_zero x =
     checked (aemlib_proto_decode_remaining_length [0] 1 (ucast x) (ucast x)) (\<lambda>(status, value, consumed).
       status = AEMLIB_STATUS_OK \<and> value = 0 \<and> consumed = 1)"

definition test_aemlib_proto_decode_remaining_length_small :: "byte \<Rightarrow> bool" where
  "test_aemlib_proto_decode_remaining_length_small x =
     checked (aemlib_proto_decode_remaining_length [127] 1 (ucast x) (ucast x)) (\<lambda>(status, value, consumed).
       status = AEMLIB_STATUS_OK \<and> value = 127 \<and> consumed = 1)"

definition test_aemlib_proto_decode_remaining_length_medium :: "byte \<Rightarrow> bool" where
  "test_aemlib_proto_decode_remaining_length_medium x =
     checked (aemlib_proto_decode_remaining_length [0x80, 0x01] 2 (ucast x) (ucast x)) (\<lambda>(status, value, consumed).
       status = AEMLIB_STATUS_OK \<and> value = 128 \<and> consumed = 2)"

definition test_aemlib_proto_decode_remaining_length_large :: "byte \<Rightarrow> bool" where
  "test_aemlib_proto_decode_remaining_length_large x =
     checked (aemlib_proto_decode_remaining_length [0xFF, 0xFF, 0x7F] 3 (ucast x) (ucast x)) (\<lambda>(status, value, consumed).
       status = AEMLIB_STATUS_OK \<and> value = 2097151 \<and> consumed = 3)"

definition test_aemlib_proto_decode_remaining_length_incomplete :: "byte \<Rightarrow> bool" where
  "test_aemlib_proto_decode_remaining_length_incomplete x =
     checked (aemlib_proto_decode_remaining_length [0x80] 1 (ucast x) (ucast x)) (\<lambda>(status, value, consumed).
       status = buffer_too_small)"

definition test_aemlib_proto_write_utf8_normal :: "byte \<Rightarrow> bool" where
  "test_aemlib_proto_write_utf8_normal x =
     checked (aemlib_proto_write_utf8 (replicate 10 x) 10 0 (cstring (ascii ''hello''))) (\<lambda>(status, buf, offset).
       status = AEMLIB_STATUS_OK \<and> offset = 7 \<and> take 7 buf = [0, 5] @ ascii ''hello'')"

definition test_aemlib_proto_write_utf8_buffer_too_small :: "byte \<Rightarrow> bool" where
  "test_aemlib_proto_write_utf8_buffer_too_small x =
     checked (aemlib_proto_write_utf8 (replicate 5 x) 5 0 (cstring (ascii ''hello''))) (\<lambda>(status, buf, offset).
       status = buffer_too_small)"

definition test_aemlib_proto_encode_pingreq :: "byte \<Rightarrow> bool" where
  "test_aemlib_proto_encode_pingreq x =
     checked (aemlib_proto_encode_pingreq (replicate 10 x) 10 (ucast x)) (\<lambda>(status, buf, out_len).
       status = AEMLIB_STATUS_OK \<and> out_len = 2 \<and> take 2 buf = [0xC0, 0x00])"

definition test_aemlib_proto_encode_disconnect :: "byte \<Rightarrow> bool" where
  "test_aemlib_proto_encode_disconnect x =
     checked (aemlib_proto_encode_disconnect (replicate 10 x) 10 (ucast x)) (\<lambda>(status, buf, out_len).
       status = AEMLIB_STATUS_OK \<and> out_len = 2 \<and> take 2 buf = [0xE0, 0x00])"

definition test_aemlib_proto_encode_connect :: "byte \<Rightarrow> bool" where
  "test_aemlib_proto_encode_connect x =
     checked (aemlib_proto_encode_connect (replicate 50 x) 50 (ucast x) (cstring (ascii ''test_client'')) 60) (\<lambda>(status, buf, out_len).
       status = AEMLIB_STATUS_OK \<and> out_len = 25
     \<and> take 25 buf = [0x10, 23, 0x00, 0x04] @ ascii ''MQTT'' @ [0x04, 0x02, 0x00, 0x3C, 0x00, 0x0B] @ ascii ''test_client'')"

definition test_aemlib_proto_encode_publish :: "byte \<Rightarrow> bool" where
  "test_aemlib_proto_encode_publish x =
     checked (aemlib_proto_encode_publish (replicate 50 x) 50 (ucast x) (cstring (ascii ''test/topic'')) (cstring (ascii ''hello'')) 5)
       (\<lambda>(status, buf, out_len). status = AEMLIB_STATUS_OK \<and> out_len = 19
     \<and> take 19 buf = [0x30, 17, 0x00, 0x0A] @ ascii ''test/topic'' @ ascii ''hello'')"

definition test_aemlib_proto_encode_subscribe :: "byte \<Rightarrow> bool" where
  "test_aemlib_proto_encode_subscribe x =
     checked (aemlib_proto_encode_subscribe (replicate 50 x) 50 (ucast x) 1 (cstring (ascii ''test/topic''))) (\<lambda>(status, buf, out_len).
       status = AEMLIB_STATUS_OK \<and> out_len = 17
     \<and> take 17 buf = [0x82, 15, 0x00, 0x01, 0x00, 0x0A] @ ascii ''test/topic'' @ [0x00])"

definition test_aemlib_proto_encode_connect_buffer_too_small :: "byte \<Rightarrow> bool" where
  "test_aemlib_proto_encode_connect_buffer_too_small x =
     checked (aemlib_proto_encode_connect (replicate 10 x) 10 (ucast x) (cstring (ascii ''test_client'')) 60) (\<lambda>(status, buf, out_len).
       status = buffer_too_small)"

definition test_aemlib_proto_encode_publish_buffer_too_small :: "byte \<Rightarrow> bool" where
  "test_aemlib_proto_encode_publish_buffer_too_small x =
     checked (aemlib_proto_encode_publish (replicate 5 x) 5 (ucast x) (cstring (ascii ''test/topic'')) (cstring (ascii ''hello'')) 5)
       (\<lambda>(status, buf, out_len). status = buffer_too_small)"

definition test_aemlib_proto_encode_subscribe_buffer_too_small :: "byte \<Rightarrow> bool" where
  "test_aemlib_proto_encode_subscribe_buffer_too_small x =
     checked (aemlib_proto_encode_subscribe (replicate 5 x) 5 (ucast x) 1 (cstring (ascii ''test/topic''))) (\<lambda>(status, buf, out_len).
       status = buffer_too_small)"

text \<open>An uninitialised header.\<close>

definition some_header :: "byte \<Rightarrow> aemlib_mqtt_fixed_header" where
  "some_header x = \<lparr>header_type = packet_type_of x, header_flags = x, header_remaining_length = ucast x, header_size = ucast x\<rparr>"

definition test_aemlib_proto_decode_fixed_header_connect :: "byte \<Rightarrow> bool" where
  "test_aemlib_proto_decode_fixed_header_connect x =
     checked (aemlib_proto_decode_fixed_header [0x10, 0x00] 2 (some_header x)) (\<lambda>(status, header).
       status = AEMLIB_STATUS_OK \<and> header_type header = AEMLIB_MQTT_PKT_CONNECT \<and> header_flags header = 0
     \<and> header_remaining_length header = 0 \<and> header_size header = 2)"

definition test_aemlib_proto_decode_fixed_header_pingreq :: "byte \<Rightarrow> bool" where
  "test_aemlib_proto_decode_fixed_header_pingreq x =
     checked (aemlib_proto_decode_fixed_header [0xC0, 0x00] 2 (some_header x)) (\<lambda>(status, header).
       status = AEMLIB_STATUS_OK \<and> header_type header = AEMLIB_MQTT_PKT_PINGREQ \<and> header_flags header = 0
     \<and> header_remaining_length header = 0 \<and> header_size header = 2)"

definition test_aemlib_proto_decode_fixed_header_invalid_flags_connect :: "byte \<Rightarrow> bool" where
  "test_aemlib_proto_decode_fixed_header_invalid_flags_connect x =
     checked (aemlib_proto_decode_fixed_header [0x1F, 0x00] 2 (some_header x)) (\<lambda>(status, header). status = protocol_error)"

definition test_aemlib_proto_decode_fixed_header_invalid_flags_pingreq :: "byte \<Rightarrow> bool" where
  "test_aemlib_proto_decode_fixed_header_invalid_flags_pingreq x =
     checked (aemlib_proto_decode_fixed_header [0xCF, 0x00] 2 (some_header x)) (\<lambda>(status, header). status = protocol_error)"

definition test_aemlib_proto_decode_fixed_header_invalid_flags_subscribe :: "byte \<Rightarrow> bool" where
  "test_aemlib_proto_decode_fixed_header_invalid_flags_subscribe x =
     checked (aemlib_proto_decode_fixed_header [0x80, 0x00] 2 (some_header x)) (\<lambda>(status, header). status = protocol_error)"

definition test_aemlib_proto_decode_fixed_header_invalid_packet_type :: "byte \<Rightarrow> bool" where
  "test_aemlib_proto_decode_fixed_header_invalid_packet_type x =
     checked (aemlib_proto_decode_fixed_header [0x50, 0x00] 2 (some_header x)) (\<lambda>(status, header). status = protocol_error)"

definition test_aemlib_proto_decode_publish_normal :: "byte \<Rightarrow> bool" where
  "test_aemlib_proto_decode_publish_normal x = (
     let buf = [0x30, 0x07, 0x00, 0x03] @ ascii ''a/bhi'' in
     checked (aemlib_proto_decode_fixed_header buf 9 (some_header x)) (\<lambda>(status, header). status = AEMLIB_STATUS_OK
     \<and> checked (aemlib_proto_decode_publish (Some buf) 9 (Some header) (Some null_view)) (\<lambda>(status, view). status = AEMLIB_STATUS_OK
     \<and> checked view (\<lambda>v. view_topic_len v = 3 \<and> take 3 (drop (unat (view_topic v)) buf) = ascii ''a/b''
     \<and> view_payload_len v = 2 \<and> take 2 (drop (unat (view_payload v)) buf) = ascii ''hi''))))"

definition test_aemlib_proto_decode_publish_truncated_topic :: "byte \<Rightarrow> bool" where
  "test_aemlib_proto_decode_publish_truncated_topic x = (
     let buf = [0x30, 0x03, 0x00, 0x03] @ ascii ''a'' in
     checked (aemlib_proto_decode_fixed_header buf 5 (some_header x)) (\<lambda>(status, header). status = AEMLIB_STATUS_OK
     \<and> checked (aemlib_proto_decode_publish (Some buf) 5 (Some header) (Some null_view)) (\<lambda>(status, view). status = malformed)))"

definition test_aemlib_proto_decode_publish_qos1_unsupported :: "byte \<Rightarrow> bool" where
  "test_aemlib_proto_decode_publish_qos1_unsupported x = (
     let buf = [0x32, 0x07, 0x00, 0x03] @ ascii ''a/bhi'' in
     checked (aemlib_proto_decode_fixed_header buf 9 (some_header x)) (\<lambda>(status, header). status = AEMLIB_STATUS_OK
     \<and> checked (aemlib_proto_decode_publish (Some buf) 9 (Some header) (Some null_view)) (\<lambda>(status, view).
         status = AEMLIB_STATUS AEMLIB_LAYER_PROTOCOL AEMLIB_CODE_UNSUPPORTED)))"

definition test_aemlib_proto_decode_connack :: "byte \<Rightarrow> bool" where
  "test_aemlib_proto_decode_connack x =
     checked (aemlib_proto_decode_connack [0x20, 0x02, 0x00, 0x00] 4 x x) (\<lambda>(status, session_present, return_code).
       status = AEMLIB_STATUS_OK \<and> session_present = 0 \<and> return_code = 0)"

definition test_aemlib_proto_decode_suback :: "byte \<Rightarrow> bool" where
  "test_aemlib_proto_decode_suback x =
     checked (aemlib_proto_decode_suback [0x90, 0x03, 0x00, 0x01, 0x00] 5 (ucast x) x) (\<lambda>(status, packet_id, granted_qos).
       status = AEMLIB_STATUS_OK \<and> packet_id = 1 \<and> granted_qos = 0)"

definition proto_tests :: "(byte \<Rightarrow> bool) list" where
  "proto_tests = [
     test_aemlib_proto_encode_remaining_length_zero, test_aemlib_proto_encode_remaining_length_small,
     test_aemlib_proto_encode_remaining_length_medium, test_aemlib_proto_encode_remaining_length_large,
     test_aemlib_proto_encode_remaining_length_buffer_too_small, test_aemlib_proto_decode_remaining_length_zero,
     test_aemlib_proto_decode_remaining_length_small, test_aemlib_proto_decode_remaining_length_medium,
     test_aemlib_proto_decode_remaining_length_large, test_aemlib_proto_decode_remaining_length_incomplete,
     test_aemlib_proto_write_utf8_normal, test_aemlib_proto_write_utf8_buffer_too_small, test_aemlib_proto_encode_pingreq,
     test_aemlib_proto_encode_disconnect, test_aemlib_proto_encode_connect, test_aemlib_proto_encode_publish,
     test_aemlib_proto_encode_subscribe, test_aemlib_proto_encode_connect_buffer_too_small,
     test_aemlib_proto_encode_publish_buffer_too_small, test_aemlib_proto_encode_subscribe_buffer_too_small,
     test_aemlib_proto_decode_fixed_header_connect, test_aemlib_proto_decode_fixed_header_pingreq,
     test_aemlib_proto_decode_fixed_header_invalid_flags_connect, test_aemlib_proto_decode_fixed_header_invalid_flags_pingreq,
     test_aemlib_proto_decode_fixed_header_invalid_flags_subscribe, test_aemlib_proto_decode_fixed_header_invalid_packet_type,
     test_aemlib_proto_decode_publish_normal, test_aemlib_proto_decode_publish_truncated_topic,
     test_aemlib_proto_decode_publish_qos1_unsupported, test_aemlib_proto_decode_connack, test_aemlib_proto_decode_suback]"

lemma proto_tests_pass: "list_all (\<lambda>t. t x) proto_tests"
  by code_simp

section \<open>Core\<close>

text \<open>The globals of the test files, and the mocks over them.\<close>

record test_world =
  g_fake_time_ms :: uint64
  g_connack_plus_extra :: mem
  g_connack_plus_extra_len :: size_t
  g_write_count :: int
  g_written_bytes :: mem
  g_written_total :: size_t
  g_client_fake_time_ms :: uint64
  g_message_count :: int
  g_last_topic :: mem
  g_last_payload :: mem
  g_read_buf :: mem
  g_read_buf_len :: size_t
  g_read_buf_offset :: size_t
  g_read_chunk_size :: size_t

text \<open>The globals after \<^verbatim>\<open>setUp\<close>, when the arrays still hold what an earlier test has left: \<open>x\<close> everywhere.\<close>

definition setUp :: "byte \<Rightarrow> test_world" where
  "setUp x = \<lparr>g_fake_time_ms = 0, g_connack_plus_extra = replicate 64 x, g_connack_plus_extra_len = 0,
     g_write_count = 0, g_written_bytes = replicate 64 x, g_written_total = 0, g_client_fake_time_ms = 0,
     g_message_count = 0, g_last_topic = 0 # replicate 63 x, g_last_payload = 0 # replicate 63 x,
     g_read_buf = replicate 128 x, g_read_buf_len = 0, g_read_buf_offset = 0, g_read_chunk_size = 0\<rparr>"

definition mock_transport_connect :: "test_world \<Rightarrow> (aemlib_status_t \<times> test_world) option" where
  "mock_transport_connect w = Some (AEMLIB_STATUS_OK, w)"

definition mock_transport_disconnect :: "test_world \<Rightarrow> (aemlib_status_t \<times> test_world) option" where
  "mock_transport_disconnect w = Some (AEMLIB_STATUS_OK, w)"

definition mock_transport_read ::
    "test_world \<Rightarrow> mem \<Rightarrow> size_t \<Rightarrow> size_t \<Rightarrow> (aemlib_status_t \<times> mem \<times> size_t \<times> test_world) option" where
  "mock_transport_read w buf len out_len = Some (AEMLIB_STATUS_OK, buf, 0, w)"

text \<open>The first \<open>n\<close> bytes of a canned answer, as many as there is room for.\<close>

definition canned_read ::
    "mem \<Rightarrow> size_t \<Rightarrow> test_world \<Rightarrow> mem \<Rightarrow> size_t \<Rightarrow> (aemlib_status_t \<times> mem \<times> size_t \<times> test_world) option" where
  "canned_read src src_len w buf len = do {
     let n = (if src_len < len then src_len else len);
     buf \<leftarrow> mem_copy buf 0 src 0 (unat n);
     Some (AEMLIB_STATUS_OK, buf, n, w)
   }"

definition mock_transport_read_connack_accepted ::
    "test_world \<Rightarrow> mem \<Rightarrow> size_t \<Rightarrow> size_t \<Rightarrow> (aemlib_status_t \<times> mem \<times> size_t \<times> test_world) option" where
  "mock_transport_read_connack_accepted w buf len out_len = canned_read [0x20, 0x02, 0x00, 0x00] 4 w buf len"

definition mock_transport_read_connack_rejected ::
    "test_world \<Rightarrow> mem \<Rightarrow> size_t \<Rightarrow> size_t \<Rightarrow> (aemlib_status_t \<times> mem \<times> size_t \<times> test_world) option" where
  "mock_transport_read_connack_rejected w buf len out_len = canned_read [0x20, 0x02, 0x00, 0x05] 4 w buf len"

definition mock_transport_read_connack_plus_extra ::
    "test_world \<Rightarrow> mem \<Rightarrow> size_t \<Rightarrow> size_t \<Rightarrow> (aemlib_status_t \<times> mem \<times> size_t \<times> test_world) option" where
  "mock_transport_read_connack_plus_extra w buf len out_len = canned_read (g_connack_plus_extra w) (g_connack_plus_extra_len w) w buf len"

definition mock_time_now_advancing :: "test_world \<Rightarrow> uint64 \<times> test_world" where
  "mock_time_now_advancing w = (g_fake_time_ms w, w)"

definition mock_transport_write ::
    "test_world \<Rightarrow> mem \<Rightarrow> size_t \<Rightarrow> size_t \<Rightarrow> (aemlib_status_t \<times> size_t \<times> test_world) option" where
  "mock_transport_write w buf len out_len = Some (AEMLIB_STATUS_OK, len, w)"

definition mock_time_now :: "test_world \<Rightarrow> uint64 \<times> test_world" where
  "mock_time_now w = (1000, w)"

definition mock_storage_write :: "test_world \<Rightarrow> mem \<Rightarrow> size_t \<Rightarrow> aemlib_status_t \<times> test_world" where
  "mock_storage_write w data len = (AEMLIB_STATUS_OK, w)"

definition mock_storage_read :: "test_world \<Rightarrow> mem \<Rightarrow> size_t \<Rightarrow> size_t \<Rightarrow> aemlib_status_t \<times> mem \<times> size_t \<times> test_world" where
  "mock_storage_read w buf buf_len out_len = (AEMLIB_STATUS_OK, buf, 0, w)"

definition mock_storage_delete :: "test_world \<Rightarrow> aemlib_status_t \<times> test_world" where
  "mock_storage_delete w = (AEMLIB_STATUS_OK, w)"

text \<open>The transport of the core tests, with one of the read functions, and the initialisers of their structures.\<close>

definition mock_transport ::
    "(test_world \<Rightarrow> mem \<Rightarrow> size_t \<Rightarrow> size_t \<Rightarrow> (aemlib_status_t \<times> mem \<times> size_t \<times> test_world) option) \<Rightarrow> test_world aemlib_transport" where
  "mock_transport read = \<lparr>t_connect = Some mock_transport_connect, t_disconnect = Some mock_transport_disconnect,
     t_read = Some read, t_write = Some mock_transport_write\<rparr>"

definition no_storage :: "test_world aemlib_storage" where
  "no_storage = \<lparr>write_record = None, read_record = None, delete_record = None\<rparr>"

definition core_config :: "mem option \<Rightarrow> mem \<Rightarrow> test_world aemlib_storage \<Rightarrow> test_world aemlib_config" where
  "core_config tx rx storage = \<lparr>
     cfg_tx_buffer = tx, cfg_tx_buffer_size = (case tx of None \<Rightarrow> 0 | Some t \<Rightarrow> of_nat (length t)),
     cfg_rx_buffer = Some rx, cfg_rx_buffer_size = of_nat (length rx),
     cfg_transport = mock_transport mock_transport_read, cfg_time = \<lparr>now_ms = Some mock_time_now\<rparr>,
     cfg_storage = storage, cfg_keepalive_interval_ms = 60000, cfg_on_message = None\<rparr>"

definition zero_config :: "test_world aemlib_config" where
  "zero_config = \<lparr>cfg_tx_buffer = None, cfg_tx_buffer_size = 0, cfg_rx_buffer = None, cfg_rx_buffer_size = 0,
     cfg_transport = \<lparr>t_connect = None, t_disconnect = None, t_read = None, t_write = None\<rparr>, cfg_time = \<lparr>now_ms = None\<rparr>,
     cfg_storage = no_storage, cfg_keepalive_interval_ms = 0, cfg_on_message = None\<rparr>"

definition core_client ::
    "aemlib_state \<Rightarrow> uint64 \<Rightarrow> mem option \<Rightarrow> test_world aemlib_transport \<Rightarrow> (test_world \<Rightarrow> uint64 \<times> test_world) \<Rightarrow> test_world aemlib_client" where
  "core_client state t rx transport now = zero_client\<lparr>c_state := state, c_last_activity_ms := t,
     c_rx_buffer := rx, c_rx_buffer_size := (case rx of None \<Rightarrow> 0 | Some r \<Rightarrow> of_nat (length r)),
     c_transport := transport, c_time := \<lparr>now_ms = Some now\<rparr>\<rparr>"

text \<open>A call that must leave a client in a given state with a given status.\<close>

definition polled :: "test_world pcall \<Rightarrow> aemlib_status_t \<Rightarrow> aemlib_state \<Rightarrow> (test_world aemlib_client \<Rightarrow> test_world \<Rightarrow> bool) \<Rightarrow> bool" where
  "polled r st s P = checked r (\<lambda>(status, client, w). status = st \<and> checked client (\<lambda>c. c_state c = s \<and> P c w))"

definition requested_state :: "aemlib_status_t \<times> test_world aemlib_client option \<Rightarrow> aemlib_status_t \<Rightarrow> aemlib_state \<Rightarrow> (test_world aemlib_client \<Rightarrow> bool) \<Rightarrow> bool" where
  "requested_state r st s P = (case r of (status, client) \<Rightarrow> status = st \<and> checked client (\<lambda>c. c_state c = s \<and> P c))"

definition test_aemlib_core_init_null_client :: "byte \<Rightarrow> bool" where
  "test_aemlib_core_init_null_client x =
     checked (aemlib_core_init None (Some zero_config) (setUp x)) (\<lambda>(status, _). status = invalid_arg)"

definition test_aemlib_core_init_null_config :: "byte \<Rightarrow> bool" where
  "test_aemlib_core_init_null_config x = checked (aemlib_core_init (Some zero_client) None (setUp x)) (\<lambda>(status, _). status = invalid_arg)"

definition test_aemlib_core_init_invalid_config :: "byte \<Rightarrow> bool" where
  "test_aemlib_core_init_invalid_config x =
     checked (aemlib_core_init (Some zero_client) (Some (core_config None (replicate 10 x) no_storage)) (setUp x)) (\<lambda>(status, _).
       status = invalid_arg)"

definition test_aemlib_core_init_valid_config :: "byte \<Rightarrow> bool" where
  "test_aemlib_core_init_valid_config x =
     polled (aemlib_core_init (Some zero_client) (Some (core_config (Some (replicate 100 x)) (replicate 100 x)
         \<lparr>write_record = Some mock_storage_write, read_record = Some mock_storage_read, delete_record = Some mock_storage_delete\<rparr>)) (setUp x))
       AEMLIB_STATUS_OK AEMLIB_STATE_DISCONNECTED (\<lambda>c w. c_packet_id c = 1 \<and> c_last_activity_ms c = 1000)"

definition test_aemlib_core_poll_null_client :: "byte \<Rightarrow> bool" where
  "test_aemlib_core_poll_null_client x = checked (aemlib_core_poll None (setUp x)) (\<lambda>(status, _). status = invalid_arg)"

definition test_aemlib_core_poll_disconnected_state :: "byte \<Rightarrow> bool" where
  "test_aemlib_core_poll_disconnected_state x =
     checked (aemlib_core_poll (Some (core_client AEMLIB_STATE_DISCONNECTED 0 None (mock_transport mock_transport_read) mock_time_now)) (setUp x))
       (\<lambda>(status, _). status = AEMLIB_STATUS_OK)"

definition test_aemlib_core_connect_null_client :: "byte \<Rightarrow> bool" where
  "test_aemlib_core_connect_null_client x = (fst (aemlib_core_connect (None :: test_world aemlib_client option)) = invalid_arg)"

definition test_aemlib_core_connect_from_disconnected :: "byte \<Rightarrow> bool" where
  "test_aemlib_core_connect_from_disconnected x =
     requested_state (aemlib_core_connect (Some zero_client)) AEMLIB_STATUS_OK AEMLIB_STATE_CONNECTING (\<lambda>c. True)"

definition test_aemlib_core_connect_invalid_state :: "byte \<Rightarrow> bool" where
  "test_aemlib_core_connect_invalid_state x =
     (fst (aemlib_core_connect (Some (zero_client\<lparr>c_state := AEMLIB_STATE_MQTT_CONNECTED\<rparr> :: test_world aemlib_client))) = state_invalid)"

definition test_aemlib_core_disconnect_null_client :: "byte \<Rightarrow> bool" where
  "test_aemlib_core_disconnect_null_client x = (fst (aemlib_core_disconnect (None :: test_world aemlib_client option)) = invalid_arg)"

definition test_aemlib_core_disconnect_from_connected :: "byte \<Rightarrow> bool" where
  "test_aemlib_core_disconnect_from_connected x =
     requested_state (aemlib_core_disconnect (Some (zero_client\<lparr>c_state := AEMLIB_STATE_MQTT_CONNECTED\<rparr>)))
       AEMLIB_STATUS_OK AEMLIB_STATE_MQTT_DISCONNECTING (\<lambda>c. True)"

definition test_aemlib_core_disconnect_invalid_state :: "byte \<Rightarrow> bool" where
  "test_aemlib_core_disconnect_invalid_state x =
     (fst (aemlib_core_disconnect (Some (zero_client :: test_world aemlib_client))) = state_invalid)"

definition test_aemlib_core_next_packet_id_null_client :: "byte \<Rightarrow> bool" where
  "test_aemlib_core_next_packet_id_null_client x = (fst (aemlib_core_next_packet_id (None :: test_world aemlib_client option)) = 1)"

definition test_aemlib_core_next_packet_id_normal :: "byte \<Rightarrow> bool" where
  "test_aemlib_core_next_packet_id_normal x =
     (case aemlib_core_next_packet_id (Some (zero_client\<lparr>c_packet_id := 5\<rparr> :: test_world aemlib_client)) of (pid, client) \<Rightarrow>
        pid = 6 \<and> checked client (\<lambda>c. c_packet_id c = 6))"

definition test_aemlib_core_next_packet_id_wraparound :: "byte \<Rightarrow> bool" where
  "test_aemlib_core_next_packet_id_wraparound x =
     (case aemlib_core_next_packet_id (Some (zero_client\<lparr>c_packet_id := 65535\<rparr> :: test_world aemlib_client)) of (pid, client) \<Rightarrow>
        pid = 1 \<and> checked client (\<lambda>c. c_packet_id c = 1))"

definition test_aemlib_core_connect_invalid_transitions :: "byte \<Rightarrow> bool" where
  "test_aemlib_core_connect_invalid_transitions x =
     list_all (\<lambda>s. fst (aemlib_core_connect (Some (zero_client\<lparr>c_state := s\<rparr> :: test_world aemlib_client))) = state_invalid)
       [AEMLIB_STATE_CONNECTING, AEMLIB_STATE_MQTT_CONNECT_SENT, AEMLIB_STATE_MQTT_DISCONNECTING]"

definition test_aemlib_core_disconnect_invalid_transitions :: "byte \<Rightarrow> bool" where
  "test_aemlib_core_disconnect_invalid_transitions x =
     list_all (\<lambda>s. fst (aemlib_core_disconnect (Some (zero_client\<lparr>c_state := s\<rparr> :: test_world aemlib_client))) = state_invalid)
       [AEMLIB_STATE_DISCONNECTED, AEMLIB_STATE_CONNECTING, AEMLIB_STATE_MQTT_CONNECT_SENT]"

definition test_aemlib_core_poll_invalid_state :: "byte \<Rightarrow> bool" where
  "test_aemlib_core_poll_invalid_state x =
     checked (aemlib_core_poll (Some (zero_client\<lparr>c_state := AEMLIB_STATE_STRAY 999\<rparr>)) (setUp x)) (\<lambda>(status, _). status = state_invalid)"

definition test_aemlib_core_state_machine_connect_flow :: "byte \<Rightarrow> bool" where
  "test_aemlib_core_state_machine_connect_flow x = (
     let client = core_client AEMLIB_STATE_DISCONNECTED 0 (Some (replicate 16 x)) (mock_transport mock_transport_read_connack_accepted) mock_time_now in
     requested_state (aemlib_core_connect (Some client)) AEMLIB_STATUS_OK AEMLIB_STATE_CONNECTING (\<lambda>c.
     polled (aemlib_core_poll (Some c) (setUp x)) AEMLIB_STATUS_OK AEMLIB_STATE_MQTT_CONNECT_SENT (\<lambda>c w.
     polled (aemlib_core_poll (Some c) w) AEMLIB_STATUS_OK AEMLIB_STATE_MQTT_CONNECTED (\<lambda>c w.
     requested_state (aemlib_core_disconnect (Some c)) AEMLIB_STATUS_OK AEMLIB_STATE_MQTT_DISCONNECTING (\<lambda>c.
     polled (aemlib_core_poll (Some c) w) AEMLIB_STATUS_OK AEMLIB_STATE_DISCONNECTED (\<lambda>c w. True))))))"

definition test_aemlib_core_connect_sent_connack_rejected :: "byte \<Rightarrow> bool" where
  "test_aemlib_core_connect_sent_connack_rejected x = (
     let client = core_client AEMLIB_STATE_MQTT_CONNECT_SENT 1000 (Some (replicate 16 x)) (mock_transport mock_transport_read_connack_rejected) mock_time_now in
     polled (aemlib_core_poll (Some client) (setUp x)) (AEMLIB_STATUS AEMLIB_LAYER_PROTOCOL AEMLIB_CODE_CONNECT) AEMLIB_STATE_DISCONNECTED (\<lambda>c w. True))"

text \<open>
  The timeout test leaves the receive buffer null, so that the core computes a null pointer plus zero, which C leaves undefined. Here
  the buffer is an argument: the test passes with a buffer, and without one the model says that its first poll is undefined.
\<close>

definition test_aemlib_core_connect_sent_connack_timeout :: "mem option \<Rightarrow> byte \<Rightarrow> bool" where
  "test_aemlib_core_connect_sent_connack_timeout rx x = (
     let w = (setUp x)\<lparr>g_fake_time_ms := 1000\<rparr>;
         client = core_client AEMLIB_STATE_MQTT_CONNECT_SENT 1000 rx (mock_transport mock_transport_read) mock_time_now_advancing in
     polled (aemlib_core_poll (Some client) w) AEMLIB_STATUS_OK AEMLIB_STATE_MQTT_CONNECT_SENT (\<lambda>c w.
     polled (aemlib_core_poll (Some c) (w\<lparr>g_fake_time_ms := 1000 + 5000\<rparr>)) (AEMLIB_STATUS AEMLIB_LAYER_GENERAL AEMLIB_CODE_TIMEOUT)
       AEMLIB_STATE_DISCONNECTED (\<lambda>c w. True)))"

definition test_aemlib_core_connect_sent_preserves_bytes_after_connack :: "byte \<Rightarrow> bool" where
  "test_aemlib_core_connect_sent_preserves_bytes_after_connack x = (
     let w = setUp x;
         connack = [0x20, 0x02, 0x00, 0x00] in
     checked (aemlib_proto_encode_publish (drop 4 (g_connack_plus_extra w)) (64 - 4) 0 (cstring (ascii ''x'')) (cstring (ascii ''y'')) 1)
       (\<lambda>(encode_status, rest, extra_len). encode_status = AEMLIB_STATUS_OK
     \<and> (let w = w\<lparr>g_connack_plus_extra := connack @ rest, g_connack_plus_extra_len := 4 + extra_len\<rparr>;
            client = core_client AEMLIB_STATE_MQTT_CONNECT_SENT 1000 (Some (replicate 64 x)) (mock_transport mock_transport_read_connack_plus_extra) mock_time_now in
        polled (aemlib_core_poll (Some client) w) AEMLIB_STATUS_OK AEMLIB_STATE_MQTT_CONNECTED (\<lambda>c w. c_rx_len c = extra_len))))"

definition core_tests :: "(byte \<Rightarrow> bool) list" where
  "core_tests = [
     test_aemlib_core_init_null_client, test_aemlib_core_init_null_config, test_aemlib_core_init_invalid_config,
     test_aemlib_core_init_valid_config, test_aemlib_core_poll_null_client, test_aemlib_core_poll_disconnected_state,
     test_aemlib_core_connect_null_client, test_aemlib_core_connect_from_disconnected, test_aemlib_core_connect_invalid_state,
     test_aemlib_core_disconnect_null_client, test_aemlib_core_disconnect_from_connected, test_aemlib_core_disconnect_invalid_state,
     test_aemlib_core_next_packet_id_null_client, test_aemlib_core_next_packet_id_normal, test_aemlib_core_next_packet_id_wraparound,
     test_aemlib_core_connect_invalid_transitions, test_aemlib_core_disconnect_invalid_transitions, test_aemlib_core_poll_invalid_state,
     test_aemlib_core_state_machine_connect_flow, test_aemlib_core_connect_sent_connack_rejected,
     test_aemlib_core_connect_sent_connack_timeout (Some [0]), test_aemlib_core_connect_sent_preserves_bytes_after_connack]"

lemma core_tests_pass: "list_all (\<lambda>t. t x) core_tests"
  by code_simp

text \<open>Without a receive buffer the timeout test runs into undefined behaviour.\<close>

lemma timeout_test_null_buffer:
  "aemlib_core_poll (Some (core_client AEMLIB_STATE_MQTT_CONNECT_SENT 1000 None (mock_transport mock_transport_read) mock_time_now_advancing))
     ((setUp x)\<lparr>g_fake_time_ms := 1000\<rparr>) = None"
  by code_simp

section \<open>Client\<close>

type_synonym test_write_fn = "test_world \<Rightarrow> mem \<Rightarrow> size_t \<Rightarrow> size_t \<Rightarrow> (aemlib_status_t \<times> size_t \<times> test_world) option"
type_synonym test_read_fn = "test_world \<Rightarrow> mem \<Rightarrow> size_t \<Rightarrow> size_t \<Rightarrow> (aemlib_status_t \<times> mem \<times> size_t \<times> test_world) option"

definition client_mock_transport_write_one_byte :: test_write_fn where
  "client_mock_transport_write_one_byte w buf len out_len = (
     let n = (if len > 0 then 1 else 0) in
     if n > 0 then do {
       b \<leftarrow> mem_read buf 0;
       bytes \<leftarrow> mem_write (g_written_bytes w) (unat (g_written_total w)) b;
       Some (AEMLIB_STATUS_OK, n, w\<lparr>g_written_bytes := bytes, g_written_total := g_written_total w + 1\<rparr>)
     } else Some (AEMLIB_STATUS_OK, n, w))"

definition client_mock_transport_connect :: "test_world \<Rightarrow> (aemlib_status_t \<times> test_world) option" where
  "client_mock_transport_connect w = Some (AEMLIB_STATUS_OK, w)"

definition client_mock_transport_disconnect :: "test_world \<Rightarrow> (aemlib_status_t \<times> test_world) option" where
  "client_mock_transport_disconnect w = Some (AEMLIB_STATUS_OK, w)"

definition client_mock_transport_read_no_data :: test_read_fn where
  "client_mock_transport_read_no_data w buf len out_len = Some (AEMLIB_STATUS_OK, buf, 0, w)"

definition client_mock_transport_write_counting :: test_write_fn where
  "client_mock_transport_write_counting w buf len out_len = Some (AEMLIB_STATUS_OK, len, w\<lparr>g_write_count := g_write_count w + 1\<rparr>)"

definition client_mock_transport_write_capturing :: test_write_fn where
  "client_mock_transport_write_capturing w buf len out_len = do {
     let n = (if len > 64 - g_written_total w then 64 - g_written_total w else len);
     bytes \<leftarrow> mem_copy (g_written_bytes w) (unat (g_written_total w)) buf 0 (unat n);
     Some (AEMLIB_STATUS_OK, len, w\<lparr>g_written_bytes := bytes, g_written_total := g_written_total w + n\<rparr>)
   }"

definition client_mock_time_now :: "test_world \<Rightarrow> uint64 \<times> test_world" where
  "client_mock_time_now w = (1000, w)"

definition client_mock_time_now_advancing :: "test_world \<Rightarrow> uint64 \<times> test_world" where
  "client_mock_time_now_advancing w = (g_client_fake_time_ms w, w)"

text \<open>\<^verbatim>\<open>memcpy\<close> of at most 63 bytes to the front of a string of 64, then the terminating zero.\<close>

definition store_string :: "byte list \<Rightarrow> mem \<Rightarrow> mem" where
  "store_string s m = (let n = (if length s < 64 - 1 then length s else 64 - 1) in take n s @ [0] @ drop (n + 1) m)"

definition client_mock_on_message :: "test_world aemlib_message_fn" where
  "client_mock_on_message topic payload w = w\<lparr>g_message_count := g_message_count w + 1,
     g_last_topic := store_string topic (g_last_topic w), g_last_payload := store_string payload (g_last_payload w)\<rparr>"

definition client_mock_transport_read_from_buf :: test_read_fn where
  "client_mock_transport_read_from_buf w buf len out_len = do {
     let remaining = g_read_buf_len w - g_read_buf_offset w;
     let to_copy = (if g_read_chunk_size w > 0 \<and> remaining > g_read_chunk_size w then g_read_chunk_size w else remaining);
     let to_copy = (if to_copy > len then len else to_copy);
     buf \<leftarrow> mem_copy buf 0 (g_read_buf w) (unat (g_read_buf_offset w)) (unat to_copy);
     Some (AEMLIB_STATUS_OK, buf, to_copy, w\<lparr>g_read_buf_offset := g_read_buf_offset w + to_copy\<rparr>)
   }"

text \<open>The configuration of the client tests: they differ in read and write function, clock, callback and size of the receive buffer.\<close>

definition client_config ::
    "byte \<Rightarrow> nat \<Rightarrow> test_read_fn \<Rightarrow> test_write_fn \<Rightarrow> (test_world \<Rightarrow> uint64 \<times> test_world) \<Rightarrow> test_world aemlib_message_fn option \<Rightarrow> test_world aemlib_config" where
  "client_config x rx_size read write now on_message = \<lparr>
     cfg_tx_buffer = Some (replicate 64 x), cfg_tx_buffer_size = 64,
     cfg_rx_buffer = Some (replicate rx_size x), cfg_rx_buffer_size = of_nat rx_size,
     cfg_transport = \<lparr>t_connect = Some client_mock_transport_connect, t_disconnect = Some client_mock_transport_disconnect,
       t_read = Some read, t_write = Some write\<rparr>,
     cfg_time = \<lparr>now_ms = Some now\<rparr>, cfg_storage = no_storage, cfg_keepalive_interval_ms = 60000, cfg_on_message = on_message\<rparr>"

definition polls_ok :: "nat \<Rightarrow> test_world aemlib_client \<Rightarrow> test_world \<Rightarrow> (test_world aemlib_client \<Rightarrow> test_world \<Rightarrow> bool) \<Rightarrow> bool" where
  "polls_ok n c w P = checked (polls n c w) (\<lambda>(status, c, w). status = AEMLIB_STATUS_OK \<and> P c w)"

definition test_aemlib_poll_sends_connect_only_once_while_waiting_for_connack :: "byte \<Rightarrow> bool" where
  "test_aemlib_poll_sends_connect_only_once_while_waiting_for_connack x = (
     let config = client_config x 64 client_mock_transport_read_no_data client_mock_transport_write_counting client_mock_time_now None in
     polled (aemlib_init (Some zero_client) (Some config) ((setUp x)\<lparr>g_write_count := 0\<rparr>)) AEMLIB_STATUS_OK AEMLIB_STATE_DISCONNECTED (\<lambda>c w.
     requested_state (aemlib_connect (Some c)) AEMLIB_STATUS_OK AEMLIB_STATE_CONNECTING (\<lambda>c.
     polls_ok 5 c w (\<lambda>c w. c_state c = AEMLIB_STATE_MQTT_CONNECT_SENT \<and> g_write_count w = 1))))"

definition test_aemlib_poll_retries_partial_write_without_data_loss :: "byte \<Rightarrow> bool" where
  "test_aemlib_poll_retries_partial_write_without_data_loss x = (
     let config = client_config x 64 client_mock_transport_read_no_data client_mock_transport_write_one_byte client_mock_time_now None in
     polled (aemlib_init (Some zero_client) (Some config) ((setUp x)\<lparr>g_written_total := 0\<rparr>)) AEMLIB_STATUS_OK AEMLIB_STATE_DISCONNECTED (\<lambda>c w.
     requested_state (aemlib_connect (Some c)) AEMLIB_STATUS_OK AEMLIB_STATE_CONNECTING (\<lambda>c.
     polls_ok 20 c w (\<lambda>c w. c_tx_pending_len c = 0
       \<and> checked (aemlib_proto_decode_fixed_header (g_written_bytes w) (g_written_total w) (some_header x)) (\<lambda>(status, header).
           status = AEMLIB_STATUS_OK \<and> header_type header = AEMLIB_MQTT_PKT_CONNECT
         \<and> header_size header + ucast (header_remaining_length header) = g_written_total w)))))"

definition test_aemlib_poll_processes_multiple_packets_from_one_read :: "byte \<Rightarrow> bool" where
  "test_aemlib_poll_processes_multiple_packets_from_one_read x = (
     let w = (setUp x)\<lparr>g_message_count := 0, g_read_buf_offset := 0, g_read_chunk_size := 0\<rparr>;
         config = client_config x 128 client_mock_transport_read_from_buf client_mock_transport_write_counting client_mock_time_now (Some client_mock_on_message) in
     checked (aemlib_proto_encode_publish (g_read_buf w) 128 0 (cstring (ascii ''topic/a'')) (cstring (ascii ''AAA'')) 3) (\<lambda>(_, buf, off).
     checked (aemlib_proto_encode_publish (drop (unat off) buf) (128 - off) off (cstring (ascii ''topic/b'')) (cstring (ascii ''BBBB'')) 4) (\<lambda>(_, rest, out_len).
     polled (aemlib_init (Some zero_client) (Some config) (w\<lparr>g_read_buf := take (unat off) buf @ rest, g_read_buf_len := off + out_len\<rparr>))
         AEMLIB_STATUS_OK AEMLIB_STATE_DISCONNECTED (\<lambda>c w.
     polls_ok 1 (c\<lparr>c_state := AEMLIB_STATE_MQTT_CONNECTED, c_last_activity_ms := 1000\<rparr>) w (\<lambda>c w.
       g_message_count w = 2 \<and> take 8 (g_last_topic w) = cstring (ascii ''topic/b'') \<and> take 5 (g_last_payload w) = cstring (ascii ''BBBB'')
     \<and> c_rx_len c = 0)))))"

text \<open>\<^verbatim>\<open>for (int i = 0; i < n && g_message_count == 0; i++)\<close> around a poll that must succeed.\<close>

fun poll_until_message :: "nat \<Rightarrow> test_world aemlib_client \<Rightarrow> test_world \<Rightarrow> (test_world aemlib_client \<Rightarrow> test_world \<Rightarrow> bool) \<Rightarrow> bool" where
  "poll_until_message 0 c w P = P c w"
| "poll_until_message (Suc n) c w P = (if g_message_count w = 0 then polls_ok 1 c w (\<lambda>c w. poll_until_message n c w P) else P c w)"

definition test_aemlib_poll_reassembles_packet_split_across_reads :: "byte \<Rightarrow> bool" where
  "test_aemlib_poll_reassembles_packet_split_across_reads x = (
     let w = (setUp x)\<lparr>g_message_count := 0, g_read_buf_offset := 0, g_read_chunk_size := 3\<rparr>;
         config = client_config x 128 client_mock_transport_read_from_buf client_mock_transport_write_counting client_mock_time_now (Some client_mock_on_message) in
     checked (aemlib_proto_encode_publish (g_read_buf w) 128 0 (cstring (ascii ''t'')) (cstring (ascii ''hello'')) 5) (\<lambda>(_, buf, out_len).
     polled (aemlib_init (Some zero_client) (Some config) (w\<lparr>g_read_buf := buf, g_read_buf_len := out_len\<rparr>))
         AEMLIB_STATUS_OK AEMLIB_STATE_DISCONNECTED (\<lambda>c w.
     polls_ok 1 (c\<lparr>c_state := AEMLIB_STATE_MQTT_CONNECTED, c_last_activity_ms := 1000\<rparr>) w (\<lambda>c w. g_message_count w = 0
     \<and> poll_until_message 10 c w (\<lambda>c w. g_message_count w = 1 \<and> take 2 (g_last_topic w) = cstring (ascii ''t'')
         \<and> take 6 (g_last_payload w) = cstring (ascii ''hello'') \<and> c_rx_len c = 0)))))"

definition test_aemlib_poll_sends_pingreq_once_the_keepalive_interval_elapses :: "byte \<Rightarrow> bool" where
  "test_aemlib_poll_sends_pingreq_once_the_keepalive_interval_elapses x = (
     let w = (setUp x)\<lparr>g_written_total := 0, g_client_fake_time_ms := 1000\<rparr>;
         config = client_config x 64 client_mock_transport_read_no_data client_mock_transport_write_capturing client_mock_time_now_advancing None in
     polled (aemlib_init (Some zero_client) (Some config) w) AEMLIB_STATUS_OK AEMLIB_STATE_DISCONNECTED (\<lambda>c w.
     polls_ok 5 (c\<lparr>c_state := AEMLIB_STATE_MQTT_CONNECTED, c_last_activity_ms := 1000\<rparr>) w (\<lambda>c w. g_written_total w = 0
     \<and> polls_ok 1 c (w\<lparr>g_client_fake_time_ms := 1000 + 60000 - 1\<rparr>) (\<lambda>c w. g_written_total w = 0
     \<and> polls_ok 1 c (w\<lparr>g_client_fake_time_ms := 1000 + 60000\<rparr>) (\<lambda>c w.
         checked (aemlib_proto_decode_fixed_header (g_written_bytes w) (g_written_total w) (some_header x)) (\<lambda>(status, header).
           status = AEMLIB_STATUS_OK \<and> header_type header = AEMLIB_MQTT_PKT_PINGREQ)
       \<and> g_written_total w = AEMLIB_MQTT_PINGREQ_LENGTH \<and> c_last_activity_ms c = g_client_fake_time_ms w
       \<and> polls_ok 1 c (w\<lparr>g_written_total := 0\<rparr>) (\<lambda>c w. g_written_total w = 0))))))"

definition client_tests :: "(byte \<Rightarrow> bool) list" where
  "client_tests = [
     test_aemlib_poll_sends_connect_only_once_while_waiting_for_connack, test_aemlib_poll_retries_partial_write_without_data_loss,
     test_aemlib_poll_processes_multiple_packets_from_one_read, test_aemlib_poll_reassembles_packet_split_across_reads,
     test_aemlib_poll_sends_pingreq_once_the_keepalive_interval_elapses]"

lemma client_tests_pass: "list_all (\<lambda>t. t x) client_tests"
  by code_simp

section \<open>Virtual transport\<close>

text \<open>Two uninitialised channels and endpoints, then the set-up of the tests with channels of \<open>n\<close> bytes.\<close>

definition raw_store :: "byte \<Rightarrow> vt_store" where
  "raw_store x = \<lparr>vs_channel = (\<lambda>i. if i < 2 then Some \<lparr>ch_buf = [], ch_buf_size = ucast x, ch_head = ucast x, ch_len = ucast x\<rparr> else None),
     vs_endpoint = (\<lambda>i. if i < 2 then Some \<lparr>vt_tx = 0, vt_rx = 0, vt_connected = x\<rparr> else None)\<rparr>"

definition vt_setup :: "nat \<Rightarrow> byte \<Rightarrow> vt_store option" where
  "vt_setup n x = do {
     let w = raw_store x;
     chan_ab \<leftarrow> vs_channel w 0;
     chan_ba \<leftarrow> vs_channel w 1;
     aemlib_virtual_transport_pair_init 0 0 1 1 (w\<lparr>vs_channel := (vs_channel w)(
       0 \<mapsto> aemlib_virtual_channel_init chan_ab (replicate n x) (of_nat n), 1 \<mapsto> aemlib_virtual_channel_init chan_ba (replicate n x) (of_nat n))\<rparr>)
   }"

definition test_aemlib_virtual_transport_a_to_b :: "byte \<Rightarrow> bool" where
  "test_aemlib_virtual_transport_a_to_b x = (
     let a = aemlib_virtual_transport_bind 0; b = aemlib_virtual_transport_bind 1; msg = [1, 2, 3] in
     checked (vt_setup 8 x) (\<lambda>w.
     checked (aemlib_transport_connect a w) (\<lambda>(status, w). status = AEMLIB_STATUS_OK \<and>
     checked (aemlib_transport_connect b w) (\<lambda>(status, w). status = AEMLIB_STATUS_OK \<and>
     checked (aemlib_transport_write a msg 3 0 w) (\<lambda>(status, written, w). status = AEMLIB_STATUS_OK \<and> written = 3 \<and>
     checked (aemlib_transport_read b (replicate 8 0) 8 0 w) (\<lambda>(status, out, read, w). status = AEMLIB_STATUS_OK \<and> read = 3 \<and> take 3 out = msg \<and>
     checked (aemlib_transport_read b out 8 0 w) (\<lambda>(status, out, read, w). status = AEMLIB_STATUS_OK \<and> read = 0)))))))"

definition test_aemlib_virtual_transport_wraparound :: "byte \<Rightarrow> bool" where
  "test_aemlib_virtual_transport_wraparound x = (
     let a = aemlib_virtual_transport_bind 0; b = aemlib_virtual_transport_bind 1 in
     checked (vt_setup 4 x) (\<lambda>w.
     checked (aemlib_transport_connect a w) (\<lambda>(_, w).
     checked (aemlib_transport_connect b w) (\<lambda>(_, w).
     checked (aemlib_transport_write a [1, 2, 3] 3 0 w) (\<lambda>(_, written, w). written = 3 \<and>
     checked (aemlib_transport_read b (replicate 4 0) 2 0 w) (\<lambda>(_, out, read, w). read = 2 \<and>
     checked (aemlib_transport_write a [4, 5, 6] 3 written w) (\<lambda>(_, written, w). written = 3 \<and>
     checked (aemlib_transport_read b out 4 0 w) (\<lambda>(status, out, read, w). status = AEMLIB_STATUS_OK \<and> read = 4 \<and> out = [3, 4, 5, 6]))))))))"

definition test_aemlib_virtual_transport_write_full_would_block :: "byte \<Rightarrow> bool" where
  "test_aemlib_virtual_transport_write_full_would_block x = (
     let a = aemlib_virtual_transport_bind 0; msg = [1, 2] in
     checked (vt_setup 2 x) (\<lambda>w.
     checked (aemlib_transport_connect a w) (\<lambda>(_, w).
     checked (aemlib_transport_write a msg 2 0 w) (\<lambda>(_, written, w). written = 2 \<and>
     checked (aemlib_transport_write a msg 2 0 w) (\<lambda>(status, written, w). status = io_would_block \<and> written = 0)))))"

definition test_aemlib_virtual_transport_disconnected_read_write :: "byte \<Rightarrow> bool" where
  "test_aemlib_virtual_transport_disconnected_read_write x = (
     let a = aemlib_virtual_transport_bind 0 in
     checked (vt_setup 4 x) (\<lambda>w.
     checked (aemlib_transport_read a (replicate 4 x) 4 0 w) (\<lambda>(status, buf, out_len, w). status = io_closed \<and>
     checked (aemlib_transport_write a buf 4 out_len w) (\<lambda>(status, out_len, w). status = io_closed))))"

definition virtual_transport_tests :: "(byte \<Rightarrow> bool) list" where
  "virtual_transport_tests = [
     test_aemlib_virtual_transport_a_to_b, test_aemlib_virtual_transport_wraparound,
     test_aemlib_virtual_transport_write_full_would_block, test_aemlib_virtual_transport_disconnected_read_write]"

lemma virtual_transport_tests_pass: "list_all (\<lambda>t. t x) virtual_transport_tests"
  by code_simp

section \<open>The test program\<close>

definition test_main :: "(byte \<Rightarrow> bool) list" where
  "test_main = core_tests @ client_tests @ proto_tests @ virtual_transport_tests"

text \<open>
  The model passes the unit tests of the repository: all 62 test functions that \<^verbatim>\<open>tests/main.c\<close> runs hold of it, whatever byte
  their uninitialised variables are filled with. One of them, the timeout test of the core, is given the receive buffer that its C text
  leaves out.
\<close>

lemma unit_tests_pass: "length test_main = 62 \<and> list_all (\<lambda>t. t x) test_main"
  using core_tests_pass client_tests_pass proto_tests_pass virtual_transport_tests_pass
  by (simp add: test_main_def) (simp add: core_tests_def client_tests_def proto_tests_def virtual_transport_tests_def)

end
