(* ===== verification/Spec2Isabelle.thy ===== *)
theory Spec2Isabelle
  imports Aem_Demo_Run Aem_Broker_Run Aem_Smoke Aem_Tests
begin

text \<open>
  Verification of AEMlib, a small MQTT 3.1.1 client for embedded targets (QoS 0, no dynamic allocation, cooperative
  polling). All source paths are relative to \<^verbatim>\<open>src/\<close>.

  \<^bold>\<open>Parts of the program.\<close> The caller owns an \<^verbatim>\<open>aemlib_client_t\<close> with two buffers and configures it with a transport,
  a clock, a storage interface (reserved, unused) and a message callback. \<^verbatim>\<open>core/client.c\<close> is the public interface and
  does the input and output: it stages what the transport did not take, reassembles packets from the byte stream, dispatches
  them and sends keepalive packets. \<^verbatim>\<open>core/core.c\<close> is the connection state machine that it polls. Both encode and decode
  packets with \<^verbatim>\<open>proto/proto.c\<close> and reach the outside world through the wrappers of \<^verbatim>\<open>platform/transport.h\<close> and
  \<^verbatim>\<open>platform/time_iface.h\<close>. \<^verbatim>\<open>platform/virtual_transport.c\<close> is an in-memory transport, \<^verbatim>\<open>core/log.c\<close> the logging
  facility. The examples are programs on top: \<^verbatim>\<open>examples/pubsub_demo.c\<close>, a client and a small broker that talk over the
  in-memory transport; \<^verbatim>\<open>examples/mqtt_broker_demo.c\<close>, a client of a real broker over the TCP transport of
  \<^verbatim>\<open>examples/posix_tcp_transport.c\<close>; and \<^verbatim>\<open>examples/smoke_test.c\<close>, a walk through the interface over stubs.

  \<^bold>\<open>Conventions.\<close> C integers are words of their width (\<^verbatim>\<open>size_t\<close> has 64 bits), so that sums and casts wrap as in C.
  A memory object is a list of bytes and a pointer into it the object with an index; undefined behaviour (an access outside
  an object, a null dereference, a division by zero) is the value \<^term>\<open>None\<close>, hence a theorem that a call returns
  \<^term>\<open>Some r\<close> also states that it is free of undefined behaviour. State is passed explicitly: a function takes the client
  and the world behind the interfaces and returns them with a status word. A null pointer is \<^term>\<open>None\<close>.

  \<^bold>\<open>Theories and what they hold.\<close>

  \<^item> \<^verbatim>\<open>Aem_Prelude\<close>: C types, memory objects, \<^verbatim>\<open>memcpy\<close>, \<^verbatim>\<open>memmove\<close>, \<^verbatim>\<open>strlen\<close>; word, list and option lemmas.
  \<^item> \<^verbatim>\<open>Aem_Status\<close> (\<^verbatim>\<open>include/aemlib/status.h\<close>, \<^verbatim>\<open>core/status.c\<close>): the packed status word; its comparisons are
    decided by rewriting.
  \<^item> \<^verbatim>\<open>Aem_Mqtt_Constants\<close>, \<^verbatim>\<open>Aem_Remaining_Length\<close>, \<^verbatim>\<open>Aem_Proto\<close> (\<^verbatim>\<open>proto/proto.h\<close>, \<^verbatim>\<open>proto/proto.c\<close>): every function
    of the packet layer. \<^verbatim>\<open>Aem_Proto_Encode\<close> states what an encoder promises as the locale \<^verbatim>\<open>packet_encoder\<close>, interpreted
    for all five encoders; \<^verbatim>\<open>Aem_Proto_Decode\<close> relates the decoders to parsers on byte lists (\<^verbatim>\<open>fh_parse\<close>,
    \<^verbatim>\<open>publish_parse\<close>) and proves the round trips, the exact bytes of CONNECT and SUBSCRIBE and what happens to a topic that is too long.
  \<^item> \<^verbatim>\<open>Aem_Platform\<close> (\<^verbatim>\<open>include/aemlib/aemlib.h\<close>, \<^verbatim>\<open>platform/transport.h\<close>, \<^verbatim>\<open>platform/time_iface.h\<close>,
    \<^verbatim>\<open>platform/storage.h\<close>): the structures, the wrappers, and the contract of the code behind the function pointers as the
    locales \<^verbatim>\<open>transport_impl\<close> and \<^verbatim>\<open>platform\<close>.
  \<^item> \<^verbatim>\<open>Aem_Virtual_Transport\<close> (\<^verbatim>\<open>platform/virtual_transport.c\<close>): the ring buffer refines a bounded FIFO (locale
    \<^verbatim>\<open>byte_pipe\<close>), an endpoint satisfies \<^verbatim>\<open>transport_impl\<close>, a pair of endpoints is a lossless duplex stream.
  \<^item> \<^verbatim>\<open>Aem_Log\<close> (\<^verbatim>\<open>core/log.c\<close>, \<^verbatim>\<open>include/aemlib/log.h\<close>, \<^verbatim>\<open>include/aemlib/config.h\<close>): the emitters and the
    conditional compilation around them. Since that compiles every log call away, the models of the core and the client
    have none.
  \<^item> \<^verbatim>\<open>Aem_Core\<close> (\<^verbatim>\<open>core/core.c\<close>): configuration, requests, packet identifiers, one handler per state. Its invariant is
    \<^verbatim>\<open>wf_client\<close>; \<^verbatim>\<open>poll_trans\<close> is the graph of the states and \<^verbatim>\<open>connack_outcome\<close> what may happen while a CONNACK is awaited.
  \<^item> \<^verbatim>\<open>Aem_Client\<close> (\<^verbatim>\<open>core/client.c\<close>): the client layer. \<^verbatim>\<open>Aem_Client_Io\<close> specifies sending (\<^verbatim>\<open>send_outcome\<close>) and
    receiving (\<^verbatim>\<open>drain\<close>, one pass of a parser over the received bytes), \<^verbatim>\<open>Aem_Session\<close> the public functions and runs of
    them (\<^verbatim>\<open>api_run\<close>, \<^verbatim>\<open>listening\<close>), all inside the locale \<^verbatim>\<open>platform\<close>.
  \<^item> \<^verbatim>\<open>Aem_Link\<close>: what the client does to its platform, for any relation that the functions of the platform respect
    (locales \<^verbatim>\<open>stepped\<close> and \<^verbatim>\<open>evolving\<close>), and that client and transport agree on whether the connection is closed, being
    opened or up (locale \<^verbatim>\<open>phased\<close>, and \<^verbatim>\<open>linked\<close> for transports that open at once).
  \<^item> \<^verbatim>\<open>Aem_Protocol\<close>: the MQTT session that a client is meant to have, as a machine over packets sent, the acceptance and messages
    delivered (\<^verbatim>\<open>protocol_step\<close>); sessions of a client with its platform (\<^verbatim>\<open>session\<close>) and the relation by which they refine that machine.
  \<^item> \<^verbatim>\<open>Aem_Handshake\<close>: progress of a connection attempt over transports that do not fail while they are up (locale \<^verbatim>\<open>lively\<close>).
  \<^item> \<^verbatim>\<open>Aem_Demo\<close> (\<^verbatim>\<open>examples/pubsub_demo.c\<close>): the broker and the main program; the contracts \<^verbatim>\<open>platform\<close>, \<^verbatim>\<open>linked\<close>, \<^verbatim>\<open>lively\<close>
    and \<^verbatim>\<open>evolving\<close> are discharged here for the virtual transport, the clock and the callback of the repository.
    \<^verbatim>\<open>Aem_Demo_Broker\<close> has an abstract broker on byte streams and on packets (\<^verbatim>\<open>broker_run\<close>, \<^verbatim>\<open>broker_replies\<close>), shows that the broker refines it,
    safely, on every stream whose SUBSCRIBE packets hold their topics and so on what a client sends, and has the packet that makes it
    read behind its buffer. \<^verbatim>\<open>Aem_Demo_Run\<close> shows that the program succeeds, whatever its uninitialised variables hold.
  \<^item> \<^verbatim>\<open>Aem_Posix_Tcp\<close> (\<^verbatim>\<open>examples/posix_tcp_transport.c\<close>): the TCP transport. The calls of the operating system are the
    fields of a record \<^verbatim>\<open>posix\<close>, a parameter of every definition; what POSIX documents of them is stated by
    \<^verbatim>\<open>socket_laws\<close>, \<^verbatim>\<open>descriptor_laws\<close> and \<^verbatim>\<open>clock_laws\<close>, hypotheses of the theorems, and a small loopback system shows that
    they can hold together. A transport is closed, pending or up (\<^verbatim>\<open>tcp_closed\<close>, \<^verbatim>\<open>tcp_pending\<close>, \<^verbatim>\<open>tcp_up\<close>), each with the
    descriptors it owns; \<^verbatim>\<open>poll_law\<close> says that \<^verbatim>\<open>poll\<close> does not fail, without which an unfinished connect may be kept.
  \<^item> \<^verbatim>\<open>Aem_Broker_Demo\<close> (\<^verbatim>\<open>examples/mqtt_broker_demo.c\<close>): clock, callback, loop and main program, and the same contracts for the
    TCP transport under the laws; \<^verbatim>\<open>Aem_Broker_Run\<close> shows that the program ends and which descriptors a client holds after any run.
  \<^item> \<^verbatim>\<open>Aem_Smoke\<close> (\<^verbatim>\<open>examples/smoke_test.c\<close>, \<^verbatim>\<open>tests/package/consumer.c\<close>): the smoke test, the link test of the installed package,
    and their outcomes.
  \<^item> \<^verbatim>\<open>Aem_Tests\<close> (\<^verbatim>\<open>tests/main.c\<close>, \<^verbatim>\<open>tests/test_core.c\<close>, \<^verbatim>\<open>tests/test_client.c\<close>, \<^verbatim>\<open>tests/test_proto.c\<close>,
    \<^verbatim>\<open>tests/test_virtual_transport.c\<close>): all unit tests of the repository, which the model passes (\<^verbatim>\<open>unit_tests_pass\<close>).
\<close>

text \<open>
  \<^bold>\<open>What the theorems show.\<close> This theory holds the properties that span components: no sequence of calls can leave
  the buffers (\<^verbatim>\<open>api_memory_safe\<close>); inbound bytes are delivered as the messages they encode, however they are cut
  (\<^verbatim>\<open>receive_loop_correct\<close>, \<^verbatim>\<open>inbound_stream_delivered\<close>, \<^verbatim>\<open>publish_reaches_subscriber\<close>); a whole session, on the wire and
  towards the application, is one that the protocol allows (\<^verbatim>\<open>session_refines_protocol\<close>); the connection handshake
  and the graph of states (\<^verbatim>\<open>handshake_completes\<close>, \<^verbatim>\<open>connack_decides\<close>, \<^verbatim>\<open>connected_only_after_connack\<close>, \<^verbatim>\<open>poll_follows_state_graph\<close>); what
  is sent (\<^verbatim>\<open>poll_output\<close>, \<^verbatim>\<open>publish_outcomes\<close>, \<^verbatim>\<open>subscribe_outcomes\<close>, \<^verbatim>\<open>keepalive_due\<close>); initialisation and packet identifiers; and behaviours that differ
  from what the comments or the documentation say. A theorem about a client takes the contract of the platform as a named
  hypothesis; every such theorem has a witness on the virtual transport of the repository.

  \<^bold>\<open>Loops.\<close> Every loop of the sources is a total function with a measure: the digits of the remaining length, the bytes of
  the ring buffer loops, and for the receive loop of the client and of the broker the number of buffered bytes, of which a
  packet takes at least two. The one exception is the loop of \<^verbatim>\<open>examples/mqtt_broker_demo.c\<close>, which waits for a clock and takes
  fuel: 751 turns are enough, since a turn lasts at least 20 ms and the loop is entered only in the first 15000 ms
  (\<^verbatim>\<open>broker_main_returns\<close>).

  \<^bold>\<open>Not modelled.\<close> Console output of the examples (of it, only the strings that the broker of \<^verbatim>\<open>examples/pubsub_demo.c\<close> hands
  to \<^verbatim>\<open>printf\<close> with their lengths, since reading them can leave its buffer); the formatting of log messages (an argument of the emitters); a message
  callback that calls back into the client; aliasing between the buffers that a caller hands over (they are distinct objects); a null payload pointer of
  \<^verbatim>\<open>aemlib_publish\<close>, and output pointers of \<^verbatim>\<open>aemlib_proto_decode_publish\<close> of which only some are null (they are one optional view);
  the storage functions beyond their wrappers, since nothing calls them; the operating system behind the TCP transport, of which
  only the documented behaviour is used; activity of the peer during a call (it is told in the queues before the call); build files.
\<close>

section \<open>Safety of the public interface\<close>

text \<open>
  C1: no sequence of calls can make the library run into undefined behaviour. For every transport, clock and
  callback that keep their contract, from a client initialised with real buffers, after any interleaving of
  poll, connect, disconnect, publish and subscribe calls in any state with admissible arguments, and of
  activity of the peer, the client is still well formed (its byte counts within its buffers, a legal packet
  identifier, a state of the enumeration) and the next call of each kind returns.
\<close>

theorem api_memory_safe:
  assumes "platform conn disc rd wr winv inq outq now deliver seen"
    and "config_ok conn disc rd wr now deliver cfg" "winv w"
    and "aemlib_init (Some c) (Some cfg) w = Some (st, Some c0, w0)"
    and "\<And>u u'. winv u \<Longrightarrow> env u u' \<Longrightarrow> winv u'"
    and "api_run env c0 w0 c1 w1"
    and "publish_arg_ok (topic, payload, n)" "topic_ok tfilter"
  shows "wf_client c1 \<and> aemlib_poll (Some c1) w1 \<noteq> None
    \<and> aemlib_publish (Some c1) (cstring topic) payload n qos w1 \<noteq> None
    \<and> aemlib_subscribe (Some c1) (cstring tfilter) qos w1 \<noteq> None"
proof -
  note P = assms(1)
  have "platform.good conn disc rd wr winv now deliver c0 w0"
    using platform.init_good [OF P assms(2,3), of c] assms(4) by auto
  then have g: "platform.good conn disc rd wr winv now deliver c1 w1"
    using platform.api_run_good [OF P assms(6)] assms(5) by blast
  show ?thesis
    using platform.good_parts [OF P g] platform.poll_ok [OF P g] platform.publish_good [OF P g assms(7), of qos]
      platform.subscribe_good [OF P g assms(8), of qos] by auto
qed

theorem api_memory_safe_witness:
  "\<exists>c0 w0. aemlib_init (Some zero_client) (Some (demo_config (replicate 64 0) (replicate 64 0) (aemlib_virtual_transport_bind 0)))
      (sample_world []) = Some (AEMLIB_STATUS_OK, Some c0, w0)
    \<and> wf_client c0 \<and> aemlib_poll (Some c0) w0 \<noteq> None \<and> aemlib_publish (Some c0) (cstring [0x61]) [1, 2] 2 0 w0 \<noteq> None"
proof -
  let ?cfg = "demo_config (replicate 64 0) (replicate 64 0) (aemlib_virtual_transport_bind 0)"
  have cfg: "demo_config_ok ?cfg" by (rule demo_config_ok) simp_all
  have vinv: "vt_inv 0 (sample_world [])" by (rule sample_world_ok) simp
  obtain c0 w0 where i: "aemlib_init (Some zero_client) (Some ?cfg) (sample_world []) = Some (AEMLIB_STATUS_OK, Some c0, w0)"
    using demo.init_good [OF cfg vinv] by blast
  have "publish_arg_ok ([0x61], [1, 2], 2)" "topic_ok [0x61]" by (simp_all add: publish_arg_ok_def topic_ok_def)
  from api_memory_safe [OF demo.platform_axioms cfg vinv i _ api_run.start this, of "\<lambda>_ _. False" 0] i show ?thesis
    by auto
qed

section \<open>Inbound messages\<close>

text \<open>
  C5: the receive loop terminates on every well-formed client, without undefined behaviour, and computes one
  pass of the parser \<^verbatim>\<open>drain\<close> over the buffered bytes: it delivers the messages found, in order, keeps exactly
  the bytes that belong to no complete packet, and returns the status of the pass. When it returns OK there is
  room in the receive buffer, so that a later read can complete the packet that is waiting.
\<close>

theorem receive_loop_correct:
  assumes "wf_rx c" "0 < c_rx_buffer_size c"
  shows "\<exists>ms rest st c'. drain (unat (c_rx_buffer_size c)) (rx_bytes c) = (ms, rest, st)
    \<and> client_read_loop c w = Some (st, c', deliver_all (c_on_message c) ms w)
    \<and> wf_rx c' \<and> rx_bytes c' = rest \<and> rx_frame c c'
    \<and> (st = AEMLIB_STATUS_OK \<longrightarrow> unat (c_rx_len c') < unat (c_rx_buffer_size c'))"
proof -
  obtain ms rest st c' where r: "drain (unat (c_rx_buffer_size c)) (rx_bytes c) = (ms, rest, st)"
    "client_read_loop c w = Some (st, c', deliver_all (c_on_message c) ms w)" "rx_frame c c'" "wf_rx c'" "rx_bytes c' = rest"
    using client_read_loop_ok [OF assms(1), of w] by (auto simp: drain_outcome_def)
  have "unat (c_rx_len c) \<le> unat (c_rx_buffer_size c)" using assms(1) by (auto simp: wf_rx_def)
  then have "length rest < unat (c_rx_buffer_size c)" if "st = AEMLIB_STATUS_OK"
    using drain_room [of _ "rx_bytes c" ms rest] r(1) that assms(2) length_rx_bytes [OF assms(1)] by (simp add: word_less_nat_alt)
  moreover have "c_rx_buffer_size c' = c_rx_buffer_size c" using r(3) by (simp add: rx_frame_def core_frame_def)
  ultimately show ?thesis using r length_rx_bytes [OF r(4)] by auto
qed

text \<open>A PUBLISH with topic \<open>a\<close> and payload \<open>[7]\<close>, then the first byte of a PINGRESP.\<close>

lemma sample_drain: "drain 64 [0x30, 4, 0, 1, 0x61, 7, 0xD0] = ([([0x61], [7])], [0xD0], AEMLIB_STATUS_OK)"
  by (simp add: drain.simps packet_type_of_def packet_event_def header_qos_def)

theorem receive_loop_correct_witness:
  "\<exists>c'. client_read_loop (sample_client AEMLIB_STATE_MQTT_CONNECTED [0x30, 4, 0, 1, 0x61, 7, 0xD0] []) (sample_world [])
      = Some (AEMLIB_STATUS_OK, c', on_message [0x61] [7] (sample_world [])) \<and> rx_bytes c' = [0xD0]"
proof -
  let ?c = "sample_client AEMLIB_STATE_MQTT_CONNECTED [0x30, 4, 0, 1, 0x61, 7, 0xD0] []"
  have c: "wf_client ?c" "rx_bytes ?c = [0x30, 4, 0, 1, 0x61, 7, 0xD0]" by (simp_all add: sample_client_ok)
  then show ?thesis
    using receive_loop_correct [of ?c "sample_world []"] sample_drain
    by (auto simp: wf_client_def deliver_all_def)
qed

text \<open>
  C2: however the incoming byte stream is cut into reads, a connected client delivers the same messages.
  After any number of successful polls, with anything happening in the world in between, the messages handed
  to the callback are exactly those that one pass of the parser \<^verbatim>\<open>drain\<close> finds in all the bytes taken from the
  transport so far, in order and once each, and the bytes still buffered are what that pass leaves over.
\<close>

theorem inbound_stream_delivered:
  assumes "platform conn disc rd wr winv inq outq now deliver seen"
    and "wf_client c0" "runs_on conn disc rd wr now deliver c0" "winv w0"
    and "c_state c0 = AEMLIB_STATE_MQTT_CONNECTED" "rx_bytes c0 = []" "c_on_message c0 = Some deliver"
    and "listening winv inq seen c0 w0 A c w"
  shows "\<exists>ms. drain (unat (c_rx_buffer_size c0)) A = (ms, rx_bytes c, AEMLIB_STATUS_OK)
    \<and> seen w = seen w0 @ ms \<and> c_state c = AEMLIB_STATE_MQTT_CONNECTED"
proof -
  have "platform.good conn disc rd wr winv now deliver c0 w0"
    using assms(2-4) by (simp add: platform.good_def [OF assms(1)])
  from platform.listening_drain [OF assms(1,8) this assms(5-7)] show ?thesis by blast
qed

theorem inbound_stream_delivered_witness:
  "\<exists>c w. listening (vt_inv 0) (vt_inq 0) printed (sample_client AEMLIB_STATE_MQTT_CONNECTED [] [])
      (sample_world [0x30, 4, 0, 1, 0x61, 7, 0xD0]) [0x30, 4, 0, 1, 0x61, 7, 0xD0] c w
    \<and> printed w = [([0x61], [7])] \<and> rx_bytes c = [0xD0]"
proof -
  let ?c = "sample_client AEMLIB_STATE_MQTT_CONNECTED [] []" and ?b = "[0x30, 4, 0, 1, 0x61, 7, 0xD0] :: byte list"
  obtain c w where l: "listening (vt_inv 0) (vt_inq 0) printed ?c (sample_world ?b) ?b c w"
    using sample_listening [OF _ sample_drain] by auto
  have "\<exists>ms. drain (unat (c_rx_buffer_size ?c)) ?b = (ms, rx_bytes c, AEMLIB_STATUS_OK)
      \<and> printed w = printed (sample_world ?b) @ ms \<and> c_state c = AEMLIB_STATE_MQTT_CONNECTED"
    by (rule inbound_stream_delivered [OF demo.platform_axioms _ _ _ _ _ _ l]) (simp_all add: sample_client_ok sample_world_ok)
  then show ?thesis using l sample_drain by (auto simp: sample_world_def)
qed

text \<open>
  C3: a published message reaches a subscriber unchanged. Whatever bytes a successful publish call has put on
  the sender's outgoing stream (under way or staged), once a connected receiver with a large enough receive
  buffer has taken exactly these bytes from its transport, in any number of polls, its callback has been
  given the topic and the payload, and nothing else.
\<close>

theorem publish_reaches_subscriber:
  assumes "platform conn1 disc1 rd1 wr1 winv1 inq1 outq1 now1 deliver1 seen1"
    and "wf_client a" "runs_on conn1 disc1 rd1 wr1 now1 deliver1 a" "winv1 u"
    and "publish_arg_ok (topic, payload, n)" "length topic < 2 ^ 16"
    and "aemlib_publish (Some a) (cstring topic) payload n 0 u = Some (AEMLIB_STATUS_OK, Some a', u')"
    and "outq1 u' @ tx_bytes a' = outq1 u @ sent"
    and "platform conn disc rd wr winv inq outq now deliver seen"
    and "wf_client c0" "runs_on conn disc rd wr now deliver c0" "winv w0"
    and "c_state c0 = AEMLIB_STATE_MQTT_CONNECTED" "rx_bytes c0 = []" "c_on_message c0 = Some deliver"
    and "length topic + unat n + 7 \<le> unat (c_rx_buffer_size c0)" "listening winv inq seen c0 w0 sent c w"
  shows "seen w = seen w0 @ [(topic, take (unat n) payload)] \<and> rx_bytes c = []"
proof -
  let ?p = "take (unat n) payload"
  obtain r where r: "aemlib_publish (Some a) (cstring topic) payload n 0 u = to_pcall r"
    "platform.sends wr1 winv1 inq1 outq1 seen1 (body_fits (publish_body topic ?p) (c_tx_buffer_size a)) (publish_packet (topic, ?p)) a u r"
    using platform.publish_ok [OF assms(1) _ assms(3-5)] assms(2) by (auto simp: wf_client_def)
  then have o: "send_outcome (body_fits (publish_body topic ?p) (c_tx_buffer_size a)) (publish_packet (topic, ?p)) AEMLIB_STATUS_OK a a' (outq1 u) (outq1 u')"
    using assms(7) by (auto simp: platform.sends_def [OF assms(1)] to_pcall_def)
  then have fit: "body_fits (publish_body topic ?p) (c_tx_buffer_size a)" and sent: "sent = publish_packet (topic, ?p)"
    using assms(8) by (auto simp: send_outcome_def split: if_splits)
  have "length ?p = unat n" using assms(5) by (simp add: publish_arg_ok_def)
  moreover have small: "length (publish_body topic ?p) < 2 ^ 28" using fit by (simp add: body_fits_def)
  moreover have "length (rl_bytes (length (publish_body topic ?p))) \<le> 4" using small by (simp only: length_rl_bytes_4)
  ultimately have "length (publish_packet (topic, ?p)) \<le> unat (c_rx_buffer_size c0)"
    using assms(16) by (simp add: publish_packet_def length_mqtt_packet)
  note d = drain_publish [OF assms(6) small this]
  have "platform.good conn disc rd wr winv now deliver c0 w0"
    using assms(10-12) by (simp add: platform.good_def [OF assms(9)])
  from platform.listening_drain [OF assms(9,17) this assms(13-15)] show ?thesis using d sent by auto
qed

lemma sample_packet: "publish_packet ([0x61], [7]) = [0x30, 4, 0, 1, 0x61, 7]"
  by (simp add: publish_packet_def mqtt_packet_def publish_body_def utf8_def uint16_be_def rl_bytes.simps)

theorem publish_reaches_subscriber_witness:
  "\<exists>a' u' c w. aemlib_publish (Some (sample_client AEMLIB_STATE_MQTT_CONNECTED [] [])) (cstring [0x61]) [7] 1 0 (sample_world [])
      = Some (AEMLIB_STATUS_OK, Some a', u') \<and> vt_outq 0 u' @ tx_bytes a' = [0x30, 4, 0, 1, 0x61, 7]
    \<and> listening (vt_inv 0) (vt_inq 0) printed (sample_client AEMLIB_STATE_MQTT_CONNECTED [] []) (sample_world [0x30, 4, 0, 1, 0x61, 7])
        [0x30, 4, 0, 1, 0x61, 7] c w
    \<and> printed w = [([0x61], [7])]"
proof -
  let ?c = "sample_client AEMLIB_STATE_MQTT_CONNECTED [] []" and ?b = "[0x30, 4, 0, 1, 0x61, 7] :: byte list"
  have arg: "publish_arg_ok ([0x61], [7], 1)" by (simp add: publish_arg_ok_def)
  have c: "wf_client ?c" "demo_runs_on ?c" by (simp_all add: sample_client_ok)
  obtain a' u' where p: "aemlib_publish (Some ?c) (cstring [0x61]) [7] 1 0 (sample_world []) = Some (AEMLIB_STATUS_OK, Some a', u')"
    "vt_outq 0 u' @ tx_bytes a' = ?b"
    using sample_publish [OF arg, of ?c] c sample_packet by auto
  have "drain 64 ?b = ([([0x61], [7])], [], AEMLIB_STATUS_OK)"
    using drain_publish [of "[0x61]" "[7]" 64] by (simp add: sample_packet)
  then obtain c' w where l: "listening (vt_inv 0) (vt_inq 0) printed ?c (sample_world ?b) ?b c' w"
    using sample_listening [of ?b] by auto
  have "printed w = printed (sample_world ?b) @ [([0x61], take (unat (1 :: size_t)) [7])] \<and> rx_bytes c' = []"
    by (rule publish_reaches_subscriber [OF demo.platform_axioms c _ arg _ p(1) _ demo.platform_axioms c _ _ _ _ _ l])
       (simp_all add: p(2) sample_world_ok sample_client_ok)
  then show ?thesis using p l by (auto simp: sample_world_def)
qed

text \<open>
  C4: every session of a client is a session of the protocol. Let a connect request have been accepted, and let the application then do what it
  likes with the client: poll it with success, publish and subscribe while it is connected and has nothing staged, ask it to disconnect,
  with anything happening to the world in between. Then there is a sequence of events that the protocol machine of
  \<^verbatim>\<open>Aem_Protocol\<close> allows (CONNECT first and once, no other packet and no message before the acceptance, the acceptance once)
  and that ends in the phase of the client's state, such that: the bytes that the transport has taken over, followed by those still staged, are the encodings
  of its packets, in order and each complete; its application packets are exactly those that the calls have reported as sent, in order; its
  CONNECT announces the configured keepalive time; its messages are exactly those that the callback was given; and once it is established, the
  bytes received start with an accepting CONNACK and carry exactly these messages behind it.
\<close>

theorem session_refines_protocol:
  assumes "platform conn disc rd wr winv inq outq now deliver seen"
    and "wf_client c" "runs_on conn disc rd wr now deliver c" "winv w0" "c_on_message c = Some deliver"
    and "aemlib_connect (Some c) = (AEMLIB_STATUS_OK, Some c0)"
    and "session winv inq outq seen c0 w0 Q B A c' w"
  shows "\<exists>T ph. protocol_run Fresh T = Some ph \<and> in_phase (c_state c') ph
    \<and> B @ tx_bytes c' = concat (map packet_bytes (packets_of T)) \<and> filter app_packet (packets_of T) = Q
    \<and> (\<forall>k. Connect k \<in> set (packets_of T) \<longrightarrow> k = keepalive_sec c) \<and> seen w = seen w0 @ messages_of T
    \<and> (ph = Established \<longrightarrow> (\<exists>a rest. connack_verdict (unat (c_rx_buffer_size c)) A = CV_Accept a
         \<and> drain (unat (c_rx_buffer_size c)) (drop a A) = (messages_of T, rest, AEMLIB_STATUS_OK)))"
proof -
  have c: "platform.good conn disc rd wr winv now deliver c w0" using assms(2-4) by (simp add: platform.good_def [OF assms(1)])
  have c0: "c0 = c\<lparr>c_tx_pending_len := 0, c_rx_len := 0, c_state := AEMLIB_STATE_CONNECTING, c_connect_sent := 0\<rparr>"
    using assms(6) by (auto simp: aemlib_connect_def aemlib_core_connect_def split: if_splits)
  have "platform.refines conn disc rd wr winv now deliver seen c0 w0 Q B A c' w"
    by (rule platform.session_refines [OF assms(1,7) platform.good_request(1) [OF assms(1) c assms(6)]])
       (simp_all add: c0 rx_bytes_def tx_bytes_def assms(5))
  moreover have "keepalive_sec c0 = keepalive_sec c" "c_rx_buffer_size c0 = c_rx_buffer_size c" by (simp_all add: c0 keepalive_sec_def)
  ultimately show ?thesis by (auto simp: platform.refines_def [OF assms(1)] session_abs_def)
qed

lemma sample_world_printed: "printed (sample_world bs) = []"
  by (simp add: sample_world_def)

text \<open>A session over the virtual transport: the connection is opened and accepted, then a message is published.\<close>

lemma sample_session_run:
  "do {
     c0 \<leftarrow> snd (aemlib_connect (Some (sample_client AEMLIB_STATE_DISCONNECTED [] [])));
     (st1, c1, w1) \<leftarrow> aemlib_poll (Some c0) (sample_world []);
     (st2, c2, w2) \<leftarrow> aemlib_poll c1 (sample_world [0x20, 2, 0, 0]);
     (st3, c3, w3) \<leftarrow> aemlib_publish c2 (cstring [0x61]) [7] 1 0 w2;
     Some (st1, st2, st3, map_option c_state c1, map_option c_state c2, map_option c_tx_pending_len c2, map_option c_state c3, vt_inq 0 w2, printed w1)
   } = Some (AEMLIB_STATUS_OK, AEMLIB_STATUS_OK, AEMLIB_STATUS_OK, Some AEMLIB_STATE_MQTT_CONNECT_SENT, Some AEMLIB_STATE_MQTT_CONNECTED,
        Some 0, Some AEMLIB_STATE_MQTT_CONNECTED, [], [])"
  by code_simp

theorem session_refines_protocol_witness:
  "\<exists>c0 B c w T. snd (aemlib_connect (Some (sample_client AEMLIB_STATE_DISCONNECTED [] []))) = Some c0
    \<and> session (vt_inv 0) (vt_inq 0) (vt_outq 0) printed c0 (sample_world []) [Publish [0x61] [7]] B [0x20, 2, 0, 0] c w
    \<and> protocol_run Fresh T = Some Established \<and> B @ tx_bytes c = concat (map packet_bytes (packets_of T))
    \<and> filter app_packet (packets_of T) = [Publish [0x61] [7]] \<and> printed w = messages_of T"
proof -
  let ?c = "sample_client AEMLIB_STATE_DISCONNECTED [] []" and ?v = "sample_world []" and ?w = "sample_world [0x20, 2, 0, 0]"
  let ?session = "session (vt_inv 0) (vt_inq 0) (vt_outq 0) printed"
  obtain c0 c1 w1 c2 w2 c3 w3 where c: "snd (aemlib_connect (Some ?c)) = Some c0"
    "aemlib_poll (Some c0) ?v = Some (AEMLIB_STATUS_OK, Some c1, w1)" "printed w1 = []" "c_state c1 = AEMLIB_STATE_MQTT_CONNECT_SENT"
    "aemlib_poll (Some c1) ?w = Some (AEMLIB_STATUS_OK, Some c2, w2)" "c_state c2 = AEMLIB_STATE_MQTT_CONNECTED" "c_tx_pending_len c2 = 0"
    "aemlib_publish (Some c2) (cstring [0x61]) [7] 1 0 w2 = Some (AEMLIB_STATUS_OK, Some c3, w3)" "vt_inq 0 w2 = []"
    "c_state c3 = AEMLIB_STATE_MQTT_CONNECTED"
    using sample_session_run by (auto simp: bind_Some_iff)
  have c0: "c_state c0 = AEMLIB_STATE_CONNECTING" "aemlib_connect (Some ?c) = (AEMLIB_STATUS_OK, Some c0)"
    using c(1) by (auto simp: aemlib_connect_def aemlib_core_connect_def)
  have arg: "publish_arg_ok ([0x61], [7], 1)" by (simp add: publish_arg_ok_def)
  obtain B1 where "?session c0 ?v [] B1 [] c1 w1"
    using session.poll [OF session.start c(2), of "vt_inv 0" "vt_inq 0" "vt_outq 0" printed] c0(1) by (auto simp: incoming_def)
  then have "?session c0 ?v [] B1 [] c1 ?w" by (rule session.others) (simp_all add: sample_world_ok sample_world_printed c(3))
  from session.poll [OF this c(5)] obtain B2 where "?session c0 ?v [] B2 [0x20, 2, 0, 0] c2 w2"
    using c(4,9) by (auto simp: incoming_def sample_world_ok)
  from session.publish [OF this c(6,7) arg c(8)] obtain B where s: "?session c0 ?v [Publish [0x61] [7]] B [0x20, 2, 0, 0] c3 w3"
    by (auto simp: requested_def)
  show ?thesis
    using c(10) session_refines_protocol [OF demo.platform_axioms [of 0] _ _ _ _ c0(2) s] s c(1)
    by (fastforce simp: sample_client_ok sample_world_ok sample_world_printed in_phase_def)
qed

section \<open>The connection state machine\<close>

text \<open>
  C8: one poll of the core while it waits for the CONNACK. The transport is asked for as many bytes as the receive buffer has room for,
  behind those already there. When that read fails with anything but WOULD_BLOCK, the poll returns exactly this status, the client is disconnected, the
  connection is dropped and nothing is consumed. Otherwise the \<open>m\<close> bytes that have arrived (none on WOULD_BLOCK) join the others, and the outcome is decided
  on all of them as \<^verbatim>\<open>connack_outcome\<close> says: a complete CONNACK with return code 0 connects
  and leaves the bytes behind it for the client; any other return code, packet type, oversized or malformed packet
  disconnects with its status; an incomplete one waits, until 5000 ms have passed since the transport connected.
\<close>

theorem connack_decides:
  assumes "platform conn disc rd wr winv inq outq now deliver seen"
    and "wf_client c" "runs_on conn disc rd wr now deliver c" "winv w" "c_state c = AEMLIB_STATE_MQTT_CONNECT_SENT"
  shows "\<exists>rx st0 dst n w1 st c' w'. c_rx_buffer c = Some rx
    \<and> rd w (drop (unat (c_rx_len c)) rx) (c_rx_buffer_size c - c_rx_len c) 0 = Some (st0, dst, n, w1)
    \<and> aemlib_core_poll (Some c) w = Some (st, Some c', w') \<and> wf_client c' \<and> core_frame c c' \<and> outq w' = outq w
    \<and> (if st0 \<noteq> AEMLIB_STATUS_OK \<and> \<not> would_block st0
       then st = st0 \<and> c_state c' = AEMLIB_STATE_DISCONNECTED \<and> rx_bytes c' = rx_bytes c \<and> (\<exists>d. disc w1 = Some (d, w'))
       else let m = if would_block st0 then 0 else unat n in m \<le> length (inq w) \<and> winv w1
         \<and> (c_state c' \<noteq> AEMLIB_STATE_DISCONNECTED \<longrightarrow> inq w' = drop m (inq w))
         \<and> connack_outcome (fst (now w1)) c (rx_bytes c @ take m (inq w)) st c')"
proof -
  obtain rx st0 dst n w1 st c' w' where rd: "c_rx_buffer c = Some rx"
    "rd w (drop (unat (c_rx_len c)) rx) (c_rx_buffer_size c - c_rx_len c) 0 = Some (st0, dst, n, w1)"
    and r: "handle_state_mqtt_connect_sent c w = Some (st, c', w')" "core_frame c c'" "wf_rx c'" "outq w' = outq w"
    and o: "read_outcome disc winv inq now c w (st0, n, w1) (st, c', w')"
    using platform.connect_sent_read [OF assms(1) _ assms(3,4)] assms(2) unfolding wf_client_def by blast
  have "wf_state (c_state c')"
    using o connack_outcome_trans [OF _ assms(5)] poll_trans_wf wf_state_simps(1)
    by (fastforce simp: read_outcome_def Let_def split: if_splits)
  then have "wf_client c'" using core_frame_wf(1) [OF assms(2) r(2,3)] by simp
  moreover have "aemlib_core_poll (Some c) w = Some (st, Some c', w')"
    using r(1) assms(5) by (simp add: aemlib_core_poll_def core_poll_state_def to_pcall_def)
  ultimately show ?thesis using rd r(2,4) o [unfolded read_outcome_def prod.case] by blast
qed

lemma sample_verdicts:
  "connack_verdict 64 [0x20, 2, 0, 0, 0x30] = CV_Accept 4" "connack_verdict 64 [0x20, 2, 0, 5] = CV_Refuse 4"
  by (simp_all add: connack_verdict_def packet_type_of_def)

theorem connack_decides_witness:
  "\<exists>st c' w'. aemlib_core_poll (Some (sample_client AEMLIB_STATE_MQTT_CONNECT_SENT [0x20, 2, 0, 5] [])) (sample_world []) = Some (st, Some c', w')
    \<and> c_state c' = AEMLIB_STATE_DISCONNECTED \<and> st \<noteq> AEMLIB_STATUS_OK"
proof -
  let ?c = "sample_client AEMLIB_STATE_MQTT_CONNECT_SENT [0x20, 2, 0, 5] []"
  have "wf_client ?c" "demo_runs_on ?c" "vt_inv 0 (sample_world [])" "c_state ?c = AEMLIB_STATE_MQTT_CONNECT_SENT"
    "rx_bytes ?c = [0x20, 2, 0, 5]" by (simp_all add: sample_client_ok sample_world_ok)
  then show ?thesis
    using connack_decides [OF demo.platform_axioms [of 0], of ?c "sample_world []"] sample_verdicts(2)
    by (fastforce simp: sample_client_ok sample_world_ok connack_outcome_def Let_def split: if_splits)
qed

text \<open>
  C10: a connection attempt that is answered comes to an end. Over a transport that does not fail while it is up, a disconnected client accepts the
  request; if the transport opens, the first poll succeeds and has put the CONNECT packet on the outgoing stream; and from any later
  world in which an accepting CONNACK is among the bytes that have arrived, at most one poll more than there are bytes ends the wait: the client is
  connected, or the clock has shown that the five seconds of the code are over and the client has given up with TIMEOUT. However few bytes a read
  hands over, no poll leaves the client waiting without progress.
\<close>

theorem handshake_completes:
  assumes "lively conn disc rd wr winv inq outq now deliver seen idle up"
    and "wf_client c" "runs_on conn disc rd wr now deliver c" "winv w" "idle w" "conn w = Some (AEMLIB_STATUS_OK, w')"
    and "c_state c = AEMLIB_STATE_DISCONNECTED" "17 \<le> unat (c_tx_buffer_size c)"
  shows "\<exists>c0 c1 w1. aemlib_connect (Some c) = (AEMLIB_STATUS_OK, Some c0) \<and> aemlib_poll (Some c0) w = Some (AEMLIB_STATUS_OK, Some c1, w1)
    \<and> outq w1 @ tx_bytes c1 = outq w @ connect_packet ([], keepalive_sec c)
    \<and> (\<forall>w2 k. winv w2 \<and> up w2 \<and> connack_verdict (unat (c_rx_buffer_size c)) (inq w2) = CV_Accept k
          \<and> length (inq w2) \<le> unat (c_rx_buffer_size c) \<longrightarrow>
        (\<exists>n \<le> length (inq w2) + 1. \<exists>st c' w'. polls n c1 w2 = Some (st, c', w') \<and> wait_over winv now c1 st c'))"
proof -
  have pl: "platform conn disc rd wr winv inq outq now deliver seen"
    using assms(1) by (simp add: lively_def linked_def phased_def)
  let ?good = "platform.good conn disc rd wr winv now deliver"
  define c0 where "c0 = c\<lparr>c_tx_pending_len := 0, c_rx_len := 0, c_state := AEMLIB_STATE_CONNECTING, c_connect_sent := 0\<rparr>"
  have c0: "aemlib_connect (Some c) = (AEMLIB_STATUS_OK, Some c0)"
    using assms(7) by (simp add: c0_def aemlib_connect_def aemlib_core_connect_def)
  have "?good c w" using assms(2-4) by (simp add: platform.good_def [OF pl])
  then have g: "?good c0 w" using platform.good_request(1) [OF pl _ c0] by blast
  obtain c1 w1 where 1: "aemlib_poll (Some c0) w = Some (AEMLIB_STATUS_OK, Some c1, w1)" "?good c1 w1" "same_config c0 c1"
    "c_state c1 = AEMLIB_STATE_MQTT_CONNECT_SENT" "c_connect_sent c1 \<noteq> 0" "rx_bytes c1 = rx_bytes c0"
    "outq w1 @ tx_bytes c1 = outq w @ connect_packet ([], keepalive_sec c0)"
    using lively.opening_poll [OF assms(1) g assms(5) _ _ _ _ assms(6)] assms(8) by (auto simp: c0_def)
  have f: "c_rx_buffer_size c1 = c_rx_buffer_size c" "rx_bytes c1 = []" "keepalive_sec c0 = keepalive_sec c"
    using 1(3,6) by (auto simp: c0_def same_config_def rx_bytes_def keepalive_sec_def)
  have "lively.answered conn disc rd wr winv inq now deliver up (unat (c_rx_buffer_size c)) (c_last_activity_ms c1) (inq w2) c1 w2"
    if "winv w2" "up w2" for w2
    using that 1(2,4,5) f by (simp add: lively.answered_def [OF assms(1)] platform.good_def [OF pl])
  note end_of_wait = lively.answered_polls [OF assms(1) this]
  show ?thesis using c0 1(1,7) f(3) end_of_wait by fastforce
qed

definition offline_world :: demo_world where
  "offline_world = (sample_world [])\<lparr>vs_endpoint := (vs_endpoint (sample_world []))(0 \<mapsto> \<lparr>vt_tx = 0, vt_rx = 1, vt_connected = 0\<rparr>)\<rparr>"

lemma offline_world_ok:
  "vt_inv 0 offline_world" "vt_idle 0 offline_world" "vt_outq 0 offline_world = []" "vt_up 0 (sample_world bs)"
  "\<exists>w. vt_connect 0 offline_world = Some (AEMLIB_STATUS_OK, w)"
  using sample_world_ok [of "[]"]
  by (auto simp: offline_world_def vt_state_defs vt_idle_def vt_up_def sample_world_def vt_connect_def)

theorem handshake_completes_witness:
  "\<exists>c0 c1 w1 n st c' w'. aemlib_connect (Some (sample_client AEMLIB_STATE_DISCONNECTED [] [])) = (AEMLIB_STATUS_OK, Some c0)
    \<and> aemlib_poll (Some c0) offline_world = Some (AEMLIB_STATUS_OK, Some c1, w1)
    \<and> polls n c1 (sample_world [0x20, 2, 0, 0]) = Some (st, c', w') \<and> n \<le> 5 \<and> wait_over (vt_inv 0) stub_time_now c1 st c'"
proof -
  let ?c = "sample_client AEMLIB_STATE_DISCONNECTED [] []" and ?w = "sample_world [0x20, 2, 0, 0]"
  obtain w' where w': "vt_connect 0 offline_world = Some (AEMLIB_STATUS_OK, w')" using offline_world_ok(5) by blast
  have c: "wf_client ?c" "demo_runs_on ?c" "17 \<le> unat (c_tx_buffer_size ?c)" "unat (c_rx_buffer_size ?c) = 64" by (simp_all add: sample_client_ok)
  have w: "vt_inv 0 ?w \<and> vt_up 0 ?w \<and> connack_verdict (unat (c_rx_buffer_size ?c)) (vt_inq 0 ?w) = CV_Accept 4
      \<and> length (vt_inq 0 ?w) \<le> unat (c_rx_buffer_size ?c)" "length (vt_inq 0 ?w) + 1 = 5"
    using offline_world_ok(4) by (simp_all add: sample_world_ok connack_verdict_def packet_type_of_def)
  obtain c0 c1 w1 where r: "aemlib_connect (Some ?c) = (AEMLIB_STATUS_OK, Some c0)" "aemlib_poll (Some c0) offline_world = Some (AEMLIB_STATUS_OK, Some c1, w1)"
    and o: "\<exists>n \<le> length (vt_inq 0 ?w) + 1. \<exists>st c' w'. polls n c1 ?w = Some (st, c', w') \<and> wait_over (vt_inv 0) stub_time_now c1 st c'"
    using handshake_completes [OF demo_lively.lively_axioms [of 0] c(1,2) offline_world_ok(1,2) w' _ c(3)] w(1) by (metis sample_client_fields(1))
  then show ?thesis unfolding w(2) by blast
qed

text \<open>
  C9: a client becomes CONNECTED only by a CONNACK. Whenever a poll of the core moves a client into the state
  CONNECTED, the client was waiting for a CONNACK, and the stream of the bytes it has received starts with a complete
  packet of that type, of at least four bytes, whose fourth byte is zero; exactly this packet has been consumed.
\<close>

theorem connected_only_after_connack:
  assumes "platform conn disc rd wr winv inq outq now deliver seen"
    and "wf_client c" "runs_on conn disc rd wr now deliver c" "winv w" "c_state c \<noteq> AEMLIB_STATE_MQTT_CONNECTED"
    and "aemlib_core_poll (Some c) w = Some (st, Some c', w')" "c_state c' = AEMLIB_STATE_MQTT_CONNECTED"
  shows "c_state c = AEMLIB_STATE_MQTT_CONNECT_SENT \<and>
    (\<exists>m f n s. let A = rx_bytes c @ take m (inq w) in
       fh_parse A = FH_Ok AEMLIB_MQTT_PKT_CONNACK f n s \<and> 4 \<le> s + n \<and> s + n \<le> length A \<and> A ! 3 = 0
     \<and> rx_bytes c' @ inq w' = drop (s + n) (rx_bytes c @ inq w))"
proof -
  have p: "core_poll_state c w = Some (st, c', w')" using assms(6) by (auto simp: aemlib_core_poll_def to_pcall_def)
  have "poll_trans (c_state c) AEMLIB_STATE_MQTT_CONNECTED"
    using platform.core_poll_ok [OF assms(1-4)] p assms(7) by auto
  then have s: "c_state c = AEMLIB_STATE_MQTT_CONNECT_SENT" using assms(5) by (cases rule: poll_trans.cases) auto
  then have h: "handle_state_mqtt_connect_sent c w = Some (st, c', w')" using p by (simp add: core_poll_state_def)
  obtain m t where m: "m \<le> length (inq w)" "inq w' = drop m (inq w)" "connack_outcome t c (rx_bytes c @ take m (inq w)) st c'"
    using platform.connect_sent_ok [OF assms(1) _ assms(3,4)] assms(2,7) h unfolding wf_client_def by force
  define A where "A = rx_bytes c @ take m (inq w)"
  obtain k where v: "connack_verdict (unat (c_rx_buffer_size c)) A = CV_Accept k" "rx_bytes c' = drop k A"
    using m(3) s assms(7) by (auto simp: A_def [symmetric] connack_outcome_def split: connack_verdict.splits if_splits)
  then obtain f n l where a: "fh_parse A = FH_Ok AEMLIB_MQTT_PKT_CONNACK f n l" "k = l + n" "4 \<le> l + n" "l + n \<le> length A" "A ! 3 = 0"
    by (auto simp: connack_verdict_def split: fh_result.splits if_splits)
  have "rx_bytes c' @ inq w' = drop k (A @ drop m (inq w))" using v(2) a(2,4) m(2) by simp
  also have "A @ drop m (inq w) = rx_bytes c @ inq w" by (simp add: A_def)
  finally show ?thesis using s a unfolding A_def by (auto simp: Let_def)
qed

theorem connected_only_after_connack_witness:
  "\<exists>c' w'. aemlib_core_poll (Some (sample_client AEMLIB_STATE_MQTT_CONNECT_SENT [0x20] [])) (sample_world [2, 0, 0, 0x30])
      = Some (AEMLIB_STATUS_OK, Some c', w') \<and> c_state c' = AEMLIB_STATE_MQTT_CONNECTED
    \<and> (\<exists>m f n s. fh_parse ([0x20] @ take m [2, 0, 0, 0x30]) = FH_Ok AEMLIB_MQTT_PKT_CONNACK f n s)"
proof -
  let ?c = "sample_client AEMLIB_STATE_MQTT_CONNECT_SENT [0x20] []" and ?w = "sample_world [2, 0, 0, 0x30]"
  obtain c' w' where p: "aemlib_core_poll (Some ?c) ?w = Some (AEMLIB_STATUS_OK, Some c', w')" "c_state c' = AEMLIB_STATE_MQTT_CONNECTED"
    using sample_core_poll [of "[0x20]" "[2, 0, 0, 0x30]" 4] sample_verdicts(1) by auto
  have "wf_client ?c" "demo_runs_on ?c" "vt_inv 0 ?w" "c_state ?c \<noteq> AEMLIB_STATE_MQTT_CONNECTED"
    "rx_bytes ?c = [0x20]" "vt_inq 0 ?w = [2, 0, 0, 0x30]" by (simp_all add: sample_client_ok sample_world_ok)
  then show ?thesis
    using connected_only_after_connack [OF demo.platform_axioms [of 0] _ _ _ _ p] p by (auto simp: Let_def)
qed

text \<open>
  C11: every poll follows the state graph. On a well-formed client a poll returns, leaves the client well
  formed, and either takes an edge of \<^verbatim>\<open>poll_trans\<close> or reports an error and stays where it is: from
  DISCONNECTED only to DISCONNECTED, from CONNECTING to CONNECT_SENT or DISCONNECTED, from CONNECT_SENT to
  CONNECTED or DISCONNECTED, from CONNECTED nowhere else, and from DISCONNECTING to DISCONNECTED.
\<close>

theorem poll_follows_state_graph:
  assumes "platform conn disc rd wr winv inq outq now deliver seen"
    and "wf_client c" "runs_on conn disc rd wr now deliver c" "winv w"
  shows "\<exists>st c' w'. aemlib_poll (Some c) w = Some (st, Some c', w') \<and> wf_client c' \<and> winv w'
    \<and> (poll_trans (c_state c) (c_state c') \<or> st \<noteq> AEMLIB_STATUS_OK \<and> c_state c' = c_state c)"
proof -
  have "platform.good conn disc rd wr winv now deliver c w"
    using assms(2-4) by (simp add: platform.good_def [OF assms(1)])
  from platform.poll_ok [OF assms(1) this] show ?thesis
    using platform.good_parts [OF assms(1)] by (auto simp: platform.poll_result_def [OF assms(1)])
qed

theorem poll_follows_state_graph_witness:
  "\<exists>st c' w'. aemlib_poll (Some (sample_client AEMLIB_STATE_MQTT_DISCONNECTING [] [])) (sample_world []) = Some (st, Some c', w')
    \<and> (c_state c' = AEMLIB_STATE_DISCONNECTED \<or> st \<noteq> AEMLIB_STATUS_OK)"
proof -
  let ?c = "sample_client AEMLIB_STATE_MQTT_DISCONNECTING [] []"
  have "wf_client ?c" "demo_runs_on ?c" "vt_inv 0 (sample_world [])" by (simp_all add: sample_client_ok sample_world_ok)
  then show ?thesis using poll_follows_state_graph [OF demo.platform_axioms [of 0], of ?c "sample_world []"] by auto
qed

text \<open>
  C7: packet identifiers are never zero and run through all 65535 legal values before one is used again: the
  \<open>n\<close>-th identifier drawn after \<open>p\<close> is \<open>(p - 1 + n) mod 65535 + 1\<close>, whatever else happens to the client, and drawing
  it changes nothing but the counter.
\<close>

theorem packet_id_cycle:
  assumes "c_packet_id c \<noteq> 0"
  shows "\<exists>p. ((\<lambda>client. snd (aemlib_core_next_packet_id client)) ^^ n) (Some c) = Some (c\<lparr>c_packet_id := p\<rparr>)
    \<and> unat p = (unat (c_packet_id c) - 1 + n) mod 65535 + 1
    \<and> fst (aemlib_core_next_packet_id (Some (c\<lparr>c_packet_id := p\<rparr>))) \<noteq> 0"
proof (induction n)
  case 0
  have "unat (c_packet_id c) - 1 < 65535" using unat_uint16_lt [of "c_packet_id c"] by simp
  moreover have "0 < unat (c_packet_id c)" using assms by (simp add: unat_gt_0)
  ultimately show ?case
    by (intro exI [of _ "c_packet_id c"]) (simp add: aemlib_core_next_packet_id_def Let_def)
next
  case (Suc n)
  then obtain p where p: "((\<lambda>client. snd (aemlib_core_next_packet_id client)) ^^ n) (Some c) = Some (c\<lparr>c_packet_id := p\<rparr>)"
    "unat p = (unat (c_packet_id c) - 1 + n) mod 65535 + 1" by blast
  let ?q = "if p + 1 = 0 then 1 else p + 1"
  have "p \<noteq> 0" using p(2) by auto
  from next_packet_id_unat [OF this] have "unat ?q = (unat (c_packet_id c) - 1 + Suc n) mod 65535 + 1"
    using p(2) by (simp add: mod_Suc_eq)
  then show ?case
    using p(1) by (intro exI [of _ ?q]) (simp add: aemlib_core_next_packet_id_def Let_def)
qed

theorem packet_id_cycle_witness:
  "((\<lambda>client. snd (aemlib_core_next_packet_id client)) ^^ 3) (Some (zero_client\<lparr>c_packet_id := 65533\<rparr> :: demo_world aemlib_client))
      = Some (zero_client\<lparr>c_packet_id := 1\<rparr>)"
proof -
  obtain p where p: "((\<lambda>client. snd (aemlib_core_next_packet_id client)) ^^ 3) (Some (zero_client\<lparr>c_packet_id := 65533\<rparr> :: demo_world aemlib_client))
      = Some (zero_client\<lparr>c_packet_id := 65533, c_packet_id := p\<rparr>)" "unat p = (65533 - 1 + 3) mod 65535 + 1"
    using packet_id_cycle [of "zero_client\<lparr>c_packet_id := 65533\<rparr> :: demo_world aemlib_client" 3] by auto
  then have "p = 1" by (simp add: word_unat_eq_iff)
  with p(1) show ?thesis by (simp add: zero_client_def)
qed

section \<open>Outbound packets\<close>

text \<open>
  C13: a successful poll loses, repeats and reorders none of the bytes accepted for sending, and adds to them at
  most one packet: the CONNECT packet of this connection attempt, which it marks as sent so that no later poll
  repeats it, or a PINGREQ when the client is connected.
\<close>

theorem poll_output:
  assumes "platform conn disc rd wr winv inq outq now deliver seen"
    and "wf_client c" "runs_on conn disc rd wr now deliver c" "winv w"
    and "aemlib_poll (Some c) w = Some (AEMLIB_STATUS_OK, Some c', w')"
  shows "\<exists>e. outq w' @ tx_bytes c' = outq w @ tx_bytes c @ e
    \<and> (e = [] \<and> c_connect_sent c' = c_connect_sent c
       \<or> e = connect_packet ([], ucast (c_keepalive_interval_ms c div 1000))
           \<and> c_state c' = AEMLIB_STATE_MQTT_CONNECT_SENT \<and> c_connect_sent c = 0 \<and> c_connect_sent c' = 1
       \<or> e = [0xC0, 0] \<and> c_state c' = AEMLIB_STATE_MQTT_CONNECTED \<and> c_connect_sent c' = c_connect_sent c)"
proof -
  have "platform.good conn disc rd wr winv now deliver c w"
    using assms(2-4) by (simp add: platform.good_def [OF assms(1)])
  from platform.poll_ok [OF assms(1) this] show ?thesis
    using assms(5) by (auto simp: platform.poll_result_def [OF assms(1)] poll_emission_def keepalive_sec_def)
qed

theorem poll_output_witness:
  "\<exists>c' w' e. aemlib_poll (Some (sample_client AEMLIB_STATE_MQTT_CONNECTED [] [])) (sample_world []) = Some (AEMLIB_STATUS_OK, Some c', w')
    \<and> vt_outq 0 w' @ tx_bytes c' = e \<and> (e = [] \<or> e = [0xC0, 0])"
proof -
  let ?c = "sample_client AEMLIB_STATE_MQTT_CONNECTED [] []"
  have c: "wf_client ?c" "demo_runs_on ?c" "vt_inv 0 (sample_world [])" "tx_bytes ?c = []" "vt_outq 0 (sample_world []) = []"
    by (simp_all add: sample_client_ok sample_world_ok)
  have "drain 64 [] = ([], [], AEMLIB_STATUS_OK)" by (simp add: drain.simps)
  then obtain c' w' where p: "aemlib_poll (Some ?c) (sample_world []) = Some (AEMLIB_STATUS_OK, Some c', w')"
    using sample_poll [of "[]"] by auto
  then show ?thesis using poll_output [OF demo.platform_axioms [of 0] c(1-3) p] c(4,5) by auto
qed

text \<open>
  C14: publishing, on every branch. An argument \<^verbatim>\<open>qos\<close> other than 0 is refused as UNSUPPORTED with nothing
  changed; a packet that does not fit the transmit buffer is refused as BUFFER_TOO_SMALL and a packet that meets
  staged bytes as WOULD_BLOCK, both with nothing sent; otherwise the packet follows what was sent before, under way
  or staged, or the call returns the error of the transport and sends nothing. Nothing is received or delivered.
\<close>

theorem publish_outcomes:
  assumes "platform conn disc rd wr winv inq outq now deliver seen"
    and "wf_client c" "runs_on conn disc rd wr now deliver c" "winv w" "publish_arg_ok (topic, payload, n)"
  shows "\<exists>st c' w'. aemlib_publish (Some c) (cstring topic) payload n qos w = Some (st, Some c', w')
    \<and> wf_client c' \<and> c_state c' = c_state c \<and> rx_bytes c' = rx_bytes c \<and> inq w' = inq w \<and> seen w' = seen w
    \<and> (if qos \<noteq> 0 then st = AEMLIB_STATUS AEMLIB_LAYER_GENERAL AEMLIB_CODE_UNSUPPORTED \<and> c' = c \<and> w' = w
       else if \<not> body_fits (publish_body topic (take (unat n) payload)) (c_tx_buffer_size c) then st = buffer_too_small \<and> outq w' = outq w
       else if c_tx_pending_len c \<noteq> 0 then st = io_would_block \<and> outq w' = outq w
       else if st = AEMLIB_STATUS_OK then outq w' @ tx_bytes c' = outq w @ publish_packet (topic, take (unat n) payload)
       else \<not> would_block st \<and> outq w' = outq w \<and> c_tx_pending_len c' = 0)"
proof (cases "qos = 0")
  case False
  then show ?thesis using assms(2) by (simp add: aemlib_publish_def)
next
  case True
  obtain r where r: "aemlib_publish (Some c) (cstring topic) payload n 0 w = to_pcall r"
    "platform.sends wr winv inq outq seen (body_fits (publish_body topic (take (unat n) payload)) (c_tx_buffer_size c))
       (publish_packet (topic, take (unat n) payload)) c w r"
    using platform.publish_ok [OF assms(1) _ assms(3-5)] assms(2) by (auto simp: wf_client_def)
  then obtain st c' w' where s: "r = Some (st, c', w')" "tx_frame c c'" "wf_tx c'" "inq w' = inq w" "seen w' = seen w"
    "send_outcome (body_fits (publish_body topic (take (unat n) payload)) (c_tx_buffer_size c))
       (publish_packet (topic, take (unat n) payload)) st c c' (outq w) (outq w')"
    by (auto simp: platform.sends_def [OF assms(1)])
  have "wf_client c'" "rx_bytes c' = rx_bytes c" "c_state c' = c_state c"
    using tx_frame_wf [OF assms(2) s(2,3)] tx_frame_rx [OF s(2)] s(2) by (auto simp: tx_frame_def)
  with True r(1) s show ?thesis by (auto simp: to_pcall_def send_outcome_def split: if_splits)
qed

theorem publish_outcomes_witness:
  "\<exists>st c' w'. aemlib_publish (Some (sample_client AEMLIB_STATE_MQTT_CONNECTED [] [])) (cstring (replicate 60 0x61)) [] 0 0 (sample_world [])
      = Some (st, Some c', w') \<and> st = buffer_too_small \<and> vt_outq 0 w' = []"
proof -
  let ?c = "sample_client AEMLIB_STATE_MQTT_CONNECTED [] []"
  have "wf_client ?c" "demo_runs_on ?c" "vt_inv 0 (sample_world [])" "publish_arg_ok (replicate 60 0x61, [], 0)"
    by (simp_all add: sample_client_ok sample_world_ok publish_arg_ok_def)
  then show ?thesis
    using publish_outcomes [OF demo.platform_axioms [of 0], of ?c "sample_world []" "replicate 60 0x61" "[]" 0 0]
    by (auto simp: body_fits_def sample_world_ok)
qed

text \<open>
  C23: subscribing, on every branch, as for publishing: an argument \<^verbatim>\<open>qos\<close> other than 0 is refused with nothing changed;
  otherwise a fresh packet identifier is drawn in any case, and the packet is refused as too large, refused because bytes
  are staged, sent or staged behind what was sent before, or lost with the error of the transport.
\<close>

theorem subscribe_outcomes:
  assumes "platform conn disc rd wr winv inq outq now deliver seen"
    and "wf_client c" "runs_on conn disc rd wr now deliver c" "winv w" "topic_ok topic"
  shows "\<exists>st c' w'. aemlib_subscribe (Some c) (cstring topic) qos w = Some (st, Some c', w')
    \<and> wf_client c' \<and> c_state c' = c_state c \<and> rx_bytes c' = rx_bytes c \<and> inq w' = inq w \<and> seen w' = seen w
    \<and> (if qos \<noteq> 0 then st = AEMLIB_STATUS AEMLIB_LAYER_GENERAL AEMLIB_CODE_UNSUPPORTED \<and> c' = c \<and> w' = w
       else c_packet_id c' = fst (aemlib_core_next_packet_id (Some c)) \<and> c_packet_id c' \<noteq> 0 \<and>
        (if \<not> body_fits (subscribe_body (c_packet_id c') topic) (c_tx_buffer_size c) then st = buffer_too_small \<and> outq w' = outq w
         else if c_tx_pending_len c \<noteq> 0 then st = io_would_block \<and> outq w' = outq w
         else if st = AEMLIB_STATUS_OK then outq w' @ tx_bytes c' = outq w @ subscribe_packet (c_packet_id c', topic)
         else \<not> would_block st \<and> outq w' = outq w \<and> c_tx_pending_len c' = 0))"
proof (cases "qos = 0")
  case False
  then show ?thesis using assms(2) by (simp add: aemlib_subscribe_def)
next
  case True
  obtain pid where pid: "aemlib_core_next_packet_id (Some c) = (pid, Some (c\<lparr>c_packet_id := pid\<rparr>))" "pid \<noteq> 0"
    using next_packet_id_ok by metis
  let ?c = "c\<lparr>c_packet_id := pid\<rparr>"
  have wf: "wf_client ?c" "rx_bytes ?c = rx_bytes c" using assms(2) pid(2) by (simp_all add: wf_client_def wf_rx_def wf_tx_def rx_bytes_def)
  obtain r where r: "aemlib_subscribe (Some c) (cstring topic) 0 w = to_pcall r"
    "platform.sends wr winv inq outq seen (body_fits (subscribe_body pid topic) (c_tx_buffer_size c)) (subscribe_packet (pid, topic)) ?c w r"
    using platform.subscribe_ok [OF assms(1) _ assms(3-5)] assms(2) pid(1) by (auto simp: wf_client_def)
  then obtain st c' w' where s: "r = Some (st, c', w')" "tx_frame ?c c'" "wf_tx c'" "inq w' = inq w" "seen w' = seen w"
    "send_outcome (body_fits (subscribe_body pid topic) (c_tx_buffer_size c)) (subscribe_packet (pid, topic)) st ?c c' (outq w) (outq w')"
    by (auto simp: platform.sends_def [OF assms(1)])
  have "wf_client c'" "rx_bytes c' = rx_bytes c" "c_state c' = c_state c" "c_packet_id c' = pid"
    using tx_frame_wf [OF wf(1) s(2,3)] tx_frame_rx [OF s(2)] s(2) wf(2) by (auto simp: tx_frame_def)
  with True r(1) s pid show ?thesis by (auto simp: to_pcall_def send_outcome_def split: if_splits)
qed

theorem subscribe_outcomes_witness:
  "\<exists>st c' w'. aemlib_subscribe (Some (sample_client AEMLIB_STATE_MQTT_CONNECTED [] [0xC0, 0])) (cstring [0x61]) 0 (sample_world [])
      = Some (st, Some c', w') \<and> st = io_would_block \<and> vt_outq 0 w' = [] \<and> c_packet_id c' = 2"
proof -
  let ?c = "sample_client AEMLIB_STATE_MQTT_CONNECTED [] [0xC0, 0]"
  have "wf_client ?c" "demo_runs_on ?c" "vt_inv 0 (sample_world [])" "topic_ok [0x61]"
    by (simp_all add: sample_client_ok sample_world_ok topic_ok_def)
  moreover have "fst (aemlib_core_next_packet_id (Some ?c)) = 2" by (simp add: aemlib_core_next_packet_id_def sample_client_def)
  ultimately show ?thesis
    using subscribe_outcomes [OF demo.platform_axioms [of 0], of ?c "sample_world []" "[0x61]" 0]
    by (auto simp: body_fits_def sample_world_ok subscribe_body_def utf8_def uint16_be_def)
qed

text \<open>
  C22: the keepalive is sent when it is due. A successful poll of a connected client reads the clock once; if the configured
  interval has passed since the CONNACK or the last keepalive packet, it appends a PINGREQ to the outgoing stream, under
  way or staged, and restarts the interval; otherwise it sends nothing.
\<close>

theorem keepalive_due:
  assumes "platform conn disc rd wr winv inq outq now deliver seen"
    and "wf_client c" "runs_on conn disc rd wr now deliver c" "winv w" "c_state c = AEMLIB_STATE_MQTT_CONNECTED"
    and "aemlib_poll (Some c) w = Some (AEMLIB_STATUS_OK, Some c', w')"
  shows "\<exists>w1. winv w1 \<and> (let t = fst (now w1) in
     if t - c_last_activity_ms c \<ge> c_keepalive_interval_ms c
     then outq w' @ tx_bytes c' = outq w @ tx_bytes c @ [0xC0, 0] \<and> c_last_activity_ms c' = t
     else outq w' @ tx_bytes c' = outq w @ tx_bytes c \<and> c_last_activity_ms c' = c_last_activity_ms c)"
proof -
  have "platform.good conn disc rd wr winv now deliver c w" using assms(2-4) by (simp add: platform.good_def [OF assms(1)])
  from platform.poll_keepalive_due [OF assms(1) this assms(5,6)] show ?thesis
    by (simp add: platform.keepalive_outcome_def [OF assms(1)] Let_def)
qed

theorem keepalive_due_witness:
  "\<exists>c' w'. aemlib_poll (Some (sample_client AEMLIB_STATE_MQTT_CONNECTED [] [])) (sample_world []) = Some (AEMLIB_STATUS_OK, Some c', w')
    \<and> vt_outq 0 w' @ tx_bytes c' = [] \<and> c_last_activity_ms c' = 0"
proof -
  let ?c = "sample_client AEMLIB_STATE_MQTT_CONNECTED [] []"
  have c: "wf_client ?c" "demo_runs_on ?c" "vt_inv 0 (sample_world [])" "vt_outq 0 (sample_world []) = []" "tx_bytes ?c = []"
    by (simp_all add: sample_client_ok sample_world_ok)
  have f: "c_last_activity_ms ?c = 0" "c_keepalive_interval_ms ?c = 60000" by (simp_all add: sample_client_def)
  have "drain 64 [] = ([], [], AEMLIB_STATUS_OK)" by (simp add: drain.simps)
  then obtain c' w' where p: "aemlib_poll (Some ?c) (sample_world []) = Some (AEMLIB_STATUS_OK, Some c', w')"
    using sample_poll [of "[]"] by auto
  then show ?thesis using keepalive_due [OF demo.platform_axioms [of 0] c(1-3) _ p] c(4,5) f by (auto simp: stub_time_now_def)
qed

text \<open>
  C34: a publish that is refused because bytes are still staged damages them. It reports WOULD_BLOCK and sends
  nothing, as documented, but the new packet has already been encoded over the staged bytes, so that the next
  flush continues the earlier packet with bytes of the refused one.
\<close>

theorem refused_publish_overwrites_staged:
  assumes "platform conn disc rd wr winv inq outq now deliver seen"
    and "wf_client c" "runs_on conn disc rd wr now deliver c" "winv w" "publish_arg_ok (topic, payload, n)"
    and "body_fits (publish_body topic (take (unat n) payload)) (c_tx_buffer_size c)" "c_tx_pending_len c \<noteq> 0"
  shows "\<exists>c' w'. aemlib_publish (Some c) (cstring topic) payload n 0 w = Some (io_would_block, Some c', w')
    \<and> outq w' = outq w \<and> c_tx_pending_len c' = c_tx_pending_len c
    \<and> take (length (publish_packet (topic, take (unat n) payload))) (tx_bytes c')
      = take (length (tx_bytes c)) (publish_packet (topic, take (unat n) payload))"
proof -
  obtain r where r: "aemlib_publish (Some c) (cstring topic) payload n 0 w = to_pcall r"
    "platform.sends wr winv inq outq seen (body_fits (publish_body topic (take (unat n) payload)) (c_tx_buffer_size c))
       (publish_packet (topic, take (unat n) payload)) c w r"
    using platform.publish_ok [OF assms(1) _ assms(3-5)] assms(2) by (auto simp: wf_client_def)
  have "length (tx_bytes c) = unat (c_tx_pending_len c)" using assms(2) by (simp add: wf_client_def length_tx_bytes)
  then show ?thesis
    using r assms(6,7) by (auto simp: platform.sends_def [OF assms(1)] send_outcome_def to_pcall_def)
qed

theorem refused_publish_overwrites_staged_witness:
  "\<exists>c' w'. aemlib_publish (Some (sample_client AEMLIB_STATE_MQTT_CONNECTED [] [0xC0, 0])) (cstring [0x61]) [7] 1 0 (sample_world [])
      = Some (io_would_block, Some c', w') \<and> take 6 (tx_bytes c') = [0x30, 4]"
proof -
  let ?c = "sample_client AEMLIB_STATE_MQTT_CONNECTED [] [0xC0, 0]"
  have "wf_client ?c" "demo_runs_on ?c" "vt_inv 0 (sample_world [])" "publish_arg_ok ([0x61], [7], 1)" "tx_bytes ?c = [0xC0, 0]"
    by (simp_all add: sample_client_ok sample_world_ok publish_arg_ok_def)
  then obtain c' w' where r: "aemlib_publish (Some ?c) (cstring [0x61]) [7] 1 0 (sample_world []) = Some (io_would_block, Some c', w')"
    "take (length (publish_packet ([0x61], [7]))) (tx_bytes c') = take (length (tx_bytes ?c)) (publish_packet ([0x61], [7]))"
    using refused_publish_overwrites_staged [OF demo.platform_axioms [of 0], of ?c "sample_world []" "[0x61]" "[7]" 1]
    by (auto simp: body_fits_def)
  have "length (publish_packet ([0x61], [7])) = 6" by (simp add: sample_packet)
  with r(2) have "take 6 (tx_bytes c') = take (length (tx_bytes ?c)) (publish_packet ([0x61], [7]))" by metis
  with r(1) \<open>tx_bytes ?c = [0xC0, 0]\<close> show ?thesis by (auto simp: sample_packet)
qed

section \<open>Initialisation and the remaining behaviours\<close>

text \<open>
  C32: initialisation, on every branch. It succeeds exactly when both pointers, both buffers with a non-zero size,
  all four transport functions and the clock are given; then the client is DISCONNECTED, holds the configuration, has
  nothing buffered or staged and starts with packet identifier 1. Otherwise the status is INVALID_ARG, the client
  (if there is one) is all zero and the world untouched. Storage is not examined.
\<close>

theorem init_outcomes:
  "aemlib_init client config w =
    (case (client, config) of
       (None, _) \<Rightarrow> Some (invalid_arg, None, w)
     | (Some _, None) \<Rightarrow> Some (invalid_arg, Some zero_client, w)
     | (Some _, Some cfg) \<Rightarrow>
         if cfg_tx_buffer cfg \<noteq> None \<and> cfg_tx_buffer_size cfg \<noteq> 0 \<and> cfg_rx_buffer cfg \<noteq> None \<and> cfg_rx_buffer_size cfg \<noteq> 0
          \<and> t_connect (cfg_transport cfg) \<noteq> None \<and> t_disconnect (cfg_transport cfg) \<noteq> None
          \<and> t_read (cfg_transport cfg) \<noteq> None \<and> t_write (cfg_transport cfg) \<noteq> None \<and> now_ms (cfg_time cfg) \<noteq> None
         then Some (AEMLIB_STATUS_OK,
           Some \<lparr>c_state = AEMLIB_STATE_DISCONNECTED, c_transport = cfg_transport cfg, c_time = cfg_time cfg,
                 c_storage = cfg_storage cfg, c_tx_buffer = cfg_tx_buffer cfg, c_tx_buffer_size = cfg_tx_buffer_size cfg,
                 c_rx_buffer = cfg_rx_buffer cfg, c_rx_buffer_size = cfg_rx_buffer_size cfg,
                 c_last_activity_ms = fst (the (now_ms (cfg_time cfg)) w),
                 c_keepalive_interval_ms = cfg_keepalive_interval_ms cfg, c_packet_id = 1, c_connect_sent = 0,
                 c_tx_pending_len = 0, c_rx_len = 0, c_on_message = cfg_on_message cfg\<rparr>,
           snd (the (now_ms (cfg_time cfg)) w))
         else Some (invalid_arg, Some zero_client, w))"
proof (cases client; cases config)
  fix c cfg assume some: "client = Some c" "config = Some cfg"
  show ?thesis
    by (cases "now_ms (cfg_time cfg)")
       (auto simp: some aemlib_init_def aemlib_core_init_def validate_config_def apply_config_def aemlib_transport_validate_def
          aemlib_time_validate_def aemlib_time_now_def zero_client_def Let_def split_def)
qed (auto simp: aemlib_init_def aemlib_core_init_def validate_config_def zero_client_def Let_def)

text \<open>
  A connect request on a client that is not disconnected is refused as STATE_INVALID and leaves the state
  alone, but it has already thrown away every byte received and not yet processed and every byte staged for sending,
  in the middle of whatever packet they belong to.
\<close>

lemma refused_connect_discards_buffers:
  assumes "c_state c \<noteq> AEMLIB_STATE_DISCONNECTED"
  shows "\<exists>c'. aemlib_connect (Some c) = (state_invalid, Some c') \<and> c_state c' = c_state c
    \<and> rx_bytes c' = [] \<and> tx_bytes c' = [] \<and> c_connect_sent c' = c_connect_sent c"
  using assms by (simp add: aemlib_connect_def aemlib_core_connect_def rx_bytes_def tx_bytes_def)

lemma refused_connect_discards_buffers_witness:
  "rx_bytes (sample_client AEMLIB_STATE_MQTT_CONNECTED [0x30, 4, 0] [0xC0]) = [0x30, 4, 0]
   \<and> (\<exists>c'. aemlib_connect (Some (sample_client AEMLIB_STATE_MQTT_CONNECTED [0x30, 4, 0] [0xC0])) = (state_invalid, Some c')
      \<and> c_state c' = AEMLIB_STATE_MQTT_CONNECTED \<and> rx_bytes c' = [])"
  using refused_connect_discards_buffers [of "sample_client AEMLIB_STATE_MQTT_CONNECTED [0x30, 4, 0] [0xC0]"]
  by (auto simp: sample_client_ok)

text \<open>
  C33: a PUBLISH above QoS 0 blocks the client for good. Once such a packet is complete at the front of the
  receive buffer, every read returns an error (UNSUPPORTED unless the transport itself fails), delivers nothing
  and leaves the packet where it is, so that the condition holds again for the next read; only a new connection
  empties the buffer.
\<close>

theorem unsupported_publish_sticks:
  assumes "platform conn disc rd wr winv inq outq now deliver seen"
    and "wf_rx c" "runs_on conn disc rd wr now deliver c" "winv w"
    and "fh_parse (rx_bytes c) = FH_Ok AEMLIB_MQTT_PKT_PUBLISH f n s" "header_qos f \<noteq> 0" "s + n \<le> length (rx_bytes c)"
  shows "\<exists>st c' w' more. client_read c w = Some (st, c', w') \<and> st \<noteq> AEMLIB_STATUS_OK \<and> seen w' = seen w
    \<and> wf_rx c' \<and> rx_bytes c' = rx_bytes c @ more \<and> fh_parse (rx_bytes c') = fh_parse (rx_bytes c)
    \<and> s + n \<le> length (rx_bytes c')"
proof -
  let ?S = "unat (c_rx_buffer_size c)"
  obtain st c' w' m where r: "client_read c w = Some (st, c', w')" "rx_frame c c'" "wf_rx c'"
    and o: "m = 0 \<and> st \<noteq> AEMLIB_STATUS_OK \<and> rx_bytes c' = rx_bytes c \<and> seen w' = seen w
       \<or> (\<exists>ms. drain ?S (rx_bytes c @ take m (inq w)) = (ms, rx_bytes c', st)
            \<and> seen w' = seen w @ (if c_on_message c = None then [] else ms))"
    using platform.client_read_ok [OF assms(1-4)] by blast
  have "s + n \<le> ?S" using assms(2,7) length_rx_bytes [OF assms(2)] by (auto simp: wf_rx_def)
  note d = drain_unsupported [OF assms(5-7) this, of "take m (inq w)"]
  have "\<exists>more. rx_bytes c' = rx_bytes c @ more \<and> st \<noteq> AEMLIB_STATUS_OK \<and> seen w' = seen w"
    using o
  proof (elim disjE exE conjE)
    fix ms assume "drain ?S (rx_bytes c @ take m (inq w)) = (ms, rx_bytes c', st)"
      "seen w' = seen w @ (if c_on_message c = None then [] else ms)"
    then show ?thesis using d by (intro exI [of _ "take m (inq w)"]) auto
  qed simp
  then show ?thesis
    using r(1,3) assms(5,7) fh_parse_append [of "rx_bytes c"] by auto
qed

theorem unsupported_publish_sticks_witness:
  "\<exists>st c' w' more. client_read (sample_client AEMLIB_STATE_MQTT_CONNECTED [0x32, 6, 0, 1, 0x61, 0, 9, 7] []) (sample_world []) = Some (st, c', w')
    \<and> st \<noteq> AEMLIB_STATUS_OK \<and> rx_bytes c' = [0x32, 6, 0, 1, 0x61, 0, 9, 7] @ more"
proof -
  let ?b = "[0x32, 6, 0, 1, 0x61, 0, 9, 7] :: byte list" and ?w = "sample_world []"
  let ?c = "sample_client AEMLIB_STATE_MQTT_CONNECTED ?b []"
  have c: "wf_rx ?c" "demo_runs_on ?c" "vt_inv 0 ?w" "rx_bytes ?c = ?b"
    using sample_client_ok(1) [of ?b "[]" AEMLIB_STATE_MQTT_CONNECTED] by (auto simp: sample_client_ok sample_world_ok wf_client_def)
  have "fh_parse ?b = FH_Ok AEMLIB_MQTT_PKT_PUBLISH 2 6 2" "header_qos 2 \<noteq> 0" by (simp_all add: packet_type_of_def header_qos_def)
  then show ?thesis using unsupported_publish_sticks [OF demo.platform_axioms [of 0] c(1-3), of 2 6 2] c(4) by auto
qed



text \<open>
  C35: closing a connection sends no DISCONNECT packet. The poll that completes a requested disconnect leaves the
  client DISCONNECTED, and the outgoing stream is what it was before: at most bytes staged earlier are flushed.
\<close>

theorem disconnect_sends_no_packet:
  assumes "platform conn disc rd wr winv inq outq now deliver seen"
    and "wf_client c" "runs_on conn disc rd wr now deliver c" "winv w"
    and "c_state c = AEMLIB_STATE_MQTT_CONNECTED" "aemlib_disconnect (Some c) = (st, Some c1)"
    and "aemlib_poll (Some c1) w = Some (AEMLIB_STATUS_OK, Some c2, w2)"
  shows "st = AEMLIB_STATUS_OK \<and> c_state c2 = AEMLIB_STATE_DISCONNECTED \<and> outq w2 @ tx_bytes c2 = outq w @ tx_bytes c"
proof -
  have c1: "c1 = c\<lparr>c_state := AEMLIB_STATE_MQTT_DISCONNECTING\<rparr>" "st = AEMLIB_STATUS_OK"
    using assms(5,6) by (auto simp: aemlib_disconnect_def aemlib_core_disconnect_def)
  have "platform.good conn disc rd wr winv now deliver c w"
    using assms(2-4) by (simp add: platform.good_def [OF assms(1)])
  then have "platform.good conn disc rd wr winv now deliver c1 w"
    using platform.good_request(2) [OF assms(1)] assms(6) by blast
  from platform.poll_ok [OF assms(1) this] have "platform.poll_result conn disc rd wr winv inq outq now deliver seen c1 w AEMLIB_STATUS_OK c2 w2"
    using assms(7) by auto
  then show ?thesis
    using c1 by (auto simp: platform.poll_result_def [OF assms(1)] poll_emission_def tx_bytes_def)
qed

theorem disconnect_sends_no_packet_witness:
  "\<exists>c1 st c2 w2. aemlib_disconnect (Some (sample_client AEMLIB_STATE_MQTT_CONNECTED [] [])) = (AEMLIB_STATUS_OK, Some c1)
    \<and> aemlib_poll (Some c1) (sample_world []) = Some (AEMLIB_STATUS_OK, Some c2, w2) \<and> c_state c2 = AEMLIB_STATE_DISCONNECTED
    \<and> vt_outq 0 w2 @ tx_bytes c2 = []"
proof -
  let ?c = "sample_client AEMLIB_STATE_MQTT_CONNECTED [] []" and ?w = "sample_world []"
  let ?c1 = "?c\<lparr>c_state := AEMLIB_STATE_MQTT_DISCONNECTING\<rparr>"
  have c: "wf_client ?c" "demo_runs_on ?c" "vt_inv 0 ?w" "c_state ?c = AEMLIB_STATE_MQTT_CONNECTED"
    "tx_bytes ?c = []" "vt_outq 0 ?w = []" by (simp_all add: sample_client_ok sample_world_ok)
  have d: "aemlib_disconnect (Some ?c) = (AEMLIB_STATUS_OK, Some ?c1)"
    by (simp add: aemlib_disconnect_def aemlib_core_disconnect_def)
  obtain c2 w2 where p: "aemlib_poll (Some ?c1) ?w = Some (AEMLIB_STATUS_OK, Some c2, w2)"
    by (simp add: aemlib_poll_def client_flush_pending_def aemlib_core_poll_def core_poll_state_def to_pcall_def poll_state_def
        handle_state_mqtt_disconnecting_def sample_client_def aemlib_virtual_transport_bind_def transport_of_def
        aemlib_transport_disconnect_def vt_disconnect_def sample_world_def)
  show ?thesis
    using disconnect_sends_no_packet [OF demo.platform_axioms [of 0] c(1-4) d p] c(5,6) d p by auto
qed

end
